theory Spec2Isabelle
  imports Main
begin

section \<open>Python values\<close>

text \<open>
  Keyword dictionaries, extras and attribute values hold arbitrary Python objects. The
  model keeps the kinds of values a manifest can carry. A dict is an association list:
  insertion order is the order of the list.
\<close>

datatype pyval =
    PNone
  | PBool bool
  | PInt int
  | PStr string
  | PList "pyval list"
  | PDict "(string \<times> pyval) list"

type_synonym pydict = "(string \<times> pyval) list"

text \<open>Python truthiness, as \<open>if v.original\<close>, \<open>elif variant.deprecated\<close> and \<open>or\<close> read it.\<close>

fun truthy :: "pyval \<Rightarrow> bool" where
  "truthy PNone = False"
| "truthy (PBool b) = b"
| "truthy (PInt i) = (i \<noteq> 0)"
| "truthy (PStr s) = (s \<noteq> [])"
| "truthy (PList xs) = (xs \<noteq> [])"
| "truthy (PDict kvs) = (kvs \<noteq> [])"

section \<open>PluginType\<close>

datatype PluginType =
    EXTRACTORS
  | LOADERS
  | TRANSFORMS
  | MODELS
  | DASHBOARDS
  | ORCHESTRATORS
  | TRANSFORMERS
  | FILES

text \<open>The members in declaration order, as iterating the enum class yields them.\<close>

definition PluginType_members :: "PluginType list" where
  "PluginType_members =
     [EXTRACTORS, LOADERS, TRANSFORMS, MODELS, DASHBOARDS, ORCHESTRATORS, TRANSFORMERS, FILES]"

text \<open>\<open>self.value\<close>: the string each member is declared with.\<close>

fun pt_value :: "PluginType \<Rightarrow> string" where
  "pt_value EXTRACTORS = ''extractors''"
| "pt_value LOADERS = ''loaders''"
| "pt_value TRANSFORMS = ''transforms''"
| "pt_value MODELS = ''models''"
| "pt_value DASHBOARDS = ''dashboards''"
| "pt_value ORCHESTRATORS = ''orchestrators''"
| "pt_value TRANSFORMERS = ''transformers''"
| "pt_value FILES = ''files''"

text \<open>\<open>self.value[:-1]\<close>: the slice drops the last character (and is empty on the empty string).\<close>

definition singular :: "PluginType \<Rightarrow> string" where
  "singular t = butlast (pt_value t)"

text \<open>\<open>descriptor\<close>: \<open>"file bundle"\<close> for FILES, the singular otherwise.\<close>

definition descriptor :: "PluginType \<Rightarrow> string" where
  "descriptor t = (if t = FILES then ''file bundle'' else singular t)"

text \<open>\<open>value.endswith("s")\<close>.\<close>

definition endswith_s :: "string \<Rightarrow> bool" where
  "endswith_s v = (v \<noteq> [] \<and> last v = CHR ''s'')"

section \<open>Variant and PluginDefinition: the data\<close>

text \<open>
  A Variant stores its attributes as given: the scalar attributes hold whatever value the
  keyword carried, the three list attributes are copied with \<open>list(...)\<close>, and \<open>extras\<close>
  is the dict of the keywords that are not parameters of \<open>Variant.__init__\<close>. The fields
  \<open>name\<close> and \<open>extras\<close> are written \<open>v_name\<close> and \<open>v_extras\<close>.
\<close>

record variant =
  v_name :: pyval
  original :: pyval
  deprecated :: pyval
  docs :: pyval
  repo :: pyval
  pip_url :: pyval
  executable :: pyval
  capabilities :: "pyval list"
  settings_group_validation :: "pyval list"
  settings :: "pyval list"
  v_extras :: pydict

text \<open>
  A PluginDefinition: \<open>_type\<close>, then the attributes in the order \<open>__init__\<close> sets them
  (\<open>name\<close> by \<open>PluginRef.__init__\<close>, \<open>namespace\<close>, the four presentation attributes
  in the order \<open>set_presentation_attrs\<close> passes them to \<open>update\<close>, \<open>extras\<close>,
  \<open>variants\<close>). The fields \<open>_type\<close>, \<open>name\<close> and \<open>extras\<close> are written
  \<open>pd_type\<close>, \<open>pd_name\<close> and \<open>pd_extras\<close>.
\<close>

record plugin_definition =
  pd_type :: PluginType
  pd_name :: string
  namespace :: string
  hidden :: pyval
  label :: pyval
  logo_url :: pyval
  description :: pyval
  pd_extras :: pydict
  variants :: "variant list"

text \<open>
  The exceptions of the modelled code. \<open>VariantNotFoundError\<close> carries the plugin, the
  requested name and the message given to \<open>Exception.__init__\<close>. \<open>ValueError\<close> carries
  the value that was looked up (the enum's lookup, \<open>list.remove\<close>); \<open>NotFound\<close> is
  the error of \<open>find_named\<close>.
\<close>

datatype error =
    ValueError string
  | TypeError
  | IndexError
  | AttributeError
  | NotFound string
  | VariantNotFoundError plugin_definition string string

section \<open>PluginType: lookups\<close>

text \<open>
  \<open>cls(value)\<close>: the enum's lookup by value. It returns the member declared with that
  string and raises ValueError for any other string.
\<close>

definition PluginType_of_value :: "string \<Rightarrow> error + PluginType" where
  "PluginType_of_value v =
     (case find (\<lambda>t. pt_value t = v) PluginType_members of
        None \<Rightarrow> Inl (ValueError v)
      | Some t \<Rightarrow> Inr t)"

definition value_exists :: "string \<Rightarrow> bool" where
  "value_exists v = (v \<in> set (map pt_value PluginType_members))"

text \<open>The normalisation of \<open>from_cli_argument\<close>: \<open>if not value.endswith("s"): value += "s"\<close>.\<close>

definition cli_normalize :: "string \<Rightarrow> string" where
  "cli_normalize v = (if \<not> endswith_s v then v @ ''s'' else v)"

definition from_cli_argument :: "string \<Rightarrow> error + PluginType" where
  "from_cli_argument v = PluginType_of_value (cli_normalize v)"

section \<open>Dictionaries and lists of Python values\<close>

text \<open>\<open>d.get(k, default)\<close>.\<close>

definition dict_get :: "pydict \<Rightarrow> string \<Rightarrow> pyval \<Rightarrow> pyval" where
  "dict_get d k dflt = (case map_of d k of None \<Rightarrow> dflt | Some v \<Rightarrow> v)"

text \<open>
  \<open>d[k] = v\<close>: an existing key keeps its place and takes the new value, a new key is
  added at the end.
\<close>

definition dict_set :: "pydict \<Rightarrow> string \<Rightarrow> pyval \<Rightarrow> pydict" where
  "dict_set d k v =
     (if k \<in> set (map fst d) then map (\<lambda>(k', v'). if k' = k then (k', v) else (k', v')) d
      else d @ [(k, v)])"

text \<open>\<open>d.pop(k, None)\<close>: the value (or None) and the dict without the key.\<close>

definition dict_pop :: "pydict \<Rightarrow> string \<Rightarrow> pyval \<times> pydict" where
  "dict_pop d k = (dict_get d k PNone, filter (\<lambda>(k', _). k' \<noteq> k) d)"

text \<open>\<open>{**a, **b}\<close>: the items of \<open>a\<close>, then each item of \<open>b\<close> stored in turn.\<close>

definition dict_merge :: "pydict \<Rightarrow> pydict \<Rightarrow> pydict" where
  "dict_merge a b = foldl (\<lambda>d (k, v). dict_set d k v) a b"

text \<open>
  \<open>list(x)\<close>: a list is copied, a string gives its characters, a dict its keys, and
  None, a bool or an int is not iterable.
\<close>

fun py_list :: "pyval \<Rightarrow> error + pyval list" where
  "py_list (PList xs) = Inr xs"
| "py_list (PStr s) = Inr (map (\<lambda>c. PStr [c]) s)"
| "py_list (PDict kvs) = Inr (map (\<lambda>(k, _). PStr k) kvs)"
| "py_list PNone = Inl TypeError"
| "py_list (PBool _) = Inl TypeError"
| "py_list (PInt _) = Inl TypeError"

text \<open>Mapping a function that may raise over a list: the first error stops the loop.\<close>

fun map_result :: "('a \<Rightarrow> error + 'b) \<Rightarrow> 'a list \<Rightarrow> error + 'b list" where
  "map_result f [] = Inr []"
| "map_result f (x # xs) =
     (case f x of
        Inl e \<Rightarrow> Inl e
      | Inr y \<Rightarrow> (case map_result f xs of Inl e \<Rightarrow> Inl e | Inr ys \<Rightarrow> Inr (y # ys)))"

section \<open>Variant and PluginDefinition: construction\<close>

text \<open>The named parameters of \<open>Variant.__init__\<close>; every other keyword lands in \<open>**extras\<close>.\<close>

definition Variant_params :: "string list" where
  "Variant_params =
     [''name'', ''original'', ''deprecated'', ''docs'', ''repo'', ''pip_url'', ''executable'',
      ''capabilities'', ''settings_group_validation'', ''settings'']"

text \<open>
  \<open>Variant.__init__\<close>, called with keywords \<open>kw\<close>. Scalars default to None and the list
  parameters to \<open>[]\<close>. \<open>SettingDefinition.parse\<close> is not part of the sources at hand
  and is the parameter \<open>sd_parse\<close>; it is applied to each element of \<open>settings\<close>.
\<close>

definition Variant_init :: "(pyval \<Rightarrow> error + pyval) \<Rightarrow> pydict \<Rightarrow> error + variant" where
  "Variant_init sd_parse kw =
     (case py_list (dict_get kw ''capabilities'' (PList [])) of
        Inl e \<Rightarrow> Inl e
      | Inr caps \<Rightarrow>
     (case py_list (dict_get kw ''settings_group_validation'' (PList [])) of
        Inl e \<Rightarrow> Inl e
      | Inr sgv \<Rightarrow>
     (case py_list (dict_get kw ''settings'' (PList [])) of
        Inl e \<Rightarrow> Inl e
      | Inr raw \<Rightarrow>
     (case map_result sd_parse raw of
        Inl e \<Rightarrow> Inl e
      | Inr ss \<Rightarrow>
          Inr \<lparr> v_name = dict_get kw ''name'' PNone,
                original = dict_get kw ''original'' PNone,
                deprecated = dict_get kw ''deprecated'' PNone,
                docs = dict_get kw ''docs'' PNone,
                repo = dict_get kw ''repo'' PNone,
                pip_url = dict_get kw ''pip_url'' PNone,
                executable = dict_get kw ''executable'' PNone,
                capabilities = caps,
                settings_group_validation = sgv,
                settings = ss,
                v_extras = filter (\<lambda>(k, _). k \<notin> set Variant_params) kw \<rparr>))))"

text \<open>
  An element of the \<open>variants\<close> argument: a Variant instance, or a mapping of a variant's
  fields as a manifest gives it.
\<close>

datatype variant_arg = VariantObj variant | VariantDict pydict

text \<open>
  Modelled from the spec: \<open>Variant.parse\<close>, inherited from \<open>Canonical\<close>, which is not
  part of the sources at hand. Line 182 hands it the Variant just built and expects it
  back, and the spec has each element of a nested \<open>variants\<close> list shaped as the
  mapping of a variant's fields: an instance is returned as it is, a mapping is passed
  to the constructor as keywords.
\<close>

fun Variant_parse :: "(pyval \<Rightarrow> error + pyval) \<Rightarrow> variant_arg \<Rightarrow> error + variant" where
  "Variant_parse sd_parse (VariantObj v) = Inr v"
| "Variant_parse sd_parse (VariantDict kw) = Variant_init sd_parse kw"

text \<open>
  The named parameters of \<open>PluginDefinition.__init__\<close>. A call cannot also carry one of
  them inside \<open>**extras\<close>: Python refuses it with a TypeError (multiple values for the
  argument).
\<close>

definition PluginDefinition_params :: "string list" where
  "PluginDefinition_params = [''plugin_type'', ''name'', ''namespace'', ''variant'', ''variants'']"

text \<open>The four keys \<open>set_presentation_attrs\<close> pops out of the extras.\<close>

definition presentation_attrs :: "string list" where
  "presentation_attrs = [''hidden'', ''label'', ''logo_url'', ''description'']"

text \<open>
  \<open>PluginDefinition.__init__\<close> from the point where the extras and the variants are
  known (lines 185 to 188): \<open>set_presentation_attrs\<close> pops the four presentation keys in
  the order hidden, label, logo_url, description, the remaining dict becomes \<open>extras\<close>,
  and each variant goes through \<open>Variant.parse\<close>.
\<close>

definition PluginDefinition_finish ::
  "(pyval \<Rightarrow> error + pyval) \<Rightarrow> PluginType \<Rightarrow> string \<Rightarrow> string \<Rightarrow> pydict \<Rightarrow> variant_arg list
     \<Rightarrow> error + plugin_definition" where
  "PluginDefinition_finish sd_parse plugin_type name nspace kw vargs =
     (let (h, e1) = dict_pop kw ''hidden'';
          (l, e2) = dict_pop e1 ''label'';
          (u, e3) = dict_pop e2 ''logo_url'';
          (d, e4) = dict_pop e3 ''description''
      in case map_result (Variant_parse sd_parse) vargs of
           Inl e \<Rightarrow> Inl e
         | Inr vs \<Rightarrow>
             Inr \<lparr> pd_type = plugin_type, pd_name = name, namespace = nspace,
                   hidden = h, label = l, logo_url = u, description = d,
                   pd_extras = e4, variants = vs \<rparr>)"

text \<open>
  \<open>PluginDefinition.__init__(plugin_type, name, namespace, variant, variants, **extras)\<close>.
  With no variants (\<open>if not variants\<close>) one Variant is built from \<open>variant\<close> and the
  extras; what that Variant took as its own extras becomes the extras of the definition
  and the Variant's extras are emptied.
\<close>

definition PluginDefinition_init ::
  "(pyval \<Rightarrow> error + pyval) \<Rightarrow> PluginType \<Rightarrow> string \<Rightarrow> string \<Rightarrow> pyval \<Rightarrow> variant_arg list
     \<Rightarrow> pydict \<Rightarrow> error + plugin_definition" where
  "PluginDefinition_init sd_parse plugin_type name nspace var vargs kw =
     (if \<exists>k \<in> set (map fst kw). k \<in> set PluginDefinition_params then Inl TypeError
      else if vargs = [] then
        (case Variant_init sd_parse ((''name'', var) # kw) of
           Inl e \<Rightarrow> Inl e
         | Inr v \<Rightarrow>
             PluginDefinition_finish sd_parse plugin_type name nspace (v_extras v)
               [VariantObj (v\<lparr>v_extras := []\<rparr>)])
      else PluginDefinition_finish sd_parse plugin_type name nspace kw vargs)"

section \<open>PluginDefinition: variant lookup\<close>

text \<open>
  Modelled from the spec: \<open>find_named\<close> of \<open>meltano.core.utils\<close>, which is not part of
  the sources at hand. The spec calls it the exact-name lookup (lookup is by exact name
  match): the first element whose name equals the requested string, and \<open>NotFound\<close>
  when there is none. A name that is not a string equals no string.
\<close>

definition find_named :: "variant list \<Rightarrow> string \<Rightarrow> error + variant" where
  "find_named xs n =
     (case find (\<lambda>x. v_name x = PStr n) xs of
        None \<Rightarrow> Inl (NotFound n)
      | Some x \<Rightarrow> Inr x)"

text \<open>
  \<open>name += suffix\<close> for a string suffix: a string is extended, a list takes the
  characters of the suffix as new elements, and any other value raises TypeError.
\<close>

fun py_iadd_str :: "pyval \<Rightarrow> string \<Rightarrow> error + pyval" where
  "py_iadd_str (PStr s) suffix = Inr (PStr (s @ suffix))"
| "py_iadd_str (PList xs) suffix = Inr (PList (xs @ map (\<lambda>c. PStr [c]) suffix))"
| "py_iadd_str PNone suffix = Inl TypeError"
| "py_iadd_str (PBool _) suffix = Inl TypeError"
| "py_iadd_str (PInt _) suffix = Inl TypeError"
| "py_iadd_str (PDict _) suffix = Inl TypeError"

text \<open>\<open>sep.join(names)\<close>: every element must be a string.\<close>

fun join :: "string \<Rightarrow> string list \<Rightarrow> string" where
  "join sep [] = []"
| "join sep [x] = x"
| "join sep (x # y # ys) = x @ sep @ join sep (y # ys)"

fun as_str :: "pyval \<Rightarrow> string option" where
  "as_str (PStr s) = Some s"
| "as_str _ = None"

definition py_join :: "string \<Rightarrow> pyval list \<Rightarrow> error + string" where
  "py_join sep xs =
     (case those (map as_str xs) of None \<Rightarrow> Inl TypeError | Some ss \<Rightarrow> Inr (join sep ss))"

text \<open>
  The annotated name of the variant at index \<open>i\<close>, the body of the loop of
  \<open>list_variant_names\<close>: \<open>variant.name or "original"\<close>, then \<open>" (default)"\<close> at index
  0, else \<open>" (deprecated)"\<close> when the deprecated attribute is truthy.
\<close>

definition variant_label :: "nat \<Rightarrow> variant \<Rightarrow> error + pyval" where
  "variant_label i v =
     (let name = (if truthy (v_name v) then v_name v else PStr ''original'')
      in if i = 0 then py_iadd_str name '' (default)''
         else if truthy (deprecated v) then py_iadd_str name '' (deprecated)''
         else Inr name)"

text \<open>The loop \<open>for i, variant in enumerate(self.variants)\<close>, appending to \<open>names\<close>.\<close>

fun variant_labels :: "nat \<Rightarrow> variant list \<Rightarrow> pyval list \<Rightarrow> error + pyval list" where
  "variant_labels i [] names = Inr names"
| "variant_labels i (v # vs) names =
     (case variant_label i v of
        Inl e \<Rightarrow> Inl e
      | Inr name \<Rightarrow> variant_labels (Suc i) vs (names @ [name]))"

definition list_variant_names :: "plugin_definition \<Rightarrow> error + string" where
  "list_variant_names d =
     (case variant_labels 0 (variants d) [] of
        Inl e \<Rightarrow> Inl e
      | Inr names \<Rightarrow> py_join '', '' names)"

text \<open>
  \<open>str.capitalize()\<close> on ASCII text: the first character in upper case, the others in
  lower case. It is applied to the descriptors only, which are ASCII.
\<close>

definition ascii_upper :: "char \<Rightarrow> char" where
  "ascii_upper c =
     (case map_of (zip ''abcdefghijklmnopqrstuvwxyz'' ''ABCDEFGHIJKLMNOPQRSTUVWXYZ'') c of
        None \<Rightarrow> c
      | Some u \<Rightarrow> u)"

definition ascii_lower :: "char \<Rightarrow> char" where
  "ascii_lower c =
     (case map_of (zip ''ABCDEFGHIJKLMNOPQRSTUVWXYZ'' ''abcdefghijklmnopqrstuvwxyz'') c of
        None \<Rightarrow> c
      | Some l \<Rightarrow> l)"

fun capitalize :: "string \<Rightarrow> string" where
  "capitalize [] = []"
| "capitalize (c # cs) = ascii_upper c # map ascii_lower cs"

text \<open>The first line of the message of \<open>VariantNotFoundError\<close>, up to \<open>Variants: \<close>.\<close>

definition not_known_message :: "plugin_definition \<Rightarrow> string \<Rightarrow> string" where
  "not_known_message plugin variant_name =
     capitalize (descriptor (pd_type plugin)) @ '' '' @ [CHR 0x27] @ pd_name plugin @ [CHR 0x27]
       @ '' variant '' @ [CHR 0x27] @ variant_name @ [CHR 0x27]
       @ '' is not known to Meltano. '' @ ''Variants: ''"

text \<open>
  \<open>VariantNotFoundError(plugin, variant_name)\<close>: the exception that leaves the
  constructor call. It is the error itself, or the TypeError raised while the message is
  built.
\<close>

definition VariantNotFoundError_init :: "plugin_definition \<Rightarrow> string \<Rightarrow> error" where
  "VariantNotFoundError_init plugin variant_name =
     (case list_variant_names plugin of
        Inl e \<Rightarrow> e
      | Inr names \<Rightarrow>
          VariantNotFoundError plugin variant_name (not_known_message plugin variant_name @ names))"

definition get_variant :: "plugin_definition \<Rightarrow> string \<Rightarrow> error + variant" where
  "get_variant d variant_name =
     (case find_named (variants d) variant_name of
        Inr v \<Rightarrow> Inr v
      | Inl (NotFound _) \<Rightarrow> Inl (VariantNotFoundError_init d variant_name)
      | Inl e \<Rightarrow> Inl e)"

text \<open>
  The argument of \<open>find_variant\<close>, typed \<open>Union[str, Variant]\<close> with default None.
\<close>

datatype selector = SelVariant variant | SelNone | SelName string

text \<open>\<open>self.variants[0]\<close>: IndexError on an empty list.\<close>

definition first_variant :: "plugin_definition \<Rightarrow> error + variant" where
  "first_variant d = (case variants d of [] \<Rightarrow> Inl IndexError | v # _ \<Rightarrow> Inr v)"

fun find_variant :: "plugin_definition \<Rightarrow> selector \<Rightarrow> error + variant" where
  "find_variant d (SelVariant v) = Inr v"
| "find_variant d SelNone = first_variant d"
| "find_variant d (SelName n) =
     (if n = ''default'' then first_variant d
      else if n = ''original'' then
        (case find (\<lambda>v. truthy (original v)) (variants d) of
           Some v \<Rightarrow> Inr v
         | None \<Rightarrow> first_variant d)
      else get_variant d n)"

section \<open>BasePlugin\<close>

text \<open>The fields \<open>_plugin_def\<close> and \<open>_variant\<close>.\<close>

record base_plugin =
  bp_plugin_def :: plugin_definition
  bp_variant :: variant

text \<open>The property \<open>extras\<close>: \<open>{**self._plugin_def.extras, **self._variant.extras}\<close>.\<close>

definition extras :: "base_plugin \<Rightarrow> pydict" where
  "extras p = dict_merge (pd_extras (bp_plugin_def p)) (v_extras (bp_variant p))"

text \<open>
  A SettingDefinition, as far as \<open>extra_settings\<close> reads it: its name, its value and its
  other attributes.
\<close>

record setting_definition =
  sd_name :: string
  sd_value :: pyval
  sd_attrs :: pydict

text \<open>
  Modelled from the spec: \<open>SettingDefinition.with_attrs(value=default_value)\<close>, inherited
  from \<open>Canonical\<close>, which is not part of the sources at hand. The spec has the default
  bound as the setting's value: a copy of the definition with that value.
\<close>

definition with_attrs_value :: "setting_definition \<Rightarrow> pyval \<Rightarrow> setting_definition" where
  "with_attrs_value s v = s\<lparr>sd_value := v\<rparr>"

text \<open>\<open>defaults = {f"_{k}": v for k, v in self.extras.items()}\<close>.\<close>

definition prefixed_defaults :: "pydict \<Rightarrow> pydict" where
  "prefixed_defaults ex = map (\<lambda>(k, v). (''_'' @ k, v)) ex"

text \<open>The body of the loop over \<open>EXTRA_SETTINGS\<close>.\<close>

definition bind_default :: "pydict \<Rightarrow> setting_definition \<Rightarrow> setting_definition" where
  "bind_default defaults setting =
     (let default_value = dict_get defaults (sd_name setting) PNone
      in if default_value \<noteq> PNone then with_attrs_value setting default_value else setting)"

text \<open>
  The property \<open>extra_settings\<close>. The class constant \<open>EXTRA_SETTINGS\<close> (empty in
  BasePlugin, set by its subclasses) and \<open>SettingDefinition.from_missing\<close> are not part
  of the sources at hand; they are the parameters \<open>EXTRA_SETTINGS\<close> and
  \<open>from_missing\<close>, the latter applied to the settings collected so far and the prefixed
  defaults.
\<close>

definition extra_settings ::
  "setting_definition list \<Rightarrow> (setting_definition list \<Rightarrow> pydict \<Rightarrow> setting_definition list)
     \<Rightarrow> base_plugin \<Rightarrow> setting_definition list" where
  "extra_settings EXTRA_SETTINGS from_missing p =
     (let defaults = prefixed_defaults (extras p);
          existing_settings = map (bind_default defaults) EXTRA_SETTINGS
      in existing_settings @ from_missing existing_settings defaults)"

section \<open>SelectService\<close>

text \<open>
  \<open>_get_pattern_string\<close>: \<open>exclude = "!" if exclude else ""\<close>, then the f-string
  \<open>f"{exclude}{entities_filter}.{attributes_filter}"\<close>.
\<close>

definition get_pattern_string :: "string \<Rightarrow> string \<Rightarrow> bool \<Rightarrow> string" where
  "get_pattern_string entities_filter attributes_filter exclude =
     (let excl = (if exclude then ''!'' else [])
      in excl @ entities_filter @ ''.'' @ attributes_filter)"

text \<open>
  The two persistence calls of the project's plugin repository, each with the extras of
  the plugin object it is given.
\<close>

datatype persist_call = Update_plugin pydict | Update_environment_plugin pydict

text \<open>
  What \<open>update\<close> reads and writes: the extras of the extractor, the active environment
  (None, or the extras of the config object that \<open>get_plugin_config\<close> returns for the
  extractor) and the persistence calls made so far.
\<close>

record select_state =
  extractor_extras :: pydict
  environment :: "pydict option"
  persisted :: "persist_call list"

text \<open>The extras of the object \<open>plugin\<close> that lines 67 to 72 resolve.\<close>

definition target_extras :: "select_state \<Rightarrow> pydict" where
  "target_extras s = (case environment s of None \<Rightarrow> extractor_extras s | Some e \<Rightarrow> e)"

text \<open>
  Lines 82 to 87: \<open>plugin.extras["select"] = patterns\<close> on the resolved object, then the
  persistence call that belongs to it.
\<close>

definition store_select :: "select_state \<Rightarrow> pyval list \<Rightarrow> select_state" where
  "store_select s patterns =
     (let ex = dict_set (target_extras s) ''select'' (PList patterns)
      in case environment s of
           None \<Rightarrow> s\<lparr>extractor_extras := ex, persisted := persisted s @ [Update_plugin ex]\<rparr>
         | Some _ \<Rightarrow>
             s\<lparr>environment := Some ex, persisted := persisted s @ [Update_environment_plugin ex]\<rparr>)"

text \<open>
  \<open>SelectService.update\<close>: the state when the call ends and the exception that ended
  it, if any. \<open>patterns.remove\<close> raises ValueError, and changes nothing, when no element
  equals the pattern; otherwise it deletes the first such element. A \<open>select\<close> value
  that is not a list has neither \<open>remove\<close> nor \<open>append\<close> (AttributeError).
\<close>

definition update ::
  "string \<Rightarrow> string \<Rightarrow> bool \<Rightarrow> bool \<Rightarrow> select_state \<Rightarrow> select_state \<times> error option" where
  "update entities_filter attributes_filter exclude remove s =
     (let this_pattern = get_pattern_string entities_filter attributes_filter exclude
      in case dict_get (target_extras s) ''select'' (PList []) of
           PList patterns \<Rightarrow>
             if remove then
               (if PStr this_pattern \<in> set patterns
                then (store_select s (remove1 (PStr this_pattern) patterns), None)
                else (s, Some (ValueError this_pattern)))
             else (store_select s (patterns @ [PStr this_pattern]), None)
         | _ \<Rightarrow> (s, Some AttributeError))"

section \<open>Objects built with defaults\<close>

text \<open>
  \<open>Variant(name=n)\<close>: every other attribute at its default. The examples below are
  written as updates of it.
\<close>

definition Variant_named :: "string \<Rightarrow> variant" where
  "Variant_named n =
     \<lparr> v_name = PStr n, original = PNone, deprecated = PNone, docs = PNone, repo = PNone,
       pip_url = PNone, executable = PNone, capabilities = [], settings_group_validation = [],
       settings = [], v_extras = [] \<rparr>"

text \<open>
  \<open>PluginDefinition(plugin_type, name, namespace, variants=vs)\<close> for Variant instances
  \<open>vs\<close> and no further keywords.
\<close>

definition PluginDefinition_of ::
  "PluginType \<Rightarrow> string \<Rightarrow> string \<Rightarrow> variant list \<Rightarrow> plugin_definition" where
  "PluginDefinition_of plugin_type name nspace vs =
     \<lparr> pd_type = plugin_type, pd_name = name, namespace = nspace,
       hidden = PNone, label = PNone, logo_url = PNone, description = PNone,
       pd_extras = [], variants = vs \<rparr>"

section \<open>The message of VariantNotFoundError, stated directly\<close>

text \<open>
  What \<open>list_variant_names\<close> lists for the variant at index \<open>i\<close> when its name is a
  string or None: the name (\<open>original\<close> for None and for the empty string), followed by
  \<open>(default)\<close> at index 0 and by \<open>(deprecated)\<close> at a later index with a truthy
  deprecated attribute. It is compared with the loop of the source below.
\<close>

definition annotated_name :: "nat \<Rightarrow> variant \<Rightarrow> string" where
  "annotated_name i v =
     (case v_name v of PStr s \<Rightarrow> (if s = [] then ''original'' else s) | _ \<Rightarrow> ''original'')
       @ (if i = 0 then '' (default)''
          else if truthy (deprecated v) then '' (deprecated)'' else [])"

section \<open>PluginRef: equality\<close>

text \<open>\<open>PluginRef.__eq__\<close>: \<open>self.name == other.name and self.type == other.type\<close>.\<close>

definition PluginRef_eq :: "plugin_definition \<Rightarrow> plugin_definition \<Rightarrow> bool" where
  "PluginRef_eq self other = (pd_name self = pd_name other \<and> pd_type self = pd_type other)"

section \<open>PluginDefinition: iteration\<close>

text \<open>
  What iterating a definition yields as the value of a field: a plain value, or the list
  of Variant objects stored under \<open>variants\<close>.
\<close>

datatype item = Val pyval | Variants "variant list"

text \<open>
  \<open>PluginDefinition.__iter__\<close>. The pairs of \<open>super().__iter__()\<close> are the argument
  \<open>super_iter\<close> and the iteration of a Variant is the argument \<open>variant_iter\<close>.
  The pair \<open>variants\<close> with a list of length 1 is replaced by the pairs of that one
  variant, \<open>name\<close> renamed to \<open>variant\<close>; every other pair is passed on. Only a list of
  Variant objects is stored under \<open>variants\<close> (line 188, and \<open>__init__\<close> binds the
  keyword \<open>variants\<close> to its parameter, so no extra carries that key); a plain value
  under that key is passed on.
\<close>

fun PluginDefinition_iter ::
  "(variant \<Rightarrow> pydict) \<Rightarrow> (string \<times> item) list \<Rightarrow> (string \<times> item) list" where
  "PluginDefinition_iter variant_iter [] = []"
| "PluginDefinition_iter variant_iter ((k, v) # super_iter) =
     (case v of
        Variants vs \<Rightarrow>
          if k = ''variants'' \<and> length vs = 1
          then map (\<lambda>(variant_k, variant_v).
                      (if variant_k = ''name'' then ''variant'' else variant_k, Val variant_v))
                 (variant_iter (vs ! 0))
          else [(k, v)]
      | Val _ \<Rightarrow> [(k, v)])
     @ PluginDefinition_iter variant_iter super_iter"

text \<open>
  The attributes of a Variant other than \<open>extras\<close>, in the order \<open>Variant.__init__\<close>
  passes them on, and the attributes of a PluginDefinition other than \<open>extras\<close> and
  \<open>variants\<close>, in the order \<open>PluginDefinition.__init__\<close> sets them.
\<close>

definition Variant_attrs :: "variant \<Rightarrow> pydict" where
  "Variant_attrs v =
     [(''name'', v_name v), (''original'', original v), (''deprecated'', deprecated v),
      (''docs'', docs v), (''repo'', repo v), (''pip_url'', pip_url v),
      (''executable'', executable v), (''capabilities'', PList (capabilities v)),
      (''settings_group_validation'', PList (settings_group_validation v)),
      (''settings'', PList (settings v))]"

definition PluginDefinition_attrs :: "plugin_definition \<Rightarrow> pydict" where
  "PluginDefinition_attrs d =
     [(''name'', PStr (pd_name d)), (''namespace'', PStr (namespace d)), (''hidden'', hidden d),
      (''label'', label d), (''logo_url'', logo_url d), (''description'', description d)]"

text \<open>
  Modelled from the spec: \<open>Canonical.__iter__\<close>, the inherited iteration, which is not
  part of the sources at hand. The spec has iteration emit the fields in declaration
  order, with the extra keys on the entry itself, and marks fields of the manifest shape
  as optional without saying when a field is left out: which attributes are left out is
  the parameter \<open>omit\<close> (a key and its value), and \<open>\<lambda>k x. False\<close> emits every
  field. The items of \<open>extras\<close> are all emitted, in place of the field \<open>extras\<close>.
\<close>

definition Variant_iter :: "(string \<Rightarrow> pyval \<Rightarrow> bool) \<Rightarrow> variant \<Rightarrow> pydict" where
  "Variant_iter omit v = filter (\<lambda>(k, x). \<not> omit k x) (Variant_attrs v) @ v_extras v"

definition Canonical_iter ::
  "(string \<Rightarrow> pyval \<Rightarrow> bool) \<Rightarrow> plugin_definition \<Rightarrow> (string \<times> item) list" where
  "Canonical_iter omit d =
     map (\<lambda>(k, x). (k, Val x))
       (filter (\<lambda>(k, x). \<not> omit k x) (PluginDefinition_attrs d) @ pd_extras d)
     @ [(''variants'', Variants (variants d))]"

text \<open>Iterating a definition: \<open>PluginDefinition.__iter__\<close> over the inherited iteration.\<close>

definition serialize :: "(string \<Rightarrow> pyval \<Rightarrow> bool) \<Rightarrow> plugin_definition \<Rightarrow> (string \<times> item) list" where
  "serialize omit d = PluginDefinition_iter (Variant_iter omit) (Canonical_iter omit d)"

text \<open>
  The \<open>variants\<close> argument as a manifest gives it: nothing or an empty list, or a list
  of mappings.
\<close>

fun variant_args :: "pyval \<Rightarrow> error + variant_arg list" where
  "variant_args PNone = Inr []"
| "variant_args (PList xs) =
     map_result (\<lambda>x. case x of PDict kw \<Rightarrow> Inr (VariantDict kw) | _ \<Rightarrow> Inl TypeError) xs"
| "variant_args _ = Inl TypeError"

text \<open>
  Modelled from the spec: re-parsing a serialized definition, which the sources at hand
  do not contain. The pairs are made a dict (a later pair with the same key replaces the
  value of the earlier one) and handed to the constructor as keywords, next to the
  plugin type, which the serialized form does not carry: \<open>name\<close>, \<open>namespace\<close>,
  \<open>variant\<close> and \<open>variants\<close> bind the parameters of those names and every other key
  goes to \<open>**extras\<close>. \<open>name\<close> and \<open>namespace\<close> are required and are strings.
\<close>

definition reparse ::
  "(pyval \<Rightarrow> error + pyval) \<Rightarrow> PluginType \<Rightarrow> pydict \<Rightarrow> error + plugin_definition" where
  "reparse sd_parse plugin_type pairs =
     (let kw = dict_merge [] pairs
      in case (map_of kw ''name'', map_of kw ''namespace'') of
           (Some (PStr name), Some (PStr nspace)) \<Rightarrow>
             (case variant_args (dict_get kw ''variants'' PNone) of
                Inl e \<Rightarrow> Inl e
              | Inr vargs \<Rightarrow>
                  PluginDefinition_init sd_parse plugin_type name nspace
                    (dict_get kw ''variant'' PNone) vargs
                    (filter (\<lambda>(k, _). k \<notin> set [''name'', ''namespace'', ''variant'', ''variants'']) kw))
         | _ \<Rightarrow> Inl TypeError)"

text \<open>
  The default of each parameter of \<open>Variant.__init__\<close> and of each presentation
  attribute, as a re-parse restores a field that was left out: \<open>[]\<close> for the three
  lists, None otherwise.
\<close>

definition attr_default :: "string \<Rightarrow> pyval" where
  "attr_default k =
     (if k \<in> set [''capabilities'', ''settings_group_validation'', ''settings''] then PList []
      else PNone)"

text \<open>
  The keys a flat manifest entry gives a meaning of its own: the attributes of the
  definition, the attributes of the variant with \<open>name\<close> written \<open>variant\<close>, and the
  parameters \<open>plugin_type\<close> and \<open>variants\<close>.
\<close>

definition reserved_keys :: "string list" where
  "reserved_keys =
     [''name'', ''namespace'', ''hidden'', ''label'', ''logo_url'', ''description'',
      ''variant'', ''original'', ''deprecated'', ''docs'', ''repo'', ''pip_url'', ''executable'',
      ''capabilities'', ''settings_group_validation'', ''settings'', ''plugin_type'', ''variants'']"

text \<open>
  The keys of a flat entry whose value decides whether the constructor accepts the entry
  and which name it gives the definition: the parameters \<open>plugin_type\<close>, \<open>name\<close>,
  \<open>namespace\<close> and \<open>variants\<close> of \<open>PluginDefinition.__init__\<close>, and the three
  parameters of \<open>Variant.__init__\<close> that go through \<open>list(...)\<close>.
\<close>

definition fragile_keys :: "string list" where
  "fragile_keys =
     [''plugin_type'', ''name'', ''namespace'', ''variants'',
      ''capabilities'', ''settings_group_validation'', ''settings'']"

section \<open>Properties of PluginType\<close>

lemma PluginType_members_complete: "t \<in> set PluginType_members"
  by (cases t) (simp_all add: PluginType_members_def)

lemma pt_value_inj: "pt_value t = pt_value u \<Longrightarrow> t = u"
  by (cases t; cases u) simp_all

lemma PluginType_of_value_member: "PluginType_of_value (pt_value t) = Inr t"
  by (cases t) (simp_all add: PluginType_of_value_def PluginType_members_def)

lemma PluginType_of_value_Inr: "PluginType_of_value v = Inr t \<longleftrightarrow> v = pt_value t"
proof
  assume "PluginType_of_value v = Inr t"
  then have "find (\<lambda>t. pt_value t = v) PluginType_members = Some t"
    by (auto simp: PluginType_of_value_def split: option.splits)
  then show "v = pt_value t"
    by (auto simp: find_Some_iff)
next
  assume "v = pt_value t"
  then show "PluginType_of_value v = Inr t"
    by (simp add: PluginType_of_value_member)
qed

lemma PluginType_of_value_unknown:
  "v \<notin> set (map pt_value PluginType_members) \<Longrightarrow> PluginType_of_value v = Inl (ValueError v)"
proof -
  assume a: "v \<notin> set (map pt_value PluginType_members)"
  have "find (\<lambda>t. pt_value t = v) PluginType_members = None"
    using a by (auto simp: find_None_iff)
  then show ?thesis
    by (simp add: PluginType_of_value_def)
qed

lemma cli_normalize_value: "cli_normalize (pt_value t) = pt_value t"
  by (cases t) (simp_all add: cli_normalize_def endswith_s_def)

lemma cli_normalize_singular: "cli_normalize (singular t) = pt_value t"
  by (cases t) (simp_all add: cli_normalize_def endswith_s_def singular_def)

section \<open>Properties of dictionaries\<close>

lemma map_of_dict_set_other:
  "k2 \<noteq> k \<Longrightarrow>
     map_of (map (\<lambda>(k', v'). if k' = k then (k', v) else (k', v')) d) k2 = map_of d k2"
  by (induction d) auto

lemma map_of_dict_set_same:
  "k \<in> fst ` set d \<Longrightarrow>
     map_of (map (\<lambda>(k', v'). if k' = k then (k', v) else (k', v')) d) k = Some v"
  by (induction d) auto

lemma map_of_dict_set: "map_of (dict_set d k v) = (map_of d)(k \<mapsto> v)"
proof (cases "k \<in> set (map fst d)")
  case True
  show ?thesis
  proof
    fix k2
    show "map_of (dict_set d k v) k2 = ((map_of d)(k \<mapsto> v)) k2"
      using True by (cases "k2 = k") (simp_all add: dict_set_def map_of_dict_set_other map_of_dict_set_same)
  qed
next
  case False
  then have "map_of d k = None" by (simp add: map_of_eq_None_iff)
  then show ?thesis using False
    by (auto simp: dict_set_def map_add_def fun_eq_iff split: option.splits)
qed

lemma keys_dict_set: "fst ` set (dict_set d k v) = insert k (fst ` set d)"
  by (auto simp: dict_set_def image_iff split: if_splits prod.splits) force+

lemma map_fst_dict_set_present:
  "k \<in> set (map fst d) \<Longrightarrow> map fst (dict_set d k v) = map fst d"
  by (induction d) (auto simp: dict_set_def split: if_splits)

lemma distinct_dict_set: "distinct (map fst d) \<Longrightarrow> distinct (map fst (dict_set d k v))"
proof (cases "k \<in> set (map fst d)")
  case True
  assume "distinct (map fst d)"
  then show ?thesis using True by (simp add: map_fst_dict_set_present)
next
  case False
  assume "distinct (map fst d)"
  then show ?thesis using False by (simp add: dict_set_def)
qed

lemma dict_get_dict_set: "dict_get (dict_set d k v) k dflt = v"
  by (simp add: dict_get_def map_of_dict_set)

lemma map_of_dict_merge:
  "distinct (map fst b) \<Longrightarrow> map_of (dict_merge a b) = map_of a ++ map_of b"
proof (induction b arbitrary: a)
  case Nil
  then show ?case by (simp add: dict_merge_def)
next
  case (Cons x b)
  obtain k v where x: "x = (k, v)" by (cases x)
  have "dict_merge a (x # b) = dict_merge (dict_set a k v) b"
    by (simp add: dict_merge_def x)
  moreover have d: "distinct (map fst b)" and nk: "map_of b k = None"
    using Cons.prems by (auto simp: x map_of_eq_None_iff)
  ultimately have "map_of (dict_merge a (x # b)) = map_of (dict_set a k v) ++ map_of b"
    by (simp add: Cons.IH)
  also have "\<dots> = (map_of a)(k \<mapsto> v) ++ map_of b"
    by (simp only: map_of_dict_set)
  also have "\<dots> = map_of a ++ map_of (x # b)"
    using nk by (auto simp: x map_add_def fun_eq_iff split: option.splits)
  finally show ?case .
qed

lemma keys_dict_merge: "fst ` set (dict_merge a b) = fst ` set a \<union> fst ` set b"
proof (induction b arbitrary: a)
  case Nil
  then show ?case by (simp add: dict_merge_def)
next
  case (Cons x b)
  obtain k v where x: "x = (k, v)" by (cases x)
  have "dict_merge a (x # b) = dict_merge (dict_set a k v) b"
    by (simp add: dict_merge_def x)
  then show ?case
    by (simp add: Cons.IH keys_dict_set x) 
qed

lemma distinct_dict_merge: "distinct (map fst a) \<Longrightarrow> distinct (map fst (dict_merge a b))"
proof (induction b arbitrary: a)
  case Nil
  then show ?case by (simp add: dict_merge_def)
next
  case (Cons x b)
  obtain k v where x: "x = (k, v)" by (cases x)
  have "dict_merge a (x # b) = dict_merge (dict_set a k v) b"
    by (simp add: dict_merge_def x)
  then show ?case
    using Cons.IH [of "dict_set a k v"] Cons.prems by (simp add: distinct_dict_set)
qed

lemma map_of_prefixed_defaults:
  "map_of (prefixed_defaults ex) (CHR ''_'' # k) = map_of ex k"
  by (induction ex) (auto simp: prefixed_defaults_def)

lemma map_of_prefixed_defaults_other:
  assumes "\<forall>k. n \<noteq> ''_'' @ k"
  shows "map_of (prefixed_defaults ex) n = None"
proof -
  have "n \<notin> fst ` set (prefixed_defaults ex)"
    using assms by (force simp: prefixed_defaults_def)
  then show ?thesis by (simp add: map_of_eq_None_iff)
qed

section \<open>Properties of SelectService.update\<close>

lemma target_extras_store_select:
  "target_extras (store_select s ps) = dict_set (target_extras s) ''select'' (PList ps)"
  by (simp add: store_select_def target_extras_def Let_def split: option.splits)

lemma persisted_store_select:
  "persisted (store_select s ps) =
     persisted s @ [case environment s of
                      None \<Rightarrow> Update_plugin (dict_set (target_extras s) ''select'' (PList ps))
                    | Some _ \<Rightarrow> Update_environment_plugin (dict_set (target_extras s) ''select'' (PList ps))]"
  by (simp add: store_select_def Let_def split: option.splits)

lemma select_after_store:
  "dict_get (target_extras (store_select s ps)) ''select'' dflt = PList ps"
  by (simp add: target_extras_store_select dict_get_dict_set)

lemma remove1_appended:
  "remove1 x (xs @ [x]) = (if x \<in> set xs then remove1 x xs @ [x] else xs)"
  by (induction xs) auto

lemma append_self_iff: "xs @ [p] = p # xs \<longleftrightarrow> (\<forall>y \<in> set xs. y = p)"
  by (induction xs) auto

lemma remove1_appended_same:
  "remove1 p (xs @ [p]) = xs \<longleftrightarrow> (\<forall>y \<in> set (dropWhile (\<lambda>y. y \<noteq> p) xs). y = p)"
proof (induction xs)
  case Nil
  then show ?case by simp
next
  case (Cons a xs)
  then show ?case by (auto simp: append_self_iff)
qed

lemma count_list_remove1_appended:
  "count_list (remove1 p (xs @ [p])) q = count_list xs q"
  by (induction xs) auto

lemma update_append:
  assumes "dict_get (target_extras s) ''select'' (PList []) = PList patterns"
  shows "update e a x False s
           = (store_select s (patterns @ [PStr (get_pattern_string e a x)]), None)"
  using assms by (simp add: update_def)

lemma update_remove_present:
  assumes "dict_get (target_extras s) ''select'' (PList []) = PList patterns"
      and "PStr (get_pattern_string e a x) \<in> set patterns"
  shows "update e a x True s
           = (store_select s (remove1 (PStr (get_pattern_string e a x)) patterns), None)"
  using assms by (simp add: update_def)

lemma update_remove_absent:
  assumes "dict_get (target_extras s) ''select'' (PList []) = PList patterns"
      and "PStr (get_pattern_string e a x) \<notin> set patterns"
  shows "update e a x True s = (s, Some (ValueError (get_pattern_string e a x)))"
  using assms by (simp add: update_def)

section \<open>Properties of the example objects and of extra_settings\<close>

lemma map_result_all_Inr:
  "(\<And>x. x \<in> set xs \<Longrightarrow> f x = Inr (g x)) \<Longrightarrow> map_result f xs = Inr (map g xs)"
  by (induction xs) simp_all

lemma Variant_named_init: "Variant_init sd_parse [(''name'', PStr n)] = Inr (Variant_named n)"
  by (simp add: Variant_init_def dict_get_def Variant_named_def Variant_params_def)

lemma PluginDefinition_of_init:
  "vs \<noteq> [] \<Longrightarrow>
   PluginDefinition_init sd_parse t n ns var (map VariantObj vs) [] = Inr (PluginDefinition_of t n ns vs)"
proof -
  assume "vs \<noteq> []"
  moreover have "map_result (Variant_parse sd_parse) (map VariantObj vs) = Inr vs"
    by (induction vs) simp_all
  ultimately show ?thesis
    by (simp add: PluginDefinition_init_def PluginDefinition_finish_def dict_pop_def dict_get_def
        PluginDefinition_of_def)
qed

lemma bind_default_name: "sd_name (bind_default d s) = sd_name s"
  by (simp add: bind_default_def with_attrs_value_def Let_def)

lemma bind_default_bound:
  "sd_name s = ''_'' @ k \<Longrightarrow> map_of ex k = Some v \<Longrightarrow> v \<noteq> PNone \<Longrightarrow>
     bind_default (prefixed_defaults ex) s = s\<lparr>sd_value := v\<rparr>"
  by (simp add: bind_default_def with_attrs_value_def Let_def dict_get_def map_of_prefixed_defaults)

lemma bind_default_unbound:
  assumes "\<And>k. sd_name s = ''_'' @ k \<Longrightarrow> map_of ex k = None \<or> map_of ex k = Some PNone"
  shows "bind_default (prefixed_defaults ex) s = s"
proof (cases "\<exists>k. sd_name s = ''_'' @ k")
  case True
  then obtain k where k: "sd_name s = ''_'' @ k" by blast
  from assms [OF k] show ?thesis
    by (auto simp: bind_default_def Let_def dict_get_def k map_of_prefixed_defaults)
next
  case False
  then have "map_of (prefixed_defaults ex) (sd_name s) = None"
    by (intro map_of_prefixed_defaults_other) simp
  then show ?thesis
    by (simp add: bind_default_def Let_def dict_get_def)
qed

section \<open>Properties of the variant lookup\<close>

lemma variant_label_typed:
  assumes "v_name v = PNone \<or> (\<exists>s. v_name v = PStr s)"
  shows "variant_label i v = Inr (PStr (annotated_name i v))"
  using assms by (auto simp: variant_label_def annotated_name_def Let_def)

lemma variant_labels_typed:
  assumes "\<forall>v \<in> set vs. v_name v = PNone \<or> (\<exists>s. v_name v = PStr s)"
  shows "variant_labels i vs acc
           = Inr (acc @ map (\<lambda>j. PStr (annotated_name (i + j) (vs ! j))) [0..<length vs])"
  using assms
proof (induction vs arbitrary: i acc)
  case Nil
  then show ?case by simp
next
  case (Cons v vs)
  have l: "variant_label i v = Inr (PStr (annotated_name i v))"
    using Cons.prems by (intro variant_label_typed) simp
  have ih: "variant_labels (Suc i) vs (acc @ [PStr (annotated_name i v)])
              = Inr ((acc @ [PStr (annotated_name i v)])
                     @ map (\<lambda>j. PStr (annotated_name (Suc i + j) (vs ! j))) [0..<length vs])"
    using Cons.prems by (intro Cons.IH) simp
  have m: "map (\<lambda>j. PStr (annotated_name (i + j) ((v # vs) ! j))) [0..<length (v # vs)]
             = PStr (annotated_name i v)
               # map (\<lambda>j. PStr (annotated_name (Suc i + j) (vs ! j))) [0..<length vs]"
  proof -
    have "[0..<length (v # vs)] = 0 # map Suc [0..<length vs]"
      by (simp add: upt_conv_Cons map_Suc_upt del: upt_Suc)
    then show ?thesis by (simp add: comp_def del: upt_Suc)
  qed
  show ?case
    by (simp only: variant_labels.simps l sum.case ih m) simp
qed

lemma py_join_strings: "py_join sep (map PStr xs) = Inr (join sep xs)"
proof -
  have "those (map as_str (map PStr xs)) = Some xs"
    by (induction xs) simp_all
  then show ?thesis by (simp add: py_join_def)
qed

lemma list_variant_names_typed:
  assumes "\<forall>v \<in> set (variants d). v_name v = PNone \<or> (\<exists>s. v_name v = PStr s)"
  shows "list_variant_names d
           = Inr (join '', '' (map (\<lambda>j. annotated_name j (variants d ! j)) [0..<length (variants d)]))"
proof -
  have "variant_labels 0 (variants d) []
          = Inr (map PStr (map (\<lambda>j. annotated_name j (variants d ! j)) [0..<length (variants d)]))"
    using variant_labels_typed [OF assms, of 0 "[]"] by (simp add: comp_def)
  then show ?thesis
    by (simp only: list_variant_names_def sum.case py_join_strings)
qed

lemma find_named_absent:
  "\<forall>v \<in> set vs. v_name v \<noteq> PStr n \<Longrightarrow> find_named vs n = Inl (NotFound n)"
proof -
  assume "\<forall>v \<in> set vs. v_name v \<noteq> PStr n"
  then have "find (\<lambda>x. v_name x = PStr n) vs = None"
    by (simp add: find_None_iff)
  then show ?thesis by (simp add: find_named_def)
qed

lemma find_named_present:
  assumes "i < length vs" "v_name (vs ! i) = PStr n" "\<forall>j < i. v_name (vs ! j) \<noteq> PStr n"
  shows "find_named vs n = Inr (vs ! i)"
proof -
  have "find (\<lambda>x. v_name x = PStr n) vs = Some (vs ! i)"
    using assms by (auto simp: find_Some_iff)
  then show ?thesis by (simp add: find_named_def)
qed

lemma get_variant_absent:
  "\<forall>v \<in> set (variants d). v_name v \<noteq> PStr n \<Longrightarrow>
     get_variant d n = Inl (VariantNotFoundError_init d n)"
  by (simp add: get_variant_def find_named_absent)

lemma get_variant_present:
  assumes "i < length (variants d)" "v_name (variants d ! i) = PStr n"
    "\<forall>j < i. v_name (variants d ! j) \<noteq> PStr n"
  shows "get_variant d n = Inr (variants d ! i)"
  using find_named_present [OF assms] by (simp add: get_variant_def)

lemma first_variant_hd: "variants d \<noteq> [] \<Longrightarrow> first_variant d = Inr (hd (variants d))"
  by (cases "variants d") (simp_all add: first_variant_def)

lemma capitalize_descriptor:
  "capitalize (descriptor t) =
     (case t of
        EXTRACTORS \<Rightarrow> ''Extractor'' | LOADERS \<Rightarrow> ''Loader'' | TRANSFORMS \<Rightarrow> ''Transform''
      | MODELS \<Rightarrow> ''Model'' | DASHBOARDS \<Rightarrow> ''Dashboard'' | ORCHESTRATORS \<Rightarrow> ''Orchestrator''
      | TRANSFORMERS \<Rightarrow> ''Transformer'' | FILES \<Rightarrow> ''File bundle'')"
  by (cases t) (simp_all add: descriptor_def singular_def ascii_upper_def ascii_lower_def)

lemma find_first_index:
  "find P xs = Some x \<Longrightarrow> \<exists>i < length xs. P (xs ! i) \<and> x = xs ! i \<and> (\<forall>j < i. \<not> P (xs ! j))"
  by (auto simp: find_Some_iff)

section \<open>Properties of the constructor\<close>

lemma dict_merge_fresh:
  "distinct (map fst (a @ b)) \<Longrightarrow> dict_merge a b = a @ b"
proof (induction b arbitrary: a)
  case Nil
  then show ?case by (simp add: dict_merge_def)
next
  case (Cons x b)
  obtain k v where x: "x = (k, v)" by (cases x)
  have s: "dict_set a k v = a @ [(k, v)]"
    using Cons.prems by (auto simp: dict_set_def x)
  have "dict_merge a (x # b) = dict_merge (a @ [(k, v)]) b"
    by (simp add: dict_merge_def x s)
  also have "\<dots> = (a @ [(k, v)]) @ b"
    using Cons.prems by (intro Cons.IH) (auto simp: x)
  finally show ?case by (simp add: x)
qed

lemma dict_of_pairs_distinct: "distinct (map fst kw) \<Longrightarrow> dict_merge [] kw = kw"
  using dict_merge_fresh [of "[]" kw] by simp

lemma map_of_filter_keys:
  "map_of (filter (\<lambda>(k, _). Q k) kw) k = (if Q k then map_of kw k else None)"
  by (induction kw) auto

lemma dict_get_filter_keys:
  "Q k \<Longrightarrow> dict_get (filter (\<lambda>(k, _). Q k) kw) k dflt = dict_get kw k dflt"
  by (simp add: dict_get_def map_of_filter_keys)

lemma map_of_filter_entry:
  "distinct (map fst fs) \<Longrightarrow> (k, x) \<in> set fs \<Longrightarrow>
     map_of (filter P fs) k = (if P (k, x) then Some x else None)"
proof (induction fs)
  case Nil
  then show ?case by simp
next
  case (Cons f fs)
  then show ?case by (cases f) (force simp: map_of_eq_None_iff image_iff)
qed

lemma Variant_init_lists:
  assumes "py_list (dict_get kw ''capabilities'' (PList [])) = Inr caps"
      and "py_list (dict_get kw ''settings_group_validation'' (PList [])) = Inr sgv"
      and "py_list (dict_get kw ''settings'' (PList [])) = Inr raw"
      and "map_result sd_parse raw = Inr ss"
  shows "Variant_init sd_parse kw =
          Inr \<lparr> v_name = dict_get kw ''name'' PNone,
                original = dict_get kw ''original'' PNone,
                deprecated = dict_get kw ''deprecated'' PNone,
                docs = dict_get kw ''docs'' PNone,
                repo = dict_get kw ''repo'' PNone,
                pip_url = dict_get kw ''pip_url'' PNone,
                executable = dict_get kw ''executable'' PNone,
                capabilities = caps,
                settings_group_validation = sgv,
                settings = ss,
                v_extras = filter (\<lambda>(k, _). k \<notin> set Variant_params) kw \<rparr>"
  using assms by (simp add: Variant_init_def)

lemma dict_get_Cons_other: "k \<noteq> k' \<Longrightarrow> dict_get ((k', x) # kw) k dflt = dict_get kw k dflt"
  by (simp add: dict_get_def)

lemma dict_get_Cons_same: "dict_get ((k, x) # kw) k dflt = x"
  by (simp add: dict_get_def)

lemma finish_pops:
  "PluginDefinition_finish sd_parse t n ns kw [VariantObj v] =
     Inr \<lparr> pd_type = t, pd_name = n, namespace = ns,
           hidden = dict_get kw ''hidden'' PNone, label = dict_get kw ''label'' PNone,
           logo_url = dict_get kw ''logo_url'' PNone,
           description = dict_get kw ''description'' PNone,
           pd_extras = filter (\<lambda>(k, _). k \<notin> set presentation_attrs) kw,
           variants = [v] \<rparr>"
proof -
  have e: "filter (\<lambda>(k', _). k' \<noteq> ''description'')
             (filter (\<lambda>(k', _). k' \<noteq> ''logo_url'')
               (filter (\<lambda>(k', _). k' \<noteq> ''label'') (filter (\<lambda>(k', _). k' \<noteq> ''hidden'') kw)))
           = filter (\<lambda>(k, _). k \<notin> set presentation_attrs) kw"
    by (induction kw) (auto simp: presentation_attrs_def)
  have l: "dict_get (filter (\<lambda>(k', _). k' \<noteq> ''hidden'') kw) ''label'' PNone = dict_get kw ''label'' PNone"
    by (simp add: dict_get_filter_keys del: filter_filter)
  have u: "dict_get (filter (\<lambda>(k', _). k' \<noteq> ''label'') (filter (\<lambda>(k', _). k' \<noteq> ''hidden'') kw))
             ''logo_url'' PNone = dict_get kw ''logo_url'' PNone"
    by (simp add: dict_get_filter_keys del: filter_filter)
  have de: "dict_get (filter (\<lambda>(k', _). k' \<noteq> ''logo_url'')
               (filter (\<lambda>(k', _). k' \<noteq> ''label'') (filter (\<lambda>(k', _). k' \<noteq> ''hidden'') kw)))
             ''description'' PNone = dict_get kw ''description'' PNone"
    by (simp add: dict_get_filter_keys del: filter_filter)
  show ?thesis
    unfolding PluginDefinition_finish_def dict_pop_def Let_def prod.case
    by (simp only: l u de e map_result.simps Variant_parse.simps sum.case)
qed

lemma PluginDefinition_init_flat:
  assumes "\<forall>k \<in> fst ` set kw. k \<notin> set PluginDefinition_params"
      and "py_list (dict_get kw ''capabilities'' (PList [])) = Inr caps"
      and "py_list (dict_get kw ''settings_group_validation'' (PList [])) = Inr sgv"
      and "py_list (dict_get kw ''settings'' (PList [])) = Inr raw"
      and "map_result sd_parse raw = Inr ss"
  shows "PluginDefinition_init sd_parse t n ns var [] kw =
          Inr \<lparr> pd_type = t, pd_name = n, namespace = ns,
                hidden = dict_get kw ''hidden'' PNone, label = dict_get kw ''label'' PNone,
                logo_url = dict_get kw ''logo_url'' PNone,
                description = dict_get kw ''description'' PNone,
                pd_extras =
                  filter (\<lambda>(k, _). k \<notin> set Variant_params \<and> k \<notin> set presentation_attrs) kw,
                variants =
                  [\<lparr> v_name = var,
                     original = dict_get kw ''original'' PNone,
                     deprecated = dict_get kw ''deprecated'' PNone,
                     docs = dict_get kw ''docs'' PNone,
                     repo = dict_get kw ''repo'' PNone,
                     pip_url = dict_get kw ''pip_url'' PNone,
                     executable = dict_get kw ''executable'' PNone,
                     capabilities = caps,
                     settings_group_validation = sgv,
                     settings = ss,
                     v_extras = [] \<rparr>] \<rparr>"
proof -
  let ?kw = "(''name'', var) # kw"
  let ?ve = "filter (\<lambda>(k, _). k \<notin> set Variant_params) kw"
  have vi: "Variant_init sd_parse ?kw =
          Inr \<lparr> v_name = var,
                original = dict_get kw ''original'' PNone,
                deprecated = dict_get kw ''deprecated'' PNone,
                docs = dict_get kw ''docs'' PNone,
                repo = dict_get kw ''repo'' PNone,
                pip_url = dict_get kw ''pip_url'' PNone,
                executable = dict_get kw ''executable'' PNone,
                capabilities = caps,
                settings_group_validation = sgv,
                settings = ss,
                v_extras = ?ve \<rparr>"
    using assms(2-5)
    by (subst Variant_init_lists [of ?kw caps sgv raw sd_parse ss])
       (simp_all add: dict_get_Cons_other dict_get_Cons_same Variant_params_def)
  have nk: "\<not> (\<exists>k \<in> set (map fst kw). k \<in> set PluginDefinition_params)"
    using assms(1) by auto
  have g: "\<And>k. k \<notin> set Variant_params \<Longrightarrow> dict_get ?ve k PNone = dict_get kw k PNone"
    by (simp add: dict_get_def map_of_filter_keys)
  have f: "filter (\<lambda>(k, _). k \<notin> set presentation_attrs) ?ve
             = filter (\<lambda>(k, _). k \<notin> set Variant_params \<and> k \<notin> set presentation_attrs) kw"
    by (induction kw) auto
  have gs: "dict_get ?ve ''hidden'' PNone = dict_get kw ''hidden'' PNone"
    "dict_get ?ve ''label'' PNone = dict_get kw ''label'' PNone"
    "dict_get ?ve ''logo_url'' PNone = dict_get kw ''logo_url'' PNone"
    "dict_get ?ve ''description'' PNone = dict_get kw ''description'' PNone"
    by (rule g, simp add: Variant_params_def)+
  show ?thesis
    unfolding PluginDefinition_init_def
    by (simp only: nk if_False if_True vi sum.case finish_pops f variant.simps
        variant.update_convs gs simp_thms)
qed

section \<open>Properties of iteration and re-parsing\<close>

lemma PluginDefinition_iter_append:
  "PluginDefinition_iter vi (xs @ ys) = PluginDefinition_iter vi xs @ PluginDefinition_iter vi ys"
  by (induction xs) (auto split: item.splits)

lemma PluginDefinition_iter_plain:
  "PluginDefinition_iter vi (map (\<lambda>(k, x). (k, Val x)) kw) = map (\<lambda>(k, x). (k, Val x)) kw"
  by (induction kw) auto

lemma PluginDefinition_iter_nested:
  "\<forall>vs. (''variants'', Variants vs) \<in> set xs \<longrightarrow> length vs \<noteq> 1 \<Longrightarrow>
     PluginDefinition_iter vi xs = xs"
proof (induction xs)
  case Nil
  then show ?case by simp
next
  case (Cons a xs)
  obtain k v where a: "a = (k, v)" by (cases a)
  have "PluginDefinition_iter vi xs = xs" using Cons by auto
  moreover have "(case v of
        Variants vs \<Rightarrow>
          if k = ''variants'' \<and> length vs = 1
          then map (\<lambda>(variant_k, variant_v).
                      (if variant_k = ''name'' then ''variant'' else variant_k, Val variant_v))
                 (vi (vs ! 0))
          else [(k, v)]
      | Val _ \<Rightarrow> [(k, v)]) = [(k, v)]"
    using Cons.prems by (cases v) (auto simp: a)
  ultimately show ?case by (simp add: a)
qed

lemma PluginDefinition_iter_inlined:
  "PluginDefinition_iter vi (pre @ (''variants'', Variants [v]) # post)
     = PluginDefinition_iter vi pre
       @ map (\<lambda>(k, x). (if k = ''name'' then ''variant'' else k, Val x)) (vi v)
       @ PluginDefinition_iter vi post"
  by (simp add: PluginDefinition_iter_append)

lemma serialize_cases:
  "serialize omit d =
     map (\<lambda>(k, x). (k, Val x))
       (filter (\<lambda>(k, x). \<not> omit k x) (PluginDefinition_attrs d) @ pd_extras d)
     @ (if length (variants d) = 1
        then map (\<lambda>(k, x). (if k = ''name'' then ''variant'' else k, Val x))
               (Variant_iter omit (variants d ! 0))
        else [(''variants'', Variants (variants d))])"
  unfolding serialize_def Canonical_iter_def PluginDefinition_iter_append PluginDefinition_iter_plain
  by simp

lemma lookup_in_parts:
  assumes "distinct (map fst B)" "(k, x) \<in> set B" "k \<notin> fst ` set pre" "k \<notin> fst ` set post"
  shows "map_of (pre @ filter P B @ post) k = (if P (k, x) then Some x else None)"
proof -
  have a: "map_of pre k = None" and b: "map_of post k = None"
    using assms(3,4) by (simp_all add: map_of_eq_None_iff)
  have c: "map_of (filter P B) k = (if P (k, x) then Some x else None)"
    using assms(1,2) by (rule map_of_filter_entry)
  show ?thesis
    by (simp add: map_add_def a b c)
qed

lemma filter_keys_all: "\<forall>k \<in> fst ` set X. Q k \<Longrightarrow> filter (\<lambda>(k, _). Q k) X = X"
  by (induction X) auto

lemma filter_keys_none: "\<forall>k \<in> fst ` set X. \<not> Q k \<Longrightarrow> filter (\<lambda>(k, _). Q k) X = []"
  by (induction X) auto

lemma rename_filter_Variant_attrs:
  "map (\<lambda>(k, x). (if k = ''name'' then ''variant'' else k, x))
       (filter (\<lambda>(k, x). \<not> omit k x) (Variant_attrs v))
     = filter (\<lambda>(k, x). \<not> omit (if k = ''variant'' then ''name'' else k) x)
         (map (\<lambda>(k, x). (if k = ''name'' then ''variant'' else k, x)) (Variant_attrs v))"
proof -
  have "filter ((\<lambda>(k, x). \<not> omit (if k = ''variant'' then ''name'' else k) x)
                 \<circ> (\<lambda>(k, x). (if k = ''name'' then ''variant'' else k, x))) (Variant_attrs v)
          = filter (\<lambda>(k, x). \<not> omit k x) (Variant_attrs v)"
    by (rule filter_cong) (auto simp: Variant_attrs_def)
  then show ?thesis by (simp only: filter_map)
qed

lemma filter_keys_twice:
  "filter (\<lambda>(k, _). Q1 k) (filter (\<lambda>(k, _). Q2 k) K) = filter (\<lambda>(k, _). Q2 k \<and> Q1 k) K"
  by (induction K) auto

lemma keys_filter_subset: "fst ` set (filter P B) \<subseteq> fst ` set B"
  by auto

lemma dict_get_absent:
  assumes "k \<notin> fst ` set K"
  shows "dict_get K k dflt = dflt"
proof -
  have "map_of K k = None" using assms by (simp add: map_of_eq_None_iff)
  then show ?thesis by (simp add: dict_get_def)
qed

lemma record_rebuild:
  "\<lparr> pd_type = pd_type d, pd_name = pd_name d, namespace = namespace d,
     hidden = hidden d, label = label d, logo_url = logo_url d, description = description d,
     pd_extras = ex,
     variants =
       [\<lparr> v_name = v_name v, original = original v, deprecated = deprecated v, docs = docs v,
          repo = repo v, pip_url = pip_url v, executable = executable v,
          capabilities = capabilities v,
          settings_group_validation = settings_group_validation v,
          settings = settings v, v_extras = [] \<rparr>] \<rparr>
   = d\<lparr>pd_extras := ex, variants := [v\<lparr>v_extras := []\<rparr>]\<rparr>"
  by (cases d, cases v) simp

lemma reparse_single_variant:
  fixes d :: plugin_definition and v :: variant
  assumes dk: "distinct (map fst (pd_extras d @ v_extras v))"
    and rk: "\<forall>k \<in> fst ` set (pd_extras d @ v_extras v). k \<notin> set reserved_keys"
    and sp: "\<forall>s \<in> set (settings v). sd_parse s = Inr s"
    and od: "\<forall>(k, x) \<in> set (PluginDefinition_attrs d). omit k x \<longrightarrow> x = attr_default k"
    and ov: "\<forall>(k, x) \<in> set (Variant_attrs v). omit k x \<longrightarrow> x = attr_default k"
  shows "reparse sd_parse (pd_type d)
           (filter (\<lambda>(k, x). \<not> omit k x) (PluginDefinition_attrs d) @ pd_extras d
            @ map (\<lambda>(k, x). (if k = ''name'' then ''variant'' else k, x)) (Variant_iter omit v))
         = Inr (d\<lparr>pd_extras := pd_extras d @ v_extras v, variants := [v\<lparr>v_extras := []\<rparr>]\<rparr>)"
proof -
  define P :: "string \<times> pyval \<Rightarrow> bool" where "P = (\<lambda>(k, x). \<not> omit k x)"
  define P2 :: "string \<times> pyval \<Rightarrow> bool"
    where "P2 = (\<lambda>(k, x). \<not> omit (if k = ''variant'' then ''name'' else k) x)"
  define rn :: "string \<times> pyval \<Rightarrow> string \<times> pyval"
    where "rn = (\<lambda>(k, x). (if k = ''name'' then ''variant'' else k, x))"
  define A where "A = PluginDefinition_attrs d"
  define RA where "RA = map rn (Variant_attrs v)"
  define E where "E = pd_extras d"
  define VE where "VE = v_extras v"
  define FA where "FA = filter P A"
  define R where "R = filter P2 RA"
  define K where "K = FA @ E @ R @ VE"

  have kA: "map fst A = [''name'', ''namespace'', ''hidden'', ''label'', ''logo_url'', ''description'']"
    by (simp add: A_def PluginDefinition_attrs_def)
  have kRA: "map fst RA = [''variant'', ''original'', ''deprecated'', ''docs'', ''repo'', ''pip_url'',
      ''executable'', ''capabilities'', ''settings_group_validation'', ''settings'']"
    by (simp add: RA_def rn_def Variant_attrs_def)
  have sA: "fst ` set A = set [''name'', ''namespace'', ''hidden'', ''label'', ''logo_url'', ''description'']"
    using kA by (metis set_map)
  have sRA: "fst ` set RA = set [''variant'', ''original'', ''deprecated'', ''docs'', ''repo'', ''pip_url'',
      ''executable'', ''capabilities'', ''settings_group_validation'', ''settings'']"
    using kRA by (metis set_map)
  have dA: "distinct (map fst A)" unfolding kA by simp
  have dRA: "distinct (map fst RA)" unfolding kRA by simp
  have A_res: "fst ` set A \<subseteq> set reserved_keys"
    unfolding sA by (simp add: reserved_keys_def)
  have RA_res: "fst ` set RA \<subseteq> set reserved_keys"
    unfolding sRA by (simp add: reserved_keys_def)
  have A_RA: "fst ` set A \<inter> fst ` set RA = {}"
    unfolding sA sRA by simp
  have FA_sub: "fst ` set FA \<subseteq> fst ` set A" and R_sub: "fst ` set R \<subseteq> fst ` set RA"
    unfolding FA_def R_def by (rule keys_filter_subset)+
  have E_res: "fst ` set E \<inter> set reserved_keys = {}" and VE_res: "fst ` set VE \<inter> set reserved_keys = {}"
    using rk unfolding E_def VE_def by auto
  have dE: "distinct (map fst E)" and dVE: "distinct (map fst VE)"
    and E_VE: "fst ` set E \<inter> fst ` set VE = {}"
    using dk unfolding E_def VE_def by auto
  have dFA: "distinct (map fst FA)" unfolding FA_def using dA by (rule distinct_map_filter)
  have dR: "distinct (map fst R)" unfolding R_def using dRA by (rule distinct_map_filter)

  have dK: "distinct (map fst K)"
  proof -
    have 1: "fst ` set FA \<inter> fst ` set E = {}" using FA_sub A_res E_res by blast
    have 2: "fst ` set FA \<inter> fst ` set R = {}" using FA_sub R_sub A_RA by blast
    have 3: "fst ` set FA \<inter> fst ` set VE = {}" using FA_sub A_res VE_res by blast
    have 4: "fst ` set E \<inter> fst ` set R = {}" using R_sub RA_res E_res by blast
    have 5: "fst ` set R \<inter> fst ` set VE = {}" using R_sub RA_res VE_res by blast
    show ?thesis
      unfolding K_def using dFA dE dR dVE 1 2 3 4 5 E_VE
      by (simp add: Int_Un_distrib Int_Un_distrib2 Int_commute)
  qed

  have flat: "filter (\<lambda>(k, x). \<not> omit k x) (PluginDefinition_attrs d) @ pd_extras d
            @ map (\<lambda>(k, x). (if k = ''name'' then ''variant'' else k, x)) (Variant_iter omit v) = K"
  proof -
    have "''name'' \<notin> fst ` set VE"
      using VE_res by (auto simp: reserved_keys_def)
    then have "map rn VE = VE"
      unfolding rn_def by (induction VE) auto
    moreover have "map rn (filter P (Variant_attrs v)) = R"
      unfolding R_def RA_def rn_def P_def P2_def by (rule rename_filter_Variant_attrs)
    ultimately show ?thesis
      unfolding K_def FA_def E_def A_def Variant_iter_def P_def [symmetric] rn_def [symmetric] VE_def [symmetric]
      by simp
  qed

  have LA: "map_of K k = (if P (k, x) then Some x else None)" if "(k, x) \<in> set A" for k x
  proof -
    have kin: "k \<in> fst ` set A" using that by force
    have "k \<notin> fst ` set E" using kin A_res E_res by blast
    moreover have "k \<notin> fst ` set R" using kin R_sub A_RA by blast
    moreover have "k \<notin> fst ` set VE" using kin A_res VE_res by blast
    ultimately have "k \<notin> fst ` set (E @ R @ VE)" by (simp add: image_Un)
    then show ?thesis
      using lookup_in_parts [OF dA that, of "[]" "E @ R @ VE" P]
      unfolding K_def FA_def by simp
  qed
  have LR: "map_of K k = (if P2 (k, x) then Some x else None)" if "(k, x) \<in> set RA" for k x
  proof -
    have kin: "k \<in> fst ` set RA" using that by force
    have "k \<notin> fst ` set FA" using kin FA_sub A_RA by blast
    moreover have "k \<notin> fst ` set E" using kin RA_res E_res by blast
    ultimately have 1: "k \<notin> fst ` set (FA @ E)" by (simp add: image_Un)
    have 2: "k \<notin> fst ` set VE"
      using kin RA_res VE_res by blast
    show ?thesis
      using lookup_in_parts [OF dRA that 1 2, of P2]
      unfolding K_def R_def by simp
  qed
  have GA: "dict_get K k (attr_default k) = x" if "(k, x) \<in> set A" for k x
  proof -
    have "\<not> P (k, x) \<longrightarrow> x = attr_default k"
      using od that unfolding A_def P_def by auto
    then show ?thesis
      by (auto simp: dict_get_def LA [OF that])
  qed
  have ov2: "\<not> P2 (k, x) \<longrightarrow> x = attr_default (if k = ''variant'' then ''name'' else k)"
    if "(k, x) \<in> set RA" for k x
  proof -
    from that obtain k0 where k0: "(k0, x) \<in> set (Variant_attrs v)"
      and k: "k = (if k0 = ''name'' then ''variant'' else k0)"
      unfolding RA_def rn_def by auto
    have "k0 \<noteq> ''variant''" using k0 by (auto simp: Variant_attrs_def)
    then have "(if k = ''variant'' then ''name'' else k) = k0" using k by auto
    then show ?thesis
      using ov k0 unfolding P2_def by auto
  qed
  have GR: "dict_get K k (attr_default (if k = ''variant'' then ''name'' else k)) = x"
    if "(k, x) \<in> set RA" for k x
    using ov2 [OF that] by (auto simp: dict_get_def LR [OF that])

  have mA: "(''name'', PStr (pd_name d)) \<in> set A" "(''namespace'', PStr (namespace d)) \<in> set A"
    "(''hidden'', hidden d) \<in> set A" "(''label'', label d) \<in> set A"
    "(''logo_url'', logo_url d) \<in> set A" "(''description'', description d) \<in> set A"
    by (simp_all add: A_def PluginDefinition_attrs_def)
  have mR: "(''variant'', v_name v) \<in> set RA" "(''original'', original v) \<in> set RA"
    "(''deprecated'', deprecated v) \<in> set RA" "(''docs'', docs v) \<in> set RA"
    "(''repo'', repo v) \<in> set RA" "(''pip_url'', pip_url v) \<in> set RA"
    "(''executable'', executable v) \<in> set RA"
    "(''capabilities'', PList (capabilities v)) \<in> set RA"
    "(''settings_group_validation'', PList (settings_group_validation v)) \<in> set RA"
    "(''settings'', PList (settings v)) \<in> set RA"
    by (simp_all add: RA_def rn_def Variant_attrs_def)

  have name: "map_of K ''name'' = Some (PStr (pd_name d))"
  proof -
    have "\<not> omit ''name'' (PStr (pd_name d))"
      using od by (auto simp: PluginDefinition_attrs_def attr_default_def)
    then show ?thesis using LA [OF mA(1)] by (simp add: P_def)
  qed
  have nspace: "map_of K ''namespace'' = Some (PStr (namespace d))"
  proof -
    have "\<not> omit ''namespace'' (PStr (namespace d))"
      using od by (auto simp: PluginDefinition_attrs_def attr_default_def)
    then show ?thesis using LA [OF mA(2)] by (simp add: P_def)
  qed
  have gA: "dict_get K ''hidden'' PNone = hidden d" "dict_get K ''label'' PNone = label d"
    "dict_get K ''logo_url'' PNone = logo_url d" "dict_get K ''description'' PNone = description d"
    using GA [OF mA(3)] GA [OF mA(4)] GA [OF mA(5)] GA [OF mA(6)]
    by (simp_all add: attr_default_def)
  have gR: "dict_get K ''variant'' PNone = v_name v" "dict_get K ''original'' PNone = original v"
    "dict_get K ''deprecated'' PNone = deprecated v" "dict_get K ''docs'' PNone = docs v"
    "dict_get K ''repo'' PNone = repo v" "dict_get K ''pip_url'' PNone = pip_url v"
    "dict_get K ''executable'' PNone = executable v"
    "dict_get K ''capabilities'' (PList []) = PList (capabilities v)"
    "dict_get K ''settings_group_validation'' (PList []) = PList (settings_group_validation v)"
    "dict_get K ''settings'' (PList []) = PList (settings v)"
    using GR [OF mR(1)] GR [OF mR(2)] GR [OF mR(3)] GR [OF mR(4)] GR [OF mR(5)] GR [OF mR(6)]
      GR [OF mR(7)] GR [OF mR(8)] GR [OF mR(9)] GR [OF mR(10)]
    by (simp_all add: attr_default_def)

  have keysK: "fst ` set K \<subseteq> fst ` set A \<union> fst ` set E \<union> fst ` set RA \<union> fst ` set VE"
    unfolding K_def using FA_sub R_sub by auto
  have no_variants: "''variants'' \<notin> fst ` set K" and no_type: "''plugin_type'' \<notin> fst ` set K"
  proof -
    have "''variants'' \<in> set reserved_keys" "''plugin_type'' \<in> set reserved_keys"
      by (simp_all add: reserved_keys_def)
    moreover have "''variants'' \<notin> fst ` set A \<union> fst ` set RA"
      "''plugin_type'' \<notin> fst ` set A \<union> fst ` set RA"
      unfolding sA sRA by simp_all
    ultimately show "''variants'' \<notin> fst ` set K" "''plugin_type'' \<notin> fst ` set K"
      using keysK E_res VE_res by blast+
  qed

  define Q4 :: "string \<Rightarrow> bool"
    where "Q4 = (\<lambda>k. k \<notin> set [''name'', ''namespace'', ''variant'', ''variants''])"
  define X where "X = filter (\<lambda>(k, _). Q4 k) K"
  have gX: "dict_get X k dflt = dict_get K k dflt" if "Q4 k" for k dflt
    unfolding X_def using that by (rule dict_get_filter_keys)
  have q4: "Q4 ''hidden''" "Q4 ''label''" "Q4 ''logo_url''" "Q4 ''description''"
    "Q4 ''original''" "Q4 ''deprecated''" "Q4 ''docs''" "Q4 ''repo''" "Q4 ''pip_url''"
    "Q4 ''executable''" "Q4 ''capabilities''" "Q4 ''settings_group_validation''" "Q4 ''settings''"
    by (simp_all add: Q4_def)
  have keysX: "\<forall>k \<in> fst ` set X. k \<notin> set PluginDefinition_params"
  proof
    fix k assume "k \<in> fst ` set X"
    then have "k \<in> fst ` set K" and "Q4 k" unfolding X_def by auto
    then have "k \<noteq> ''plugin_type''" and "Q4 k" using no_type by blast+
    then show "k \<notin> set PluginDefinition_params"
      by (simp add: PluginDefinition_params_def Q4_def)
  qed
  have c1: "py_list (dict_get X ''capabilities'' (PList [])) = Inr (capabilities v)"
    and c2: "py_list (dict_get X ''settings_group_validation'' (PList []))
               = Inr (settings_group_validation v)"
    and c3: "py_list (dict_get X ''settings'' (PList [])) = Inr (settings v)"
    by (simp_all add: gX q4 gR)
  have c4: "map_result sd_parse (settings v) = Inr (settings v)"
    using map_result_all_Inr [of "settings v" sd_parse "\<lambda>s. s"] sp by simp

  have ex: "filter (\<lambda>(k, _). k \<notin> set Variant_params \<and> k \<notin> set presentation_attrs) X = E @ VE"
  proof -
    define Q where "Q = (\<lambda>k. Q4 k \<and> k \<notin> set Variant_params \<and> k \<notin> set presentation_attrs)"
    have f: "filter (\<lambda>(k, _). k \<notin> set Variant_params \<and> k \<notin> set presentation_attrs) X
               = filter (\<lambda>(k, _). Q k) K"
      unfolding X_def Q_def by (rule filter_keys_twice)
    have notQ: "\<not> Q k" if "k \<in> fst ` set A \<union> fst ` set RA" for k
      using that unfolding sA sRA Q_def Q4_def
      by (auto simp: Variant_params_def presentation_attrs_def)
    have isQ: "Q k" if "k \<notin> set reserved_keys" for k
      using that unfolding Q_def Q4_def
      by (auto simp: Variant_params_def presentation_attrs_def reserved_keys_def)
    have "filter (\<lambda>(k, _). Q k) FA = []"
      using notQ FA_sub by (intro filter_keys_none) blast
    moreover have "filter (\<lambda>(k, _). Q k) R = []"
      using notQ R_sub by (intro filter_keys_none) blast
    moreover have "filter (\<lambda>(k, _). Q k) E = E"
      using isQ E_res by (intro filter_keys_all) blast
    moreover have "filter (\<lambda>(k, _). Q k) VE = VE"
      using isQ VE_res by (intro filter_keys_all) blast
    ultimately show ?thesis
      unfolding f K_def by simp
  qed

  have init: "PluginDefinition_init sd_parse (pd_type d) (pd_name d) (namespace d) (v_name v) [] X
                = Inr (d\<lparr>pd_extras := E @ VE, variants := [v\<lparr>v_extras := []\<rparr>]\<rparr>)"
    unfolding PluginDefinition_init_flat [OF keysX c1 c2 c3 c4] ex
    by (simp only: gX q4 gA gR record_rebuild)

  have dm: "dict_merge [] K = K"
    using dK by (rule dict_of_pairs_distinct)
  have va: "variant_args (dict_get K ''variants'' PNone) = Inr []"
    using dict_get_absent [OF no_variants, of PNone] by simp
  show ?thesis
    unfolding flat reparse_def dm Let_def name nspace va gR(1)
    using init unfolding X_def Q4_def E_def VE_def
    by simp
qed

lemma map_result_sources:
  "map_result f xs = Inr ys \<Longrightarrow> \<forall>y \<in> set ys. \<exists>x \<in> set xs. f x = Inr y"
proof (induction xs arbitrary: ys)
  case Nil
  then show ?case by simp
next
  case (Cons x xs)
  then show ?case by (auto split: sum.splits)
qed

lemma flat_init_succeeded:
  assumes "PluginDefinition_init sd_parse t n ns var [] kw = Inr d"
  shows "\<exists>caps sgv raw ss.
           (\<forall>k \<in> fst ` set kw. k \<notin> set PluginDefinition_params) \<and>
           py_list (dict_get kw ''capabilities'' (PList [])) = Inr caps \<and>
           py_list (dict_get kw ''settings_group_validation'' (PList [])) = Inr sgv \<and>
           py_list (dict_get kw ''settings'' (PList [])) = Inr raw \<and>
           map_result sd_parse raw = Inr ss"
proof -
  let ?kw = "(''name'', var) # kw"
  have g: "dict_get ?kw ''capabilities'' (PList []) = dict_get kw ''capabilities'' (PList [])"
    "dict_get ?kw ''settings_group_validation'' (PList []) = dict_get kw ''settings_group_validation'' (PList [])"
    "dict_get ?kw ''settings'' (PList []) = dict_get kw ''settings'' (PList [])"
    by (simp_all add: dict_get_Cons_other)
  have keys: "\<forall>k \<in> fst ` set kw. k \<notin> set PluginDefinition_params"
    using assms by (auto simp: PluginDefinition_init_def split: if_splits)
  then have nk: "\<not> (\<exists>k \<in> set (map fst kw). k \<in> set PluginDefinition_params)" by auto
  obtain v0 where v0: "Variant_init sd_parse ?kw = Inr v0"
    using assms unfolding PluginDefinition_init_def
    by (simp only: nk if_False if_True simp_thms) (auto split: sum.splits)
  from v0 obtain caps sgv raw ss where
    "py_list (dict_get kw ''capabilities'' (PList [])) = Inr caps"
    "py_list (dict_get kw ''settings_group_validation'' (PList [])) = Inr sgv"
    "py_list (dict_get kw ''settings'' (PList [])) = Inr raw"
    "map_result sd_parse raw = Inr ss"
    unfolding Variant_init_def g by (auto split: sum.splits)
  with keys show ?thesis by blast
qed

lemma flat_built_round_trip:
  assumes init: "PluginDefinition_init sd_parse t n ns var [] kw = Inr d"
    and dk: "distinct (map fst kw)"
    and idem: "\<forall>x y. sd_parse x = Inr y \<longrightarrow> sd_parse y = Inr y"
    and od: "\<forall>(k, x) \<in> set (PluginDefinition_attrs d). omit k x \<longrightarrow> x = attr_default k"
    and ov: "\<forall>v \<in> set (variants d). \<forall>(k, x) \<in> set (Variant_attrs v). omit k x \<longrightarrow> x = attr_default k"
  shows "\<exists>v. variants d = [v] \<and>
           reparse sd_parse t
             (filter (\<lambda>(k, x). \<not> omit k x) (PluginDefinition_attrs d) @ pd_extras d
              @ map (\<lambda>(k, x). (if k = ''name'' then ''variant'' else k, x)) (Variant_iter omit v))
           = Inr d"
proof -
  from flat_init_succeeded [OF init] obtain caps sgv raw ss where
    keys: "\<forall>k \<in> fst ` set kw. k \<notin> set PluginDefinition_params"
    and c: "py_list (dict_get kw ''capabilities'' (PList [])) = Inr caps"
      "py_list (dict_get kw ''settings_group_validation'' (PList [])) = Inr sgv"
      "py_list (dict_get kw ''settings'' (PList [])) = Inr raw"
    and m: "map_result sd_parse raw = Inr ss"
    by blast
  note r = PluginDefinition_init_flat [OF keys c m, of t n ns var]
  define v where "v = \<lparr> v_name = var,
                     original = dict_get kw ''original'' PNone,
                     deprecated = dict_get kw ''deprecated'' PNone,
                     docs = dict_get kw ''docs'' PNone,
                     repo = dict_get kw ''repo'' PNone,
                     pip_url = dict_get kw ''pip_url'' PNone,
                     executable = dict_get kw ''executable'' PNone,
                     capabilities = caps,
                     settings_group_validation = sgv,
                     settings = ss,
                     v_extras = [] \<rparr>"
  have d: "d = \<lparr> pd_type = t, pd_name = n, namespace = ns,
                hidden = dict_get kw ''hidden'' PNone, label = dict_get kw ''label'' PNone,
                logo_url = dict_get kw ''logo_url'' PNone,
                description = dict_get kw ''description'' PNone,
                pd_extras =
                  filter (\<lambda>(k, _). k \<notin> set Variant_params \<and> k \<notin> set presentation_attrs) kw,
                variants = [v] \<rparr>"
    using init unfolding r v_def by simp
  have vs: "variants d = [v]" and ve: "v_extras v = []" and t: "pd_type d = t"
    and E: "pd_extras d = filter (\<lambda>(k, _). k \<notin> set Variant_params \<and> k \<notin> set presentation_attrs) kw"
    and sv: "settings v = ss"
    by (simp_all add: d v_def)
  have dE: "distinct (map fst (pd_extras d @ v_extras v))"
    unfolding ve E using dk by (simp add: distinct_map_filter)
  have rE: "\<forall>k \<in> fst ` set (pd_extras d @ v_extras v). k \<notin> set reserved_keys"
  proof
    fix k assume "k \<in> fst ` set (pd_extras d @ v_extras v)"
    then have "k \<in> fst ` set kw" "k \<notin> set Variant_params" "k \<notin> set presentation_attrs"
      unfolding ve E by auto
    moreover from this keys have "k \<notin> set PluginDefinition_params" by blast
    ultimately show "k \<notin> set reserved_keys"
      by (simp add: reserved_keys_def Variant_params_def presentation_attrs_def
          PluginDefinition_params_def)
  qed
  have sp: "\<forall>s \<in> set (settings v). sd_parse s = Inr s"
    using map_result_sources [OF m] idem unfolding sv by blast
  have ov': "\<forall>(k, x) \<in> set (Variant_attrs v). omit k x \<longrightarrow> x = attr_default k"
    using ov vs by simp
  have "reparse sd_parse (pd_type d)
             (filter (\<lambda>(k, x). \<not> omit k x) (PluginDefinition_attrs d) @ pd_extras d
              @ map (\<lambda>(k, x). (if k = ''name'' then ''variant'' else k, x)) (Variant_iter omit v))
         = Inr (d\<lparr>pd_extras := pd_extras d @ v_extras v, variants := [v\<lparr>v_extras := []\<rparr>]\<rparr>)"
    using dE rE sp od ov' by (rule reparse_single_variant)
  moreover have "d\<lparr>pd_extras := pd_extras d @ v_extras v, variants := [v\<lparr>v_extras := []\<rparr>]\<rparr> = d"
    using vs ve by (cases d, cases v) simp
  ultimately show ?thesis using vs t by auto
qed

lemma map_result_length: "map_result f xs = Inr ys \<Longrightarrow> length ys = length xs"
proof (induction xs arbitrary: ys)
  case Nil
  then show ?case by simp
next
  case (Cons x xs)
  then show ?case by (auto split: sum.splits)
qed

lemma PluginDefinition_finish_variants:
  assumes "PluginDefinition_finish sd_parse t n ns kw vargs = Inr d"
  shows "length (variants d) = length vargs"
proof -
  from assms obtain vs where vs: "map_result (Variant_parse sd_parse) vargs = Inr vs"
    and d: "variants d = vs"
    by (auto simp: PluginDefinition_finish_def dict_pop_def Let_def split: sum.splits)
  from map_result_length [OF vs] d show ?thesis by simp
qed

lemma PluginDefinition_init_variants_nonempty:
  assumes "PluginDefinition_init sd_parse t n ns var vargs kw = Inr d"
  shows "variants d \<noteq> []"
proof (cases "vargs = []")
  case True
  with assms have i: "PluginDefinition_init sd_parse t n ns var [] kw = Inr d" by simp
  from flat_init_succeeded [OF i] obtain caps sgv raw ss where
    "\<forall>k \<in> fst ` set kw. k \<notin> set PluginDefinition_params"
    "py_list (dict_get kw ''capabilities'' (PList [])) = Inr caps"
    "py_list (dict_get kw ''settings_group_validation'' (PList [])) = Inr sgv"
    "py_list (dict_get kw ''settings'' (PList [])) = Inr raw"
    "map_result sd_parse raw = Inr ss"
    by blast
  from PluginDefinition_init_flat [OF this, of t n ns var] i show ?thesis by auto
next
  case False
  with assms have "PluginDefinition_finish sd_parse t n ns kw vargs = Inr d"
    by (auto simp: PluginDefinition_init_def split: if_splits)
  from PluginDefinition_finish_variants [OF this] False show ?thesis by auto
qed

lemma map_of_dict_merge_rev: "map_of (dict_merge a b) = map_of a ++ map_of (rev b)"
proof (induction b arbitrary: a)
  case Nil
  then show ?case by (simp add: dict_merge_def)
next
  case (Cons x b)
  obtain k v where x: "x = (k, v)" by (cases x)
  have "dict_merge a (x # b) = dict_merge (dict_set a k v) b"
    by (simp add: dict_merge_def x)
  then have "map_of (dict_merge a (x # b)) = map_of (dict_set a k v) ++ map_of (rev b)"
    by (simp only: Cons.IH)
  also have "\<dots> = (map_of a)(k \<mapsto> v) ++ map_of (rev b)"
    by (simp only: map_of_dict_set)
  also have "\<dots> = map_of a ++ map_of (rev (x # b))"
    by (auto simp: x map_add_def fun_eq_iff split: option.splits)
  finally show ?case .
qed

lemma dict_merge_values:
  assumes "map_of (dict_merge a b) k = Some x"
  shows "map_of a k = Some x \<or> (k, x) \<in> set b"
proof -
  from assms have "(map_of a ++ map_of (rev b)) k = Some x"
    by (simp only: map_of_dict_merge_rev)
  then have "map_of (rev b) k = Some x \<or> map_of a k = Some x"
    by (auto simp: map_add_Some_iff)
  then show ?thesis
    using map_of_SomeD [of "rev b" k x] by auto
qed

lemma size_dict_value: "(k, x) \<in> set kw \<Longrightarrow> size x < size (PDict kw)"
  by (induction kw) auto

lemma dict_not_inside_itself: "(k, PList [PDict kw]) \<notin> set kw"
proof
  assume "(k, PList [PDict kw]) \<in> set kw"
  then have "size (PList [PDict kw]) < size (PDict kw)" by (rule size_dict_value)
  then show False by simp
qed

lemma Variant_init_extras:
  "Variant_init sd_parse kw = Inr v \<Longrightarrow> v_extras v = filter (\<lambda>(k, _). k \<notin> set Variant_params) kw"
  by (auto simp: Variant_init_def split: sum.splits)

lemma finish_extras:
  assumes "PluginDefinition_finish sd_parse t n ns kw vargs = Inr d"
  shows "fst ` set (pd_extras d) \<subseteq> fst ` set kw - set presentation_attrs"
    and "map_result (Variant_parse sd_parse) vargs = Inr (variants d)"
  using assms
  by (auto simp: PluginDefinition_finish_def dict_pop_def Let_def presentation_attrs_def
      split: sum.splits)

lemma map_of_rev_distinct: "distinct (map fst xs) \<Longrightarrow> map_of (rev xs) = map_of xs"
proof (induction xs)
  case Nil
  then show ?case by simp
next
  case (Cons x xs)
  obtain k v where x: "x = (k, v)" by (cases x)
  have n: "map_of xs k = None"
    using Cons.prems by (simp add: x map_of_eq_None_iff)
  have "map_of (rev (x # xs)) = map_of [x] ++ map_of xs"
    using Cons by simp
  also have "\<dots> = map_of (x # xs)"
    using n by (auto simp: x map_add_def fun_eq_iff split: option.splits)
  finally show ?case .
qed

lemma lookup_merged_pairs:
  assumes "k \<notin> fst ` set E" "k \<notin> fst ` set VE"
    and "distinct (map fst FA)" "distinct (map fst R)"
  shows "map_of (dict_merge [] (FA @ E @ R @ VE)) k = (map_of FA ++ map_of R) k"
proof -
  have e: "map_of (rev E) k = None" and ve: "map_of (rev VE) k = None"
    using assms(1,2) by (simp_all add: map_of_eq_None_iff)
  have "map_of (dict_merge [] (FA @ E @ R @ VE)) k = map_of (rev (FA @ E @ R @ VE)) k"
    by (simp add: map_of_dict_merge_rev)
  also have "\<dots> = (map_of (rev FA) ++ map_of (rev R)) k"
    using e ve by (simp add: map_add_def split: option.splits)
  finally show ?thesis
    by (simp only: map_of_rev_distinct [OF assms(3)] map_of_rev_distinct [OF assms(4)])
qed

lemma reparse_unfold:
  assumes "reparse sd_parse t pairs = Inr d"
  shows "\<exists>name nspace vargs.
           variant_args (dict_get (dict_merge [] pairs) ''variants'' PNone) = Inr vargs \<and>
           PluginDefinition_init sd_parse t name nspace
             (dict_get (dict_merge [] pairs) ''variant'' PNone) vargs
             (filter (\<lambda>(k, _). k \<notin> set [''name'', ''namespace'', ''variant'', ''variants''])
                (dict_merge [] pairs)) = Inr d"
  using assms
  by (auto simp: reparse_def Let_def split: option.splits pyval.splits sum.splits)

lemma variant_args_nonempty:
  assumes "variant_args y = Inr vargs" "vargs \<noteq> []"
  shows "\<exists>xs. y = PList xs \<and>
           map_result (\<lambda>x. case x of PDict kw \<Rightarrow> Inr (VariantDict kw) | _ \<Rightarrow> Inl TypeError) xs
             = Inr vargs"
  using assms by (cases y) auto

lemma init_explicit:
  assumes "PluginDefinition_init sd_parse t n ns var vargs kw = Inr d" "vargs \<noteq> []"
  shows "PluginDefinition_finish sd_parse t n ns kw vargs = Inr d"
  using assms by (auto simp: PluginDefinition_init_def split: if_splits)

lemma init_keys:
  assumes "PluginDefinition_init sd_parse t n ns var vargs kw = Inr d"
  shows "\<forall>k \<in> fst ` set kw. k \<notin> set PluginDefinition_params"
  using assms by (auto simp: PluginDefinition_init_def split: if_splits)

lemma reparse_original_only_if:
  assumes vs: "variants d = [v]"
    and r: "reparse sd_parse t
              (filter (\<lambda>(k, x). \<not> omit k x) (PluginDefinition_attrs d) @ pd_extras d
               @ map (\<lambda>(k, x). (if k = ''name'' then ''variant'' else k, x)) (Variant_iter omit v))
            = Inr d"
  shows "v_extras v = [] \<and> (\<forall>k \<in> fst ` set (pd_extras d). k \<notin> set reserved_keys)"
proof -
  define pairs where "pairs =
    filter (\<lambda>(k, x). \<not> omit k x) (PluginDefinition_attrs d) @ pd_extras d
      @ map (\<lambda>(k, x). (if k = ''name'' then ''variant'' else k, x)) (Variant_iter omit v)"
  define M where "M = dict_merge [] pairs"
  define X where
    "X = filter (\<lambda>(k, _). k \<notin> set [''name'', ''namespace'', ''variant'', ''variants'']) M"
  from reparse_unfold [OF r] obtain name nspace vargs where
    va: "variant_args (dict_get M ''variants'' PNone) = Inr vargs"
    and init: "PluginDefinition_init sd_parse t name nspace (dict_get M ''variant'' PNone) vargs X
                 = Inr d"
    unfolding M_def X_def pairs_def by blast
  have kX: "\<forall>k \<in> fst ` set X. k \<notin> set PluginDefinition_params"
    using init by (rule init_keys)
  have kX4: "\<forall>k \<in> fst ` set X. k \<notin> set [''name'', ''namespace'', ''variant'', ''variants'']"
    unfolding X_def by auto
  show ?thesis
  proof (cases "vargs = []")
    case True
    with init have i: "PluginDefinition_init sd_parse t name nspace (dict_get M ''variant'' PNone) [] X
                         = Inr d"
      by simp
    from flat_init_succeeded [OF i] obtain caps sgv raw ss where c:
      "\<forall>k \<in> fst ` set X. k \<notin> set PluginDefinition_params"
      "py_list (dict_get X ''capabilities'' (PList [])) = Inr caps"
      "py_list (dict_get X ''settings_group_validation'' (PList [])) = Inr sgv"
      "py_list (dict_get X ''settings'' (PList [])) = Inr raw"
      "map_result sd_parse raw = Inr ss"
      by blast
    note f = PluginDefinition_init_flat [OF c, of t name nspace "dict_get M ''variant'' PNone"]
    from i have ve: "v_extras v = []"
      using vs unfolding f by auto
    from i have ex: "pd_extras d =
        filter (\<lambda>(k, _). k \<notin> set Variant_params \<and> k \<notin> set presentation_attrs) X"
      unfolding f by auto
    have "k \<notin> set reserved_keys" if "k \<in> fst ` set (pd_extras d)" for k
    proof -
      from that have "k \<in> fst ` set X" "k \<notin> set Variant_params" "k \<notin> set presentation_attrs"
        unfolding ex by auto
      moreover from this kX kX4 have "k \<notin> set PluginDefinition_params"
        "k \<notin> set [''name'', ''namespace'', ''variant'', ''variants'']"
        by blast+
      ultimately show ?thesis
        by (simp add: reserved_keys_def Variant_params_def presentation_attrs_def
            PluginDefinition_params_def)
    qed
    with ve show ?thesis by blast
  next
    case False
    from init_explicit [OF init False]
    have fin: "PluginDefinition_finish sd_parse t name nspace X vargs = Inr d" .
    from finish_extras [OF fin] vs
    have kE: "fst ` set (pd_extras d) \<subseteq> fst ` set X"
      and mr: "map_result (Variant_parse sd_parse) vargs = Inr [v]"
      by auto
    from variant_args_nonempty [OF va False] obtain xs where
      g: "dict_get M ''variants'' PNone = PList xs"
      and mx: "map_result (\<lambda>x. case x of PDict kw \<Rightarrow> Inr (VariantDict kw) | _ \<Rightarrow> Inl TypeError) xs
                 = Inr vargs"
      by blast
    from g have "map_of M ''variants'' = Some (PList xs)"
      by (auto simp: dict_get_def split: option.splits)
    from dict_merge_values [OF this [unfolded M_def]]
    have mem: "(''variants'', PList xs) \<in> set pairs" by simp
    from map_result_length [OF mr] map_result_length [OF mx]
    have "length vargs = 1" "length xs = 1" by simp_all
    then obtain a y where vargs: "vargs = [a]" and xs: "xs = [y]"
      by (auto simp: length_Suc_conv)
    from mx obtain kwv where y: "y = PDict kwv" and a: "a = VariantDict kwv"
      unfolding vargs xs by (cases y) (auto split: sum.splits)
    from mr have "Variant_init sd_parse kwv = Inr v"
      unfolding vargs a by (auto split: sum.splits)
    from Variant_init_extras [OF this]
    have sub: "set (v_extras v) \<subseteq> set kwv" by auto
    have n1: "(''variants'', PList xs) \<notin> set (PluginDefinition_attrs d)"
      by (auto simp: PluginDefinition_attrs_def)
    have n2: "(''variants'', PList xs) \<notin> set (pd_extras d)"
    proof
      assume "(''variants'', PList xs) \<in> set (pd_extras d)"
      then have "''variants'' \<in> fst ` set (pd_extras d)" by force
      with kE have "''variants'' \<in> fst ` set X" by blast
      from kX4 [rule_format, OF this] show False by simp
    qed
    have n3: "(k, z) \<in> set (Variant_attrs v) \<Longrightarrow> k \<noteq> ''variants''" for k z
      by (auto simp: Variant_attrs_def)
    define rn :: "string \<times> pyval \<Rightarrow> string \<times> pyval"
      where "rn = (\<lambda>(k, x). (if k = ''name'' then ''variant'' else k, x))"
    define S where "S = set (filter (\<lambda>(k, x). \<not> omit k x) (Variant_attrs v)) \<union> set (v_extras v)"
    have sp: "set pairs = set (filter (\<lambda>(k, x). \<not> omit k x) (PluginDefinition_attrs d))
                \<union> set (pd_extras d) \<union> rn ` S"
      unfolding pairs_def Variant_iter_def rn_def S_def by (simp add: image_Un Un_assoc)
    from mem n1 n2 have "(''variants'', PList xs) \<in> rn ` S"
      unfolding sp by auto
    then obtain kz where kzS: "kz \<in> S" and eq0: "(''variants'', PList xs) = rn kz"
      by blast
    obtain k0 z where kz0: "kz = (k0, z)" by (cases kz)
    have kz: "(k0, z) \<in> set (filter (\<lambda>(k, x). \<not> omit k x) (Variant_attrs v)) \<union> set (v_extras v)"
      using kzS unfolding S_def kz0 .
    have eq: "(''variants'', PList xs) = (if k0 = ''name'' then ''variant'' else k0, z)"
      using eq0 unfolding kz0 rn_def by simp
    from eq have k0: "k0 = ''variants''" and z: "z = PList xs"
      by (auto split: if_splits)
    from kz n3 have "(''variants'', PList xs) \<in> set (v_extras v)"
      unfolding k0 z by auto
    with sub have "(''variants'', PList [PDict kwv]) \<in> set kwv"
      unfolding xs y by auto
    with dict_not_inside_itself show ?thesis by blast
  qed
qed

lemma reparse_single_variant_succeeds:
  fixes d :: plugin_definition and v :: variant
  assumes fk: "\<forall>k \<in> fst ` set (pd_extras d @ v_extras v). k \<notin> set fragile_keys"
    and sp: "\<forall>s \<in> set (settings v). sd_parse s = Inr s"
    and od: "\<forall>(k, x) \<in> set (PluginDefinition_attrs d). omit k x \<longrightarrow> x = attr_default k"
    and ov: "\<forall>(k, x) \<in> set (Variant_attrs v). omit k x \<longrightarrow> x = attr_default k"
  shows "\<exists>d'. reparse sd_parse (pd_type d)
                 (filter (\<lambda>(k, x). \<not> omit k x) (PluginDefinition_attrs d) @ pd_extras d
                  @ map (\<lambda>(k, x). (if k = ''name'' then ''variant'' else k, x)) (Variant_iter omit v))
               = Inr d' \<and>
              pd_name d' = pd_name d \<and> pd_type d' = pd_type d \<and> namespace d' = namespace d \<and>
              length (variants d') = 1"
proof -
  define P :: "string \<times> pyval \<Rightarrow> bool" where "P = (\<lambda>(k, x). \<not> omit k x)"
  define P2 :: "string \<times> pyval \<Rightarrow> bool"
    where "P2 = (\<lambda>(k, x). \<not> omit (if k = ''variant'' then ''name'' else k) x)"
  define rn :: "string \<times> pyval \<Rightarrow> string \<times> pyval"
    where "rn = (\<lambda>(k, x). (if k = ''name'' then ''variant'' else k, x))"
  define A where "A = PluginDefinition_attrs d"
  define RA where "RA = map rn (Variant_attrs v)"
  define E where "E = pd_extras d"
  define VE where "VE = v_extras v"
  define FA where "FA = filter P A"
  define R where "R = filter P2 RA"
  define K where "K = FA @ E @ R @ VE"
  define M where "M = dict_merge [] K"

  have kA: "map fst A = [''name'', ''namespace'', ''hidden'', ''label'', ''logo_url'', ''description'']"
    by (simp add: A_def PluginDefinition_attrs_def)
  have kRA: "map fst RA = [''variant'', ''original'', ''deprecated'', ''docs'', ''repo'', ''pip_url'',
      ''executable'', ''capabilities'', ''settings_group_validation'', ''settings'']"
    by (simp add: RA_def rn_def Variant_attrs_def)
  have sA: "fst ` set A = set [''name'', ''namespace'', ''hidden'', ''label'', ''logo_url'', ''description'']"
    using kA by (metis set_map)
  have sRA: "fst ` set RA = set [''variant'', ''original'', ''deprecated'', ''docs'', ''repo'', ''pip_url'',
      ''executable'', ''capabilities'', ''settings_group_validation'', ''settings'']"
    using kRA by (metis set_map)
  have dA: "distinct (map fst A)" unfolding kA by simp
  have dRA: "distinct (map fst RA)" unfolding kRA by simp
  have FA_sub: "fst ` set FA \<subseteq> fst ` set A" and R_sub: "fst ` set R \<subseteq> fst ` set RA"
    unfolding FA_def R_def by (rule keys_filter_subset)+
  have E_fr: "fst ` set E \<inter> set fragile_keys = {}" and VE_fr: "fst ` set VE \<inter> set fragile_keys = {}"
    using fk unfolding E_def VE_def by auto
  have dFA: "distinct (map fst FA)" unfolding FA_def using dA by (rule distinct_map_filter)
  have dR: "distinct (map fst R)" unfolding R_def using dRA by (rule distinct_map_filter)

  have flat: "filter (\<lambda>(k, x). \<not> omit k x) (PluginDefinition_attrs d) @ pd_extras d
            @ map (\<lambda>(k, x). (if k = ''name'' then ''variant'' else k, x)) (Variant_iter omit v) = K"
  proof -
    have "''name'' \<notin> fst ` set VE"
      using VE_fr by (auto simp: fragile_keys_def)
    then have "map rn VE = VE"
      unfolding rn_def by (induction VE) auto
    moreover have "map rn (filter P (Variant_attrs v)) = R"
      unfolding R_def RA_def rn_def P_def P2_def by (rule rename_filter_Variant_attrs)
    ultimately show ?thesis
      unfolding K_def FA_def E_def A_def Variant_iter_def P_def [symmetric] rn_def [symmetric] VE_def [symmetric]
      by simp
  qed

  have LM: "map_of M k = (map_of FA ++ map_of R) k" if "k \<in> set fragile_keys" for k
  proof -
    have "k \<notin> fst ` set E" "k \<notin> fst ` set VE"
      using that E_fr VE_fr by blast+
    then show ?thesis
      unfolding M_def K_def using dFA dR by (rule lookup_merged_pairs)
  qed
  have LA: "map_of M k = (if P (k, x) then Some x else None)"
    if "(k, x) \<in> set A" "k \<in> set fragile_keys" for k x
  proof -
    have kin: "k \<in> fst ` set A" using that(1) by force
    have "k \<notin> fst ` set R" using kin R_sub unfolding sA sRA by auto
    then have "map_of R k = None" by (simp add: map_of_eq_None_iff)
    then have "map_of M k = map_of FA k"
      unfolding LM [OF that(2)] by (simp add: map_add_def)
    then show ?thesis
      unfolding FA_def using map_of_filter_entry [OF dA that(1), of P] by simp
  qed
  have LR: "map_of M k = (if P2 (k, x) then Some x else None)"
    if "(k, x) \<in> set RA" "k \<in> set fragile_keys" for k x
  proof -
    have kin: "k \<in> fst ` set RA" using that(1) by force
    have "k \<notin> fst ` set FA" using kin FA_sub unfolding sA sRA by auto
    then have "map_of FA k = None" by (simp add: map_of_eq_None_iff)
    then have "map_of M k = map_of R k"
      unfolding LM [OF that(2)] by (simp add: map_add_def split: option.splits)
    then show ?thesis
      unfolding R_def using map_of_filter_entry [OF dRA that(1), of P2] by simp
  qed
  have ov2: "\<not> P2 (k, x) \<longrightarrow> x = attr_default (if k = ''variant'' then ''name'' else k)"
    if "(k, x) \<in> set RA" for k x
  proof -
    from that obtain k0 where k0: "(k0, x) \<in> set (Variant_attrs v)"
      and k: "k = (if k0 = ''name'' then ''variant'' else k0)"
      unfolding RA_def rn_def by auto
    have "k0 \<noteq> ''variant''" using k0 by (auto simp: Variant_attrs_def)
    then have "(if k = ''variant'' then ''name'' else k) = k0" using k by auto
    then show ?thesis
      using ov k0 unfolding P2_def by auto
  qed
  have GR: "dict_get M k (attr_default (if k = ''variant'' then ''name'' else k)) = x"
    if "(k, x) \<in> set RA" "k \<in> set fragile_keys" for k x
    using ov2 [OF that(1)] by (auto simp: dict_get_def LR [OF that])

  have fr: "''name'' \<in> set fragile_keys" "''namespace'' \<in> set fragile_keys"
    "''capabilities'' \<in> set fragile_keys" "''settings_group_validation'' \<in> set fragile_keys"
    "''settings'' \<in> set fragile_keys" "''variants'' \<in> set fragile_keys"
    "''plugin_type'' \<in> set fragile_keys"
    by (simp_all add: fragile_keys_def)
  have mA: "(''name'', PStr (pd_name d)) \<in> set A" "(''namespace'', PStr (namespace d)) \<in> set A"
    by (simp_all add: A_def PluginDefinition_attrs_def)
  have mR: "(''capabilities'', PList (capabilities v)) \<in> set RA"
    "(''settings_group_validation'', PList (settings_group_validation v)) \<in> set RA"
    "(''settings'', PList (settings v)) \<in> set RA"
    by (simp_all add: RA_def rn_def Variant_attrs_def)

  have name: "map_of M ''name'' = Some (PStr (pd_name d))"
  proof -
    have "\<not> omit ''name'' (PStr (pd_name d))"
      using od by (auto simp: PluginDefinition_attrs_def attr_default_def)
    then show ?thesis using LA [OF mA(1) fr(1)] by (simp add: P_def)
  qed
  have nspace: "map_of M ''namespace'' = Some (PStr (namespace d))"
  proof -
    have "\<not> omit ''namespace'' (PStr (namespace d))"
      using od by (auto simp: PluginDefinition_attrs_def attr_default_def)
    then show ?thesis using LA [OF mA(2) fr(2)] by (simp add: P_def)
  qed
  have gR: "dict_get M ''capabilities'' (PList []) = PList (capabilities v)"
    "dict_get M ''settings_group_validation'' (PList []) = PList (settings_group_validation v)"
    "dict_get M ''settings'' (PList []) = PList (settings v)"
    using GR [OF mR(1) fr(3)] GR [OF mR(2) fr(4)] GR [OF mR(3) fr(5)]
    by (simp_all add: attr_default_def)

  have keysM: "fst ` set M = fst ` set K"
    unfolding M_def by (simp add: keys_dict_merge)
  have keysK: "fst ` set K \<subseteq> fst ` set A \<union> fst ` set E \<union> fst ` set RA \<union> fst ` set VE"
    unfolding K_def using FA_sub R_sub by auto
  have no_variants: "''variants'' \<notin> fst ` set M" and no_type: "''plugin_type'' \<notin> fst ` set M"
  proof -
    have "''variants'' \<notin> fst ` set A \<union> fst ` set RA"
      "''plugin_type'' \<notin> fst ` set A \<union> fst ` set RA"
      unfolding sA sRA by simp_all
    then show "''variants'' \<notin> fst ` set M" "''plugin_type'' \<notin> fst ` set M"
      unfolding keysM using keysK E_fr VE_fr fr(6,7) by blast+
  qed

  define Q4 :: "string \<Rightarrow> bool"
    where "Q4 = (\<lambda>k. k \<notin> set [''name'', ''namespace'', ''variant'', ''variants''])"
  define X where "X = filter (\<lambda>(k, _). Q4 k) M"
  have gX: "dict_get X k dflt = dict_get M k dflt" if "Q4 k" for k dflt
    unfolding X_def using that by (rule dict_get_filter_keys)
  have q4: "Q4 ''capabilities''" "Q4 ''settings_group_validation''" "Q4 ''settings''"
    by (simp_all add: Q4_def)
  have keysX: "\<forall>k \<in> fst ` set X. k \<notin> set PluginDefinition_params"
  proof
    fix k assume "k \<in> fst ` set X"
    then have "k \<in> fst ` set M" and "Q4 k" unfolding X_def by auto
    then have "k \<noteq> ''plugin_type''" and "Q4 k" using no_type by blast+
    then show "k \<notin> set PluginDefinition_params"
      by (simp add: PluginDefinition_params_def Q4_def)
  qed
  have c1: "py_list (dict_get X ''capabilities'' (PList [])) = Inr (capabilities v)"
    and c2: "py_list (dict_get X ''settings_group_validation'' (PList []))
               = Inr (settings_group_validation v)"
    and c3: "py_list (dict_get X ''settings'' (PList [])) = Inr (settings v)"
    by (simp_all add: gX q4 gR)
  have c4: "map_result sd_parse (settings v) = Inr (settings v)"
    using map_result_all_Inr [of "settings v" sd_parse "\<lambda>s. s"] sp by simp

  note init = PluginDefinition_init_flat [OF keysX c1 c2 c3 c4,
      of "pd_type d" "pd_name d" "namespace d" "dict_get M ''variant'' PNone"]
  have va: "variant_args (dict_get M ''variants'' PNone) = Inr []"
    using dict_get_absent [OF no_variants, of PNone] by simp
  have "\<exists>d'. reparse sd_parse (pd_type d) K = Inr d' \<and>
              pd_name d' = pd_name d \<and> pd_type d' = pd_type d \<and> namespace d' = namespace d \<and>
              length (variants d') = 1"
    unfolding reparse_def M_def [symmetric] Let_def name nspace va
    using init unfolding X_def Q4_def
    by simp
  then show ?thesis unfolding flat .
qed

lemma map_result_error:
  "map_result f xs = Inl e \<Longrightarrow> \<exists>x \<in> set xs. f x = Inl e"
proof (induction xs)
  case Nil
  then show ?case by simp
next
  case (Cons x xs)
  then show ?case by (auto split: sum.splits)
qed

lemma variant_args_error: "variant_args y = Inl e \<Longrightarrow> e = TypeError"
proof (cases y)
  case (PList xs)
  assume "variant_args y = Inl e"
  then have "map_result (\<lambda>x. case x of PDict kw \<Rightarrow> Inr (VariantDict kw) | _ \<Rightarrow> Inl TypeError) xs
               = Inl e"
    by (simp add: PList)
  from map_result_error [OF this] obtain x where
    "(case x of PDict kw \<Rightarrow> Inr (VariantDict kw) | _ \<Rightarrow> Inl TypeError) = Inl e"
    by blast
  then show ?thesis by (cases x) simp_all
qed simp_all

lemma required_strings_all_error:
  assumes "\<And>name nspace. F name nspace = Inl TypeError"
  shows "(case (p, q) of
            (Some (PStr name), Some (PStr nspace)) \<Rightarrow> F name nspace
          | _ \<Rightarrow> Inl TypeError) = Inl TypeError"
  using assms by (simp split: option.splits pyval.splits)

lemma reparse_plugin_type_key:
  assumes "''plugin_type'' \<in> fst ` set pairs"
  shows "reparse sd_parse t pairs = Inl TypeError"
proof -
  define M where "M = dict_merge [] pairs"
  define X where
    "X = filter (\<lambda>(k, _). k \<notin> set [''name'', ''namespace'', ''variant'', ''variants'']) M"
  have "''plugin_type'' \<in> fst ` set M"
    using assms unfolding M_def by (simp add: keys_dict_merge)
  then have "''plugin_type'' \<in> fst ` set X"
    unfolding X_def by force
  then have "''plugin_type'' \<in> set (map fst X)" by simp
  moreover have "''plugin_type'' \<in> set PluginDefinition_params"
    by (simp add: PluginDefinition_params_def)
  ultimately have "\<exists>k \<in> set (map fst X). k \<in> set PluginDefinition_params"
    by (rule bexI [rotated])
  then have i: "PluginDefinition_init sd_parse t n ns var vargs X = Inl TypeError" for n ns var vargs
    unfolding PluginDefinition_init_def by (simp only: if_True)
  have inner: "(case variant_args y of
                  Inl e \<Rightarrow> Inl e
                | Inr vargs \<Rightarrow> PluginDefinition_init sd_parse t n ns var vargs X) = Inl TypeError"
    for y n ns var
  proof (cases "variant_args y")
    case (Inl e)
    with variant_args_error [OF Inl] show ?thesis by simp
  next
    case (Inr vargs)
    then show ?thesis by (simp only: sum.case i)
  qed
  show ?thesis
    unfolding reparse_def Let_def M_def [symmetric] X_def [symmetric]
    by (rule required_strings_all_error) (rule inner)
qed

lemma renamed_key_kept:
  "k \<noteq> ''name'' \<Longrightarrow> k \<in> fst ` set xs \<Longrightarrow>
     k \<in> fst ` set (map (\<lambda>(k, x). (if k = ''name'' then ''variant'' else k, x)) xs)"
proof (induction xs)
  case Nil
  then show ?case by simp
next
  case (Cons a xs)
  obtain k' x' where a: "a = (k', x')" by (cases a)
  show ?case
  proof (cases "k = k'")
    case True
    with Cons.prems(1) show ?thesis by (simp add: a)
  next
    case False
    with Cons.prems have "k \<in> fst ` set xs" by (simp add: a)
    with Cons.IH Cons.prems(1) show ?thesis by simp
  qed
qed

lemma reparse_plugin_type_extra:
  assumes "''plugin_type'' \<in> fst ` set (pd_extras d @ v_extras v)"
  shows "reparse sd_parse t
           (filter (\<lambda>(k, x). \<not> omit k x) (PluginDefinition_attrs d) @ pd_extras d
            @ map (\<lambda>(k, x). (if k = ''name'' then ''variant'' else k, x)) (Variant_iter omit v))
         = Inl TypeError"
proof (rule reparse_plugin_type_key)
  define RV where
    "RV = map (\<lambda>(k, x). (if k = ''name'' then ''variant'' else k, x)) (Variant_iter omit v)"
  have "''plugin_type'' \<in> fst ` set (pd_extras d) \<or> ''plugin_type'' \<in> fst ` set RV"
  proof (cases "''plugin_type'' \<in> fst ` set (pd_extras d)")
    case True
    then show ?thesis by blast
  next
    case False
    with assms have "''plugin_type'' \<in> fst ` set (v_extras v)"
      by (simp add: image_Un)
    then have "''plugin_type'' \<in> fst ` set (Variant_iter omit v)"
      unfolding Variant_iter_def by (simp add: image_Un)
    then have "''plugin_type'' \<in> fst ` set RV"
      unfolding RV_def by (intro renamed_key_kept) simp_all
    then show ?thesis by blast
  qed
  then show "''plugin_type'' \<in> fst ` set
     (filter (\<lambda>(k, x). \<not> omit k x) (PluginDefinition_attrs d) @ pd_extras d
      @ map (\<lambda>(k, x). (if k = ''name'' then ''variant'' else k, x)) (Variant_iter omit v))"
    unfolding RV_def [symmetric] by (simp only: set_append image_Un Un_iff) blast
qed

section \<open>The claims\<close>

text \<open>
  C6. For every PluginType \<open>t\<close>, \<open>from_cli_argument\<close> maps both \<open>t.singular\<close> and
  \<open>t.value\<close> back to \<open>t\<close>. It looks up its argument with a trailing \<open>s\<close> appended
  when the argument does not end in one, returns \<open>t\<close> exactly when that normalised
  string is the value of \<open>t\<close>, and raises ValueError (the enum's invalid-value error)
  when the normalised string is not one of the eight values.
\<close>

theorem from_cli_argument_inverts_names:
  "from_cli_argument (singular t) = Inr t \<and>
   from_cli_argument (pt_value t) = Inr t \<and>
   from_cli_argument v = PluginType_of_value (if endswith_s v then v else v @ ''s'') \<and>
   (from_cli_argument v = Inr t \<longleftrightarrow> (if endswith_s v then v else v @ ''s'') = pt_value t) \<and>
   ((if endswith_s v then v else v @ ''s'') \<notin> set (map pt_value PluginType_members) \<longrightarrow>
      from_cli_argument v = Inl (ValueError (if endswith_s v then v else v @ ''s'')))"
proof -
  have n: "cli_normalize v = (if endswith_s v then v else v @ ''s'')"
    by (simp add: cli_normalize_def)
  have "from_cli_argument (singular t) = Inr t"
    by (simp add: from_cli_argument_def cli_normalize_singular PluginType_of_value_member)
  moreover have "from_cli_argument (pt_value t) = Inr t"
    by (simp add: from_cli_argument_def cli_normalize_value PluginType_of_value_member)
  moreover have "from_cli_argument v = PluginType_of_value (if endswith_s v then v else v @ ''s'')"
    by (simp only: from_cli_argument_def n)
  moreover have "from_cli_argument v = Inr t \<longleftrightarrow> (if endswith_s v then v else v @ ''s'') = pt_value t"
    by (simp only: from_cli_argument_def n PluginType_of_value_Inr)
  moreover have "(if endswith_s v then v else v @ ''s'') \<notin> set (map pt_value PluginType_members) \<longrightarrow>
      from_cli_argument v = Inl (ValueError (if endswith_s v then v else v @ ''s''))"
    using PluginType_of_value_unknown [of "cli_normalize v"]
    by (simp only: from_cli_argument_def n) blast
  ultimately show ?thesis by blast
qed

theorem from_cli_argument_inverts_names_witness:
  "from_cli_argument ''file'' = Inr FILES \<and>
   from_cli_argument ''files'' = Inr FILES \<and>
   from_cli_argument ''extractor'' = Inr EXTRACTORS \<and>
   from_cli_argument ''foo'' = Inl (ValueError ''foos'') \<and>
   from_cli_argument ''bus'' = Inl (ValueError ''bus'')"
proof -
  have a: "''foos'' \<notin> set (map pt_value PluginType_members)"
    by (simp add: PluginType_members_def)
  have b: "''bus'' \<notin> set (map pt_value PluginType_members)"
    by (simp add: PluginType_members_def)
  show ?thesis
    using from_cli_argument_inverts_names [of FILES "''foo''"]
      from_cli_argument_inverts_names [of EXTRACTORS "''bus''"] a b
    by (simp add: singular_def endswith_s_def PluginType_of_value_def PluginType_members_def)
qed

text \<open>
  C4. For all strings, the pattern of \<open>SelectService.update\<close> is \<open>"!"\<close>, the
  entities filter, a dot and the attributes filter when \<open>exclude\<close> is true, and the same
  without the \<open>"!"\<close> when it is false; \<open>("users", "id", exclude=True)\<close> gives
  \<open>"!users.id"\<close>. \<open>update\<close> stores exactly that string: on an extractor without a
  select list and with no active environment it leaves the one-element list of the
  pattern and persists it with \<open>update_plugin\<close>.
\<close>

theorem get_pattern_string_shape:
  "get_pattern_string entities_filter attributes_filter True
     = ''!'' @ entities_filter @ ''.'' @ attributes_filter \<and>
   get_pattern_string entities_filter attributes_filter False
     = entities_filter @ ''.'' @ attributes_filter \<and>
   get_pattern_string ''users'' ''id'' True = ''!users.id'' \<and>
   update entities_filter attributes_filter exclude False
       \<lparr>extractor_extras = [], environment = None, persisted = []\<rparr>
     = (\<lparr>extractor_extras =
            [(''select'', PList [PStr ((if exclude then ''!'' else [])
                                       @ entities_filter @ ''.'' @ attributes_filter)])],
         environment = None,
         persisted =
            [Update_plugin
              [(''select'', PList [PStr ((if exclude then ''!'' else [])
                                       @ entities_filter @ ''.'' @ attributes_filter)])]]\<rparr>,
        None)"
  by (simp add: get_pattern_string_def update_def dict_get_def target_extras_def
      store_select_def dict_set_def Let_def)

theorem get_pattern_string_shape_witness:
  "get_pattern_string ''users'' ''*'' False = ''users.*'' \<and>
   get_pattern_string ''users'' ''id'' True = ''!users.id'' \<and>
   fst (update ''users'' ''*'' False False
       \<lparr>extractor_extras = [], environment = None, persisted = []\<rparr>)
     = \<lparr>extractor_extras = [(''select'', PList [PStr ''users.*''])],
        environment = None,
        persisted = [Update_plugin [(''select'', PList [PStr ''users.*''])]]\<rparr>"
  using get_pattern_string_shape [of "''users''" "''*''" False]
  by simp

text \<open>
  C10. When \<open>SelectService.update\<close> is called with \<open>remove=True\<close> and the pattern is
  not in the select list of the target config (the list read with \<open>get("select", [])\<close>,
  so an absent list counts as empty), the call ends with the ValueError of
  \<open>list.remove\<close> and the state is the one it started from: the extras of the extractor
  and of the environment's config are as they were, \<open>extras["select"]\<close> is not
  rewritten, and neither \<open>update_plugin\<close> nor \<open>update_environment_plugin\<close> is called.
\<close>

theorem update_remove_missing_leaves_state:
  assumes "dict_get (target_extras s) ''select'' (PList []) = PList patterns"
      and "PStr (get_pattern_string e a x) \<notin> set patterns"
  shows "update e a x True s = (s, Some (ValueError (get_pattern_string e a x))) \<and>
         extractor_extras (fst (update e a x True s)) = extractor_extras s \<and>
         environment (fst (update e a x True s)) = environment s \<and>
         persisted (fst (update e a x True s)) = persisted s"
  using assms by (simp add: update_def)

theorem update_remove_missing_leaves_state_witness:
  "update ''users'' ''*'' False True
      \<lparr>extractor_extras = [(''select'', PList [PStr ''a.b''])],
       environment = Some [(''select'', PList [PStr ''!users.*''])],
       persisted = [Update_plugin []]\<rparr>
     = (\<lparr>extractor_extras = [(''select'', PList [PStr ''a.b''])],
         environment = Some [(''select'', PList [PStr ''!users.*''])],
         persisted = [Update_plugin []]\<rparr>,
        Some (ValueError ''users.*''))"
  using update_remove_missing_leaves_state
    [of "\<lparr>extractor_extras = [(''select'', PList [PStr ''a.b''])],
          environment = Some [(''select'', PList [PStr ''!users.*''])],
          persisted = [Update_plugin []]\<rparr>" "[PStr ''!users.*'']" "''users''" "''*''" False]
  by (simp add: dict_get_def target_extras_def get_pattern_string_def)

text \<open>
  C5, as amended. With \<open>remove=False\<close>, \<open>update\<close> appends the pattern to the select
  list of the target config (an absent list counts as empty) and stores the list under
  \<open>select\<close>. With \<open>remove=True\<close> it deletes the first element equal to the pattern,
  and raises ValueError, changing nothing, when there is none. Appending a pattern and
  then removing it succeeds and leaves the appended list with its first element equal to
  the pattern deleted. That is the list as it was before the append exactly when the
  original list holds, from the first occurrence of the pattern on, nothing but that
  pattern: so when the pattern was not in the list, and also when it stood only at the
  end. Otherwise the earlier occurrence is the one deleted and the appended copy stays
  at the end; the list then holds every pattern as many times as before the append, in
  another order. The claim as stated (the list is always as before) fails there: from
  \<open>["users.*", "x.y"]\<close> the two calls leave \<open>["x.y", "users.*"]\<close>.
\<close>

theorem update_append_and_remove:
  assumes "dict_get (target_extras s) ''select'' (PList []) = PList patterns"
  shows "update e a x False s
           = (store_select s (patterns @ [PStr (get_pattern_string e a x)]), None) \<and>
         dict_get (target_extras (fst (update e a x False s))) ''select'' (PList [])
           = PList (patterns @ [PStr (get_pattern_string e a x)]) \<and>
         (PStr (get_pattern_string e a x) \<in> set patterns \<longrightarrow>
            snd (update e a x True s) = None \<and>
            dict_get (target_extras (fst (update e a x True s))) ''select'' (PList [])
              = PList (remove1 (PStr (get_pattern_string e a x)) patterns)) \<and>
         (PStr (get_pattern_string e a x) \<notin> set patterns \<longrightarrow>
            update e a x True s = (s, Some (ValueError (get_pattern_string e a x)))) \<and>
         snd (update e a x True (fst (update e a x False s))) = None \<and>
         dict_get (target_extras (fst (update e a x True (fst (update e a x False s)))))
             ''select'' (PList [])
           = PList (remove1 (PStr (get_pattern_string e a x))
                      (patterns @ [PStr (get_pattern_string e a x)])) \<and>
         (dict_get (target_extras (fst (update e a x True (fst (update e a x False s)))))
             ''select'' (PList []) = PList patterns
            \<longleftrightarrow> (\<forall>y \<in> set (dropWhile (\<lambda>y. y \<noteq> PStr (get_pattern_string e a x)) patterns).
                   y = PStr (get_pattern_string e a x))) \<and>
         (PStr (get_pattern_string e a x) \<notin> set patterns \<longrightarrow>
            dict_get (target_extras (fst (update e a x True (fst (update e a x False s)))))
              ''select'' (PList []) = PList patterns) \<and>
         (PStr (get_pattern_string e a x) \<in> set patterns \<longrightarrow>
            dict_get (target_extras (fst (update e a x True (fst (update e a x False s)))))
              ''select'' (PList [])
              = PList (remove1 (PStr (get_pattern_string e a x)) patterns
                       @ [PStr (get_pattern_string e a x)])) \<and>
         (\<forall>q. count_list (remove1 (PStr (get_pattern_string e a x))
                           (patterns @ [PStr (get_pattern_string e a x)])) q
               = count_list patterns q)"
proof -
  let ?p = "PStr (get_pattern_string e a x)"
  let ?s1 = "store_select s (patterns @ [?p])"
  let ?after = "dict_get (target_extras (fst (update e a x True (fst (update e a x False s)))))
             ''select'' (PList [])"
  have app: "update e a x False s = (?s1, None)"
    using assms by (rule update_append)
  have sel1: "dict_get (target_extras ?s1) ''select'' (PList []) = PList (patterns @ [?p])"
    by (rule select_after_store)
  have rem1: "update e a x True ?s1 = (store_select ?s1 (remove1 ?p (patterns @ [?p])), None)"
    using sel1 by (rule update_remove_present) simp
  have after: "?after = PList (remove1 ?p (patterns @ [?p]))"
    by (simp add: app rem1 select_after_store)
  have c1: "snd (update e a x True (fst (update e a x False s))) = None"
    by (simp add: app rem1)
  have c2: "dict_get (target_extras (fst (update e a x False s))) ''select'' (PList [])
           = PList (patterns @ [?p])"
    by (simp add: app sel1)
  have present: "?p \<in> set patterns \<longrightarrow>
            snd (update e a x True s) = None \<and>
            dict_get (target_extras (fst (update e a x True s))) ''select'' (PList [])
              = PList (remove1 ?p patterns)"
    using update_remove_present [OF assms] by (simp add: select_after_store)
  have absent: "?p \<notin> set patterns \<longrightarrow>
      update e a x True s = (s, Some (ValueError (get_pattern_string e a x)))"
    using update_remove_absent [OF assms] by simp
  have same: "?after = PList patterns
      \<longleftrightarrow> (\<forall>y \<in> set (dropWhile (\<lambda>y. y \<noteq> ?p) patterns). y = ?p)"
    unfolding after using remove1_appended_same [of ?p patterns] by simp
  have fresh: "?p \<notin> set patterns \<longrightarrow> ?after = PList patterns"
    unfolding after by (simp add: remove1_appended)
  have again: "?p \<in> set patterns \<longrightarrow> ?after = PList (remove1 ?p patterns @ [?p])"
    unfolding after by (simp add: remove1_appended)
  have cnt: "\<forall>q. count_list (remove1 ?p (patterns @ [?p])) q = count_list patterns q"
    by (simp only: count_list_remove1_appended simp_thms)
  from app c2 present absent c1 after same fresh again cnt show ?thesis
    by (intro conjI)
qed

theorem update_append_and_remove_witness:
  "dict_get (target_extras (fst (update ''users'' ''*'' False False
       \<lparr>extractor_extras = [], environment = None, persisted = []\<rparr>))) ''select'' (PList [])
     = PList [PStr ''users.*''] \<and>
   dict_get (target_extras (fst (update ''users'' ''*'' False True
     (fst (update ''users'' ''*'' False False
       \<lparr>extractor_extras = [], environment = None, persisted = []\<rparr>))))) ''select'' (PList [])
     = PList [] \<and>
   update ''users'' ''*'' False True
       \<lparr>extractor_extras = [], environment = None, persisted = []\<rparr>
     = (\<lparr>extractor_extras = [], environment = None, persisted = []\<rparr>,
        Some (ValueError ''users.*'')) \<and>
   dict_get (target_extras (fst (update ''users'' ''*'' False True
     (fst (update ''users'' ''*'' False False
       \<lparr>extractor_extras = [(''select'', PList [PStr ''x.y'', PStr ''users.*''])],
        environment = None, persisted = []\<rparr>))))) ''select'' (PList [])
     = PList [PStr ''x.y'', PStr ''users.*'']"
proof -
  let ?s0 = "\<lparr>extractor_extras = [], environment = None, persisted = []\<rparr>"
  let ?s2 = "\<lparr>extractor_extras = [(''select'', PList [PStr ''x.y'', PStr ''users.*''])],
        environment = None, persisted = []\<rparr>"
  have h: "dict_get (target_extras ?s0) ''select'' (PList []) = PList []"
    by (simp add: dict_get_def target_extras_def)
  have h2: "dict_get (target_extras ?s2) ''select'' (PList [])
             = PList [PStr ''x.y'', PStr ''users.*'']"
    by (simp add: dict_get_def target_extras_def)
  have p: "get_pattern_string ''users'' ''*'' False = ''users.*''"
    by (simp add: get_pattern_string_def)
  note t = update_append_and_remove [OF h, of "''users''" "''*''" False, unfolded p]
  note t2 = update_append_and_remove [OF h2, of "''users''" "''*''" False, unfolded p]
  have a: "dict_get (target_extras (fst (update ''users'' ''*'' False False ?s0)))
             ''select'' (PList []) = PList [PStr ''users.*'']"
    using t [THEN conjunct2, THEN conjunct1] by simp
  have b: "dict_get (target_extras (fst (update ''users'' ''*'' False True
             (fst (update ''users'' ''*'' False False ?s0))))) ''select'' (PList []) = PList []"
    using t [THEN conjunct2, THEN conjunct2, THEN conjunct2, THEN conjunct2, THEN conjunct2,
             THEN conjunct1] by simp
  have c: "update ''users'' ''*'' False True ?s0 = (?s0, Some (ValueError ''users.*''))"
    using t [THEN conjunct2, THEN conjunct2, THEN conjunct2, THEN conjunct1] by simp
  have d: "dict_get (target_extras (fst (update ''users'' ''*'' False True
             (fst (update ''users'' ''*'' False False ?s2))))) ''select'' (PList [])
           = PList [PStr ''x.y'', PStr ''users.*'']"
    using t2 [THEN conjunct2, THEN conjunct2, THEN conjunct2, THEN conjunct2, THEN conjunct2,
              THEN conjunct2, THEN conjunct1] by simp
  from a b c d show ?thesis by (intro conjI)
qed

theorem update_append_then_remove_counterexample:
  "dict_get (target_extras
       \<lparr>extractor_extras = [(''select'', PList [PStr ''users.*'', PStr ''x.y''])],
        environment = None, persisted = []\<rparr>) ''select'' (PList [])
     = PList [PStr ''users.*'', PStr ''x.y''] \<and>
   snd (update ''users'' ''*'' False True
     (fst (update ''users'' ''*'' False False
       \<lparr>extractor_extras = [(''select'', PList [PStr ''users.*'', PStr ''x.y''])],
        environment = None, persisted = []\<rparr>))) = None \<and>
   dict_get (target_extras (fst (update ''users'' ''*'' False True
     (fst (update ''users'' ''*'' False False
       \<lparr>extractor_extras = [(''select'', PList [PStr ''users.*'', PStr ''x.y''])],
        environment = None, persisted = []\<rparr>))))) ''select'' (PList [])
     = PList [PStr ''x.y'', PStr ''users.*''] \<and>
   PList [PStr ''x.y'', PStr ''users.*''] \<noteq> PList [PStr ''users.*'', PStr ''x.y'']"
  by (simp add: update_def dict_get_def target_extras_def get_pattern_string_def
      store_select_def dict_set_def Let_def)

text \<open>
  C8. For every BasePlugin (a definition and a variant, the variant's extras being a dict,
  that is, with no key twice), the computed \<open>extras\<close> is the definition's extras
  overridden key by key by the variant's extras: as a mapping it is the definition's
  extras updated with the variant's, so every key of the variant's extras has the
  variant's value, every other key has what the definition's extras give it, the keys are
  those of the two dicts and no others, and no key occurs twice.
\<close>

theorem extras_variant_overrides_definition:
  assumes "distinct (map fst (v_extras (bp_variant p)))"
  shows "map_of (extras p)
           = map_of (pd_extras (bp_plugin_def p)) ++ map_of (v_extras (bp_variant p)) \<and>
         (\<forall>k v. map_of (v_extras (bp_variant p)) k = Some v \<longrightarrow> map_of (extras p) k = Some v) \<and>
         (\<forall>k. k \<notin> fst ` set (v_extras (bp_variant p)) \<longrightarrow>
               map_of (extras p) k = map_of (pd_extras (bp_plugin_def p)) k) \<and>
         fst ` set (extras p)
           = fst ` set (pd_extras (bp_plugin_def p)) \<union> fst ` set (v_extras (bp_variant p)) \<and>
         (distinct (map fst (pd_extras (bp_plugin_def p))) \<longrightarrow> distinct (map fst (extras p)))"
proof -
  let ?d = "pd_extras (bp_plugin_def p)" and ?v = "v_extras (bp_variant p)"
  have m: "map_of (extras p) = map_of ?d ++ map_of ?v"
    using assms by (simp add: extras_def map_of_dict_merge)
  have a: "\<forall>k v. map_of ?v k = Some v \<longrightarrow> map_of (extras p) k = Some v"
    by (simp add: m)
  have b: "\<forall>k. k \<notin> fst ` set ?v \<longrightarrow> map_of (extras p) k = map_of ?d k"
    by (auto simp: m map_add_def image_iff split: option.splits dest!: map_of_SomeD)
  have c: "fst ` set (extras p) = fst ` set ?d \<union> fst ` set ?v"
    by (simp add: extras_def keys_dict_merge)
  have d: "distinct (map fst ?d) \<longrightarrow> distinct (map fst (extras p))"
    by (simp add: extras_def distinct_dict_merge)
  from m a b c d show ?thesis by blast
qed

theorem extras_variant_overrides_definition_witness:
  "map_of (extras
      \<lparr>bp_plugin_def = (PluginDefinition_of EXTRACTORS ''tap-x'' ''tap_x'' [Variant_named ''v1''])
                         \<lparr>pd_extras := [(''a'', PInt 1), (''b'', PInt 2)]\<rparr>,
       bp_variant = (Variant_named ''v1'')\<lparr>v_extras := [(''b'', PInt 3), (''c'', PInt 4)]\<rparr>\<rparr>)
     = [''a'' \<mapsto> PInt 1, ''b'' \<mapsto> PInt 3, ''c'' \<mapsto> PInt 4] \<and>
   extras
      \<lparr>bp_plugin_def = (PluginDefinition_of EXTRACTORS ''tap-x'' ''tap_x'' [Variant_named ''v1''])
                         \<lparr>pd_extras := [(''a'', PInt 1), (''b'', PInt 2)]\<rparr>,
       bp_variant = (Variant_named ''v1'')\<lparr>v_extras := [(''b'', PInt 3), (''c'', PInt 4)]\<rparr>\<rparr>
     = [(''a'', PInt 1), (''b'', PInt 3), (''c'', PInt 4)]"
proof -
  let ?p = "\<lparr>bp_plugin_def = (PluginDefinition_of EXTRACTORS ''tap-x'' ''tap_x'' [Variant_named ''v1''])
                         \<lparr>pd_extras := [(''a'', PInt 1), (''b'', PInt 2)]\<rparr>,
       bp_variant = (Variant_named ''v1'')\<lparr>v_extras := [(''b'', PInt 3), (''c'', PInt 4)]\<rparr>\<rparr>"
  have h: "distinct (map fst (v_extras (bp_variant ?p)))" by simp
  have e: "extras ?p = [(''a'', PInt 1), (''b'', PInt 3), (''c'', PInt 4)]"
    by (simp add: extras_def dict_merge_def dict_set_def PluginDefinition_of_def)
  have "map_of (extras ?p) = [''a'' \<mapsto> PInt 1, ''b'' \<mapsto> PInt 3, ''c'' \<mapsto> PInt 4]"
    using extras_variant_overrides_definition [OF h, THEN conjunct1]
    by (auto simp: PluginDefinition_of_def fun_eq_iff map_add_def)
  with e show ?thesis by blast
qed

text \<open>
  C9. \<open>extra_settings\<close> works from the merged extras with an underscore put before every
  key. Its result starts with the declared settings of \<open>EXTRA_SETTINGS\<close>, all of them and
  in declaration order, each under its own name: a declared setting whose name is a
  prefixed key with a default (a value other than None) is bound to that default, any
  other declared setting is included as it is. Whatever \<open>from_missing\<close> synthesizes
  from the declared settings and the prefixed defaults comes after all of them.
\<close>

theorem extra_settings_declared_first:
  "take (length EXTRA_SETTINGS) (extra_settings EXTRA_SETTINGS from_missing p)
     = map (bind_default (prefixed_defaults (extras p))) EXTRA_SETTINGS \<and>
   map sd_name (take (length EXTRA_SETTINGS) (extra_settings EXTRA_SETTINGS from_missing p))
     = map sd_name EXTRA_SETTINGS \<and>
   drop (length EXTRA_SETTINGS) (extra_settings EXTRA_SETTINGS from_missing p)
     = from_missing (take (length EXTRA_SETTINGS) (extra_settings EXTRA_SETTINGS from_missing p))
         (prefixed_defaults (extras p)) \<and>
   prefixed_defaults (extras p) = map (\<lambda>(k, v). (''_'' @ k, v)) (extras p) \<and>
   (\<forall>i < length EXTRA_SETTINGS. \<forall>k v.
      sd_name (EXTRA_SETTINGS ! i) = ''_'' @ k \<and> map_of (extras p) k = Some v \<and> v \<noteq> PNone \<longrightarrow>
      extra_settings EXTRA_SETTINGS from_missing p ! i = (EXTRA_SETTINGS ! i)\<lparr>sd_value := v\<rparr>) \<and>
   (\<forall>i < length EXTRA_SETTINGS.
      (\<forall>k. sd_name (EXTRA_SETTINGS ! i) = ''_'' @ k \<longrightarrow>
           map_of (extras p) k = None \<or> map_of (extras p) k = Some PNone) \<longrightarrow>
      extra_settings EXTRA_SETTINGS from_missing p ! i = EXTRA_SETTINGS ! i)"
proof -
  let ?d = "prefixed_defaults (extras p)"
  let ?ex = "map (bind_default ?d) EXTRA_SETTINGS"
  have r: "extra_settings EXTRA_SETTINGS from_missing p = ?ex @ from_missing ?ex ?d"
    by (simp add: extra_settings_def Let_def)
  have t: "take (length EXTRA_SETTINGS) (extra_settings EXTRA_SETTINGS from_missing p) = ?ex"
    by (simp add: r)
  have n: "map sd_name ?ex = map sd_name EXTRA_SETTINGS"
    by (simp add: bind_default_name)
  have dr: "drop (length EXTRA_SETTINGS) (extra_settings EXTRA_SETTINGS from_missing p)
             = from_missing ?ex ?d"
    by (simp add: r)
  have nth: "extra_settings EXTRA_SETTINGS from_missing p ! i = bind_default ?d (EXTRA_SETTINGS ! i)"
    if "i < length EXTRA_SETTINGS" for i
    using that by (simp add: r nth_append)
  have bound: "\<forall>i < length EXTRA_SETTINGS. \<forall>k v.
      sd_name (EXTRA_SETTINGS ! i) = ''_'' @ k \<and> map_of (extras p) k = Some v \<and> v \<noteq> PNone \<longrightarrow>
      extra_settings EXTRA_SETTINGS from_missing p ! i = (EXTRA_SETTINGS ! i)\<lparr>sd_value := v\<rparr>"
    using nth bind_default_bound by metis
  have unbound: "\<forall>i < length EXTRA_SETTINGS.
      (\<forall>k. sd_name (EXTRA_SETTINGS ! i) = ''_'' @ k \<longrightarrow>
           map_of (extras p) k = None \<or> map_of (extras p) k = Some PNone) \<longrightarrow>
      extra_settings EXTRA_SETTINGS from_missing p ! i = EXTRA_SETTINGS ! i"
    using nth bind_default_unbound by metis
  show ?thesis
    unfolding t dr using n bound unbound by (simp add: prefixed_defaults_def)
qed

theorem extra_settings_declared_first_witness:
  "extra_settings
      [\<lparr>sd_name = ''_catalog'', sd_value = PNone, sd_attrs = []\<rparr>,
       \<lparr>sd_name = ''_select'', sd_value = PList [PStr ''*.*''], sd_attrs = []\<rparr>]
      (\<lambda>defs cfg. map (\<lambda>(k, v). \<lparr>sd_name = k, sd_value = v, sd_attrs = []\<rparr>)
                      (filter (\<lambda>(k, v). k \<notin> set (map sd_name defs)) cfg))
      \<lparr>bp_plugin_def = (PluginDefinition_of EXTRACTORS ''tap-x'' ''tap_x'' [Variant_named ''v1''])
                         \<lparr>pd_extras := [(''select'', PList [PStr ''users.*'']), (''foo'', PInt 1)]\<rparr>,
       bp_variant = Variant_named ''v1''\<rparr>
     = [\<lparr>sd_name = ''_catalog'', sd_value = PNone, sd_attrs = []\<rparr>,
        \<lparr>sd_name = ''_select'', sd_value = PList [PStr ''users.*''], sd_attrs = []\<rparr>,
        \<lparr>sd_name = ''_foo'', sd_value = PInt 1, sd_attrs = []\<rparr>]"
proof -
  let ?ES = "[\<lparr>sd_name = ''_catalog'', sd_value = PNone, sd_attrs = []\<rparr>,
       \<lparr>sd_name = ''_select'', sd_value = PList [PStr ''*.*''], sd_attrs = []\<rparr>]"
  let ?fm = "\<lambda>defs cfg. map (\<lambda>(k, v). \<lparr>sd_name = k, sd_value = v, sd_attrs = []\<rparr>)
                      (filter (\<lambda>(k, v). k \<notin> set (map sd_name defs)) cfg)"
  let ?p = "\<lparr>bp_plugin_def = (PluginDefinition_of EXTRACTORS ''tap-x'' ''tap_x'' [Variant_named ''v1''])
                         \<lparr>pd_extras := [(''select'', PList [PStr ''users.*'']), (''foo'', PInt 1)]\<rparr>,
       bp_variant = Variant_named ''v1''\<rparr>"
  have e: "extras ?p = [(''select'', PList [PStr ''users.*'']), (''foo'', PInt 1)]"
    by (simp add: extras_def dict_merge_def PluginDefinition_of_def Variant_named_def)
  have b: "map (bind_default (prefixed_defaults (extras ?p))) ?ES
             = [\<lparr>sd_name = ''_catalog'', sd_value = PNone, sd_attrs = []\<rparr>,
                \<lparr>sd_name = ''_select'', sd_value = PList [PStr ''users.*''], sd_attrs = []\<rparr>]"
    unfolding e by (simp add: prefixed_defaults_def bind_default_def dict_get_def with_attrs_value_def)
  note t = extra_settings_declared_first [of ?ES ?fm ?p]
  have tk: "take (length ?ES) (extra_settings ?ES ?fm ?p)
             = [\<lparr>sd_name = ''_catalog'', sd_value = PNone, sd_attrs = []\<rparr>,
                \<lparr>sd_name = ''_select'', sd_value = PList [PStr ''users.*''], sd_attrs = []\<rparr>]"
    using t [THEN conjunct1] unfolding b .
  have dr: "drop (length ?ES) (extra_settings ?ES ?fm ?p)
             = [\<lparr>sd_name = ''_foo'', sd_value = PInt 1, sd_attrs = []\<rparr>]"
    using t [THEN conjunct2, THEN conjunct2, THEN conjunct1] unfolding tk e
    by (simp add: prefixed_defaults_def)
  have "extra_settings ?ES ?fm ?p
          = take (length ?ES) (extra_settings ?ES ?fm ?p) @ drop (length ?ES) (extra_settings ?ES ?fm ?p)"
    by (simp only: append_take_drop_id)
  then show ?thesis unfolding tk dr by simp
qed

text \<open>
  C3, as amended. For every PluginDefinition whose variant names are strings or None and
  every name that no variant has, \<open>get_variant\<close> raises VariantNotFoundError. The error
  carries the definition and the requested name, and its message is the capitalised
  descriptor of the type, the plugin name and the requested name in quotes,
  \<open>is not known to Meltano. Variants: \<close> and one entry per variant, in order and joined
  with commas: the variant's name (\<open>original\<close> for a variant without a name), followed
  by \<open>(default)\<close> for the variant at index 0 and by \<open>(deprecated)\<close> for a variant at
  any later index whose deprecated attribute is set. The claim as stated has every
  deprecated variant annotated; the loop tests \<open>i == 0\<close> first and \<open>variant.deprecated\<close>
  in the \<open>elif\<close>, so a deprecated variant at index 0 is listed with \<open>(default)\<close> only.
\<close>

theorem get_variant_unknown_name_message:
  assumes "\<forall>v \<in> set (variants d). v_name v \<noteq> PStr n"
      and "\<forall>v \<in> set (variants d). v_name v = PNone \<or> (\<exists>s. v_name v = PStr s)"
  shows "\<exists>names.
           get_variant d n
             = Inl (VariantNotFoundError d n
                 (capitalize (descriptor (pd_type d)) @ '' '' @ [CHR 0x27] @ pd_name d @ [CHR 0x27]
                    @ '' variant '' @ [CHR 0x27] @ n @ [CHR 0x27]
                    @ '' is not known to Meltano. Variants: '' @ join '', '' names)) \<and>
           length names = length (variants d) \<and>
           (\<forall>i < length (variants d).
              names ! i =
                (case v_name (variants d ! i) of
                   PStr s \<Rightarrow> (if s = [] then ''original'' else s)
                 | _ \<Rightarrow> ''original'')
                @ (if i = 0 then '' (default)''
                   else if truthy (deprecated (variants d ! i)) then '' (deprecated)''
                   else []))"
proof -
  let ?names = "map (\<lambda>j. annotated_name j (variants d ! j)) [0..<length (variants d)]"
  have l: "list_variant_names d = Inr (join '', '' ?names)"
    using assms(2) by (rule list_variant_names_typed)
  have g: "get_variant d n = Inl (VariantNotFoundError_init d n)"
    using assms(1) by (rule get_variant_absent)
  have e: "VariantNotFoundError_init d n
             = VariantNotFoundError d n
                 (capitalize (descriptor (pd_type d)) @ '' '' @ [CHR 0x27] @ pd_name d @ [CHR 0x27]
                    @ '' variant '' @ [CHR 0x27] @ n @ [CHR 0x27]
                    @ '' is not known to Meltano. Variants: '' @ join '', '' ?names)"
    by (simp add: VariantNotFoundError_init_def l not_known_message_def)
  have len: "length ?names = length (variants d)" by simp
  have nth: "\<forall>i < length (variants d).
              ?names ! i =
                (case v_name (variants d ! i) of
                   PStr s \<Rightarrow> (if s = [] then ''original'' else s)
                 | _ \<Rightarrow> ''original'')
                @ (if i = 0 then '' (default)''
                   else if truthy (deprecated (variants d ! i)) then '' (deprecated)''
                   else [])"
    by (simp add: annotated_name_def)
  from g e len nth show ?thesis by (intro exI [of _ ?names]) (simp only: simp_thms)
qed

theorem get_variant_unknown_name_message_witness:
  "get_variant
     (PluginDefinition_of EXTRACTORS ''tap-x'' ''tap_x''
        [Variant_named ''meltano'',
         (Variant_named ''old'')\<lparr>deprecated := PBool True\<rparr>,
         (Variant_named [])\<lparr>v_name := PNone\<rparr>])
     ''missing''
   = Inl (VariantNotFoundError
       (PluginDefinition_of EXTRACTORS ''tap-x'' ''tap_x''
          [Variant_named ''meltano'',
           (Variant_named ''old'')\<lparr>deprecated := PBool True\<rparr>,
           (Variant_named [])\<lparr>v_name := PNone\<rparr>])
       ''missing''
       ''Extractor 'tap-x' variant 'missing' is not known to Meltano. Variants: meltano (default), old (deprecated), original'')"
proof -
  let ?d = "PluginDefinition_of EXTRACTORS ''tap-x'' ''tap_x''
        [Variant_named ''meltano'',
         (Variant_named ''old'')\<lparr>deprecated := PBool True\<rparr>,
         (Variant_named [])\<lparr>v_name := PNone\<rparr>]"
  have h1: "\<forall>v \<in> set (variants ?d). v_name v \<noteq> PStr ''missing''"
    by (simp add: PluginDefinition_of_def Variant_named_def)
  have h2: "\<forall>v \<in> set (variants ?d). v_name v = PNone \<or> (\<exists>s. v_name v = PStr s)"
    by (simp add: PluginDefinition_of_def Variant_named_def)
  from get_variant_unknown_name_message [OF h1 h2]
  obtain names where
    g: "get_variant ?d ''missing''
          = Inl (VariantNotFoundError ?d ''missing''
              (capitalize (descriptor (pd_type ?d)) @ '' '' @ [CHR 0x27] @ pd_name ?d @ [CHR 0x27]
                 @ '' variant '' @ [CHR 0x27] @ ''missing'' @ [CHR 0x27]
                 @ '' is not known to Meltano. Variants: '' @ join '', '' names))"
    and len: "length names = length (variants ?d)"
    and nth: "\<forall>i < length (variants ?d).
              names ! i =
                (case v_name (variants ?d ! i) of
                   PStr s \<Rightarrow> (if s = [] then ''original'' else s)
                 | _ \<Rightarrow> ''original'')
                @ (if i = 0 then '' (default)''
                   else if truthy (deprecated (variants ?d ! i)) then '' (deprecated)''
                   else [])"
    by blast
  have l3: "length names = 3"
    using len by (simp add: PluginDefinition_of_def)
  have n0: "names ! 0 = ''meltano (default)''"
    using nth [rule_format, of 0] by (simp add: PluginDefinition_of_def Variant_named_def)
  have n1: "names ! 1 = ''old (deprecated)''"
    using nth [rule_format, of 1] by (simp add: PluginDefinition_of_def Variant_named_def)
  have n2: "names ! 2 = ''original''"
    using nth [rule_format, of 2] by (simp add: PluginDefinition_of_def Variant_named_def)
  obtain a b c where abc: "names = [a, b, c]"
    using l3 by (auto simp: numeral_3_eq_3 length_Suc_conv)
  have names: "names = [''meltano (default)'', ''old (deprecated)'', ''original'']"
    using n0 n1 n2 unfolding abc by simp
  have t: "pd_type ?d = EXTRACTORS" and nm: "pd_name ?d = ''tap-x''"
    by (simp_all add: PluginDefinition_of_def)
  show ?thesis
    unfolding g names t nm capitalize_descriptor by simp
qed

theorem get_variant_deprecated_default_counterexample:
  "truthy (deprecated
     (variants (PluginDefinition_of EXTRACTORS ''tap-x'' ''tap_x''
        [(Variant_named ''v0'')\<lparr>deprecated := PBool True\<rparr>]) ! 0)) \<and>
   get_variant
     (PluginDefinition_of EXTRACTORS ''tap-x'' ''tap_x''
        [(Variant_named ''v0'')\<lparr>deprecated := PBool True\<rparr>])
     ''missing''
   = Inl (VariantNotFoundError
       (PluginDefinition_of EXTRACTORS ''tap-x'' ''tap_x''
          [(Variant_named ''v0'')\<lparr>deprecated := PBool True\<rparr>])
       ''missing''
       ''Extractor 'tap-x' variant 'missing' is not known to Meltano. Variants: v0 (default)'')"
  by (simp add: get_variant_def find_named_def VariantNotFoundError_init_def
      list_variant_names_def variant_label_def py_join_def not_known_message_def
      capitalize_descriptor PluginDefinition_of_def Variant_named_def Let_def)

text \<open>
  C1. On a definition with at least one variant (the constructor never leaves the list
  empty), \<open>find_variant\<close> resolves in this order: a Variant instance is returned as it
  is; None and the sentinel \<open>default\<close> give the first variant in declaration order; the
  sentinel \<open>original\<close> gives the first variant whose original flag is set, and the
  first variant in declaration order when no variant is flagged; any other string is
  looked up with \<open>get_variant\<close>, which returns the first variant of exactly that name
  and otherwise raises the error built by \<open>VariantNotFoundError(self, variant_name)\<close>,
  a VariantNotFoundError whenever the variant names are strings or None.
\<close>

theorem find_variant_resolution_order:
  assumes "variants d \<noteq> []"
  shows "find_variant d (SelVariant v) = Inr v \<and>
         find_variant d SelNone = Inr (variants d ! 0) \<and>
         find_variant d (SelName ''default'') = Inr (variants d ! 0) \<and>
         ((\<exists>w \<in> set (variants d). truthy (original w)) \<longrightarrow>
            (\<exists>i < length (variants d).
               truthy (original (variants d ! i)) \<and>
               (\<forall>j < i. \<not> truthy (original (variants d ! j))) \<and>
               find_variant d (SelName ''original'') = Inr (variants d ! i))) \<and>
         ((\<forall>w \<in> set (variants d). \<not> truthy (original w)) \<longrightarrow>
            find_variant d (SelName ''original'') = Inr (variants d ! 0)) \<and>
         (n \<noteq> ''default'' \<and> n \<noteq> ''original'' \<longrightarrow>
            find_variant d (SelName n) = get_variant d n \<and>
            ((\<exists>w \<in> set (variants d). v_name w = PStr n) \<longrightarrow>
               (\<exists>i < length (variants d).
                  v_name (variants d ! i) = PStr n \<and>
                  (\<forall>j < i. v_name (variants d ! j) \<noteq> PStr n) \<and>
                  find_variant d (SelName n) = Inr (variants d ! i))) \<and>
            ((\<forall>w \<in> set (variants d). v_name w \<noteq> PStr n) \<longrightarrow>
               find_variant d (SelName n) = Inl (VariantNotFoundError_init d n) \<and>
               ((\<forall>w \<in> set (variants d). v_name w = PNone \<or> (\<exists>s. v_name w = PStr s)) \<longrightarrow>
                  (\<exists>msg. find_variant d (SelName n) = Inl (VariantNotFoundError d n msg)))))"
proof -
  have fv: "first_variant d = Inr (variants d ! 0)"
    using assms by (simp add: first_variant_hd hd_conv_nth)
  have c1: "find_variant d (SelVariant v) = Inr v" by simp
  have c2: "find_variant d SelNone = Inr (variants d ! 0)" by (simp add: fv)
  have c3: "find_variant d (SelName ''default'') = Inr (variants d ! 0)" by (simp add: fv)
  have c4: "\<exists>i < length (variants d).
               truthy (original (variants d ! i)) \<and>
               (\<forall>j < i. \<not> truthy (original (variants d ! j))) \<and>
               find_variant d (SelName ''original'') = Inr (variants d ! i)"
    if "\<exists>w \<in> set (variants d). truthy (original w)"
  proof -
    from that obtain x where x: "find (\<lambda>v. truthy (original v)) (variants d) = Some x"
      by (cases "find (\<lambda>v. truthy (original v)) (variants d)") (auto simp: find_None_iff)
    from find_first_index [OF x] obtain i where
      "i < length (variants d)" "truthy (original (variants d ! i))" "x = variants d ! i"
      "\<forall>j < i. \<not> truthy (original (variants d ! j))"
      by blast
    moreover have "find_variant d (SelName ''original'') = Inr x" by (simp add: x)
    ultimately show ?thesis by blast
  qed
  have c5: "find_variant d (SelName ''original'') = Inr (variants d ! 0)"
    if "\<forall>w \<in> set (variants d). \<not> truthy (original w)"
  proof -
    from that have "find (\<lambda>v. truthy (original v)) (variants d) = None"
      by (simp add: find_None_iff)
    then show ?thesis by (simp add: fv)
  qed
  have c6: "find_variant d (SelName n) = get_variant d n" if "n \<noteq> ''default''" "n \<noteq> ''original''"
    using that by simp
  have c7: "\<exists>i < length (variants d).
                  v_name (variants d ! i) = PStr n \<and>
                  (\<forall>j < i. v_name (variants d ! j) \<noteq> PStr n) \<and>
                  get_variant d n = Inr (variants d ! i)"
    if "\<exists>w \<in> set (variants d). v_name w = PStr n"
  proof -
    from that obtain x where x: "find (\<lambda>v. v_name v = PStr n) (variants d) = Some x"
      by (cases "find (\<lambda>v. v_name v = PStr n) (variants d)") (auto simp: find_None_iff)
    from find_first_index [OF x] obtain i where
      i: "i < length (variants d)" "v_name (variants d ! i) = PStr n"
      "\<forall>j < i. v_name (variants d ! j) \<noteq> PStr n"
      by blast
    from get_variant_present [OF i] i show ?thesis by blast
  qed
  have c8: "get_variant d n = Inl (VariantNotFoundError_init d n)"
    if "\<forall>w \<in> set (variants d). v_name w \<noteq> PStr n"
    using that by (rule get_variant_absent)
  have c9: "\<exists>msg. VariantNotFoundError_init d n = VariantNotFoundError d n msg"
    if "\<forall>w \<in> set (variants d). v_name w = PNone \<or> (\<exists>s. v_name w = PStr s)"
    using list_variant_names_typed [OF that] by (simp add: VariantNotFoundError_init_def)
  show ?thesis
    using c1 c2 c3 c4 c5 c6 c7 c8 c9 by (simp only: simp_thms) metis
qed

theorem find_variant_resolution_order_witness:
  "find_variant
     (PluginDefinition_of EXTRACTORS ''tap-x'' ''tap_x''
        [Variant_named ''meltano'', (Variant_named ''singer-io'')\<lparr>original := PBool True\<rparr>])
     (SelVariant (Variant_named ''other''))
     = Inr (Variant_named ''other'') \<and>
   find_variant
     (PluginDefinition_of EXTRACTORS ''tap-x'' ''tap_x''
        [Variant_named ''meltano'', (Variant_named ''singer-io'')\<lparr>original := PBool True\<rparr>])
     SelNone
     = Inr (Variant_named ''meltano'') \<and>
   find_variant
     (PluginDefinition_of EXTRACTORS ''tap-x'' ''tap_x''
        [Variant_named ''meltano'', (Variant_named ''singer-io'')\<lparr>original := PBool True\<rparr>])
     (SelName ''default'')
     = Inr (Variant_named ''meltano'') \<and>
   find_variant
     (PluginDefinition_of EXTRACTORS ''tap-x'' ''tap_x''
        [Variant_named ''meltano'', (Variant_named ''singer-io'')\<lparr>original := PBool True\<rparr>])
     (SelName ''original'')
     = Inr ((Variant_named ''singer-io'')\<lparr>original := PBool True\<rparr>) \<and>
   find_variant
     (PluginDefinition_of EXTRACTORS ''tap-x'' ''tap_x'' [Variant_named ''meltano'', Variant_named ''b''])
     (SelName ''original'')
     = Inr (Variant_named ''meltano'') \<and>
   find_variant
     (PluginDefinition_of EXTRACTORS ''tap-x'' ''tap_x''
        [Variant_named ''meltano'', (Variant_named ''singer-io'')\<lparr>original := PBool True\<rparr>])
     (SelName ''singer-io'')
     = Inr ((Variant_named ''singer-io'')\<lparr>original := PBool True\<rparr>) \<and>
   find_variant
     (PluginDefinition_of EXTRACTORS ''tap-x'' ''tap_x''
        [Variant_named ''meltano'', (Variant_named ''singer-io'')\<lparr>original := PBool True\<rparr>])
     (SelName ''missing'')
     = Inl (VariantNotFoundError
         (PluginDefinition_of EXTRACTORS ''tap-x'' ''tap_x''
            [Variant_named ''meltano'', (Variant_named ''singer-io'')\<lparr>original := PBool True\<rparr>])
         ''missing''
         ''Extractor 'tap-x' variant 'missing' is not known to Meltano. Variants: meltano (default), singer-io'')"
proof -
  let ?s = "(Variant_named ''singer-io'')\<lparr>original := PBool True\<rparr>"
  let ?d = "PluginDefinition_of EXTRACTORS ''tap-x'' ''tap_x'' [Variant_named ''meltano'', ?s]"
  let ?e = "PluginDefinition_of EXTRACTORS ''tap-x'' ''tap_x'' [Variant_named ''meltano'', Variant_named ''b'']"
  have vd: "variants ?d = [Variant_named ''meltano'', ?s]"
    and ve: "variants ?e = [Variant_named ''meltano'', Variant_named ''b'']"
    by (simp_all add: PluginDefinition_of_def)
  have hd: "variants ?d \<noteq> []" and he: "variants ?e \<noteq> []"
    by (simp_all add: vd ve)
  note td = find_variant_resolution_order [OF hd, of "Variant_named ''other''" "''missing''"]
  note te = find_variant_resolution_order [OF he, of "Variant_named ''other''" "''missing''"]
  have a: "find_variant ?d (SelVariant (Variant_named ''other'')) = Inr (Variant_named ''other'')"
    using td by blast
  have b: "find_variant ?d SelNone = Inr (Variant_named ''meltano'')"
    using td [THEN conjunct2, THEN conjunct1] by (simp add: vd)
  have c: "find_variant ?d (SelName ''default'') = Inr (Variant_named ''meltano'')"
    using td [THEN conjunct2, THEN conjunct2, THEN conjunct1] by (simp add: vd)
  have d: "find_variant ?d (SelName ''original'') = Inr ?s"
    by (simp add: PluginDefinition_of_def Variant_named_def)
  have no: "\<forall>w \<in> set (variants ?e). \<not> truthy (original w)"
    by (simp add: PluginDefinition_of_def Variant_named_def)
  have e: "find_variant ?e (SelName ''original'') = Inr (Variant_named ''meltano'')"
    using te no by (simp add: ve)
  have f: "find_variant ?d (SelName ''singer-io'') = Inr ?s"
    by (simp add: PluginDefinition_of_def Variant_named_def get_variant_def find_named_def)
  have nf: "\<forall>w \<in> set (variants ?d). v_name w \<noteq> PStr ''missing''"
    by (simp add: PluginDefinition_of_def Variant_named_def)
  have "find_variant ?d (SelName ''missing'') = Inl (VariantNotFoundError_init ?d ''missing'')"
    using td nf by simp
  moreover have "VariantNotFoundError_init ?d ''missing''
      = VariantNotFoundError ?d ''missing''
         ''Extractor 'tap-x' variant 'missing' is not known to Meltano. Variants: meltano (default), singer-io''"
    by (simp add: VariantNotFoundError_init_def list_variant_names_def variant_label_def py_join_def
        not_known_message_def capitalize_descriptor PluginDefinition_of_def Variant_named_def Let_def)
  ultimately have g: "find_variant ?d (SelName ''missing'')
      = Inl (VariantNotFoundError ?d ''missing''
         ''Extractor 'tap-x' variant 'missing' is not known to Meltano. Variants: meltano (default), singer-io'')"
    by simp
  from a b c d e f g show ?thesis by blast
qed

text \<open>
  C2, as amended. Constructing a PluginDefinition with no variants and flat keywords
  (none of them a parameter of the constructor, the three list keywords iterable and the
  settings parsable) succeeds and gives exactly one Variant: its name is the \<open>variant\<close>
  argument, every attribute of it is the keyword of that name or the default, and its
  extras are empty. Every keyword that is neither a parameter of \<open>Variant.__init__\<close> nor
  one of the four presentation attributes is in the extras of the definition, in the
  order given, and nothing else is. The presentation attributes hidden, label, logo_url
  and description are popped out of the extras by \<open>set_presentation_attrs\<close> and become
  attributes of the definition, so the claim as stated (every keyword that is not a
  Variant field ends up in the extras) fails for them.
\<close>

theorem flat_fields_make_one_variant:
  assumes "\<forall>k \<in> fst ` set kw. k \<notin> set PluginDefinition_params"
      and "py_list (dict_get kw ''capabilities'' (PList [])) = Inr caps"
      and "py_list (dict_get kw ''settings_group_validation'' (PList [])) = Inr sgv"
      and "py_list (dict_get kw ''settings'' (PList [])) = Inr raw"
      and "map_result sd_parse raw = Inr ss"
  shows "\<exists>d v. PluginDefinition_init sd_parse t n ns var [] kw = Inr d \<and>
           pd_type d = t \<and> pd_name d = n \<and> namespace d = ns \<and>
           variants d = [v] \<and>
           v_name v = var \<and>
           original v = dict_get kw ''original'' PNone \<and>
           deprecated v = dict_get kw ''deprecated'' PNone \<and>
           docs v = dict_get kw ''docs'' PNone \<and>
           repo v = dict_get kw ''repo'' PNone \<and>
           pip_url v = dict_get kw ''pip_url'' PNone \<and>
           executable v = dict_get kw ''executable'' PNone \<and>
           capabilities v = caps \<and> settings_group_validation v = sgv \<and> settings v = ss \<and>
           v_extras v = [] \<and>
           pd_extras d
             = filter (\<lambda>(k, _). k \<notin> set Variant_params \<and> k \<notin> set presentation_attrs) kw \<and>
           (\<forall>k x. (k, x) \<in> set kw \<and> k \<notin> set Variant_params \<and> k \<notin> set presentation_attrs
                   \<longrightarrow> (k, x) \<in> set (pd_extras d)) \<and>
           (\<forall>k x. (k, x) \<in> set (pd_extras d)
                   \<longrightarrow> (k, x) \<in> set kw \<and> k \<notin> set Variant_params \<and> k \<notin> set presentation_attrs) \<and>
           hidden d = dict_get kw ''hidden'' PNone \<and>
           label d = dict_get kw ''label'' PNone \<and>
           logo_url d = dict_get kw ''logo_url'' PNone \<and>
           description d = dict_get kw ''description'' PNone"
proof -
  note r = PluginDefinition_init_flat [OF assms, of t n ns var]
  show ?thesis
    unfolding r by (intro exI conjI) (simp_all, auto)
qed

theorem flat_fields_make_one_variant_witness:
  "PluginDefinition_init Inr EXTRACTORS ''tap-x'' ''tap_x'' (PStr ''v1'') []
       [(''pip_url'', PStr ''x''), (''foo'', PStr ''bar'')]
     = Inr ((PluginDefinition_of EXTRACTORS ''tap-x'' ''tap_x''
               [(Variant_named ''v1'')\<lparr>pip_url := PStr ''x''\<rparr>])
            \<lparr>pd_extras := [(''foo'', PStr ''bar'')]\<rparr>)"
proof -
  let ?kw = "[(''pip_url'', PStr ''x''), (''foo'', PStr ''bar'')]"
  have k: "\<forall>k \<in> fst ` set ?kw. k \<notin> set PluginDefinition_params"
    by (simp add: PluginDefinition_params_def)
  have c: "py_list (dict_get ?kw ''capabilities'' (PList [])) = Inr []"
    and g: "py_list (dict_get ?kw ''settings_group_validation'' (PList [])) = Inr []"
    and s: "py_list (dict_get ?kw ''settings'' (PList [])) = Inr []"
    by (simp_all add: dict_get_def)
  have m: "map_result Inr ([] :: pyval list) = Inr []" by simp
  from flat_fields_make_one_variant [OF k c g s m, of EXTRACTORS "''tap-x''" "''tap_x''" "PStr ''v1''"]
  obtain d v where
    i: "PluginDefinition_init Inr EXTRACTORS ''tap-x'' ''tap_x'' (PStr ''v1'') [] ?kw = Inr d"
    and d: "pd_type d = EXTRACTORS" "pd_name d = ''tap-x''" "namespace d = ''tap_x''"
      "variants d = [v]"
      "pd_extras d
         = filter (\<lambda>(k, _). k \<notin> set Variant_params \<and> k \<notin> set presentation_attrs) ?kw"
      "hidden d = dict_get ?kw ''hidden'' PNone" "label d = dict_get ?kw ''label'' PNone"
      "logo_url d = dict_get ?kw ''logo_url'' PNone"
      "description d = dict_get ?kw ''description'' PNone"
    and v: "v_name v = PStr ''v1''" "original v = dict_get ?kw ''original'' PNone"
      "deprecated v = dict_get ?kw ''deprecated'' PNone" "docs v = dict_get ?kw ''docs'' PNone"
      "repo v = dict_get ?kw ''repo'' PNone" "pip_url v = dict_get ?kw ''pip_url'' PNone"
      "executable v = dict_get ?kw ''executable'' PNone"
      "capabilities v = []" "settings_group_validation v = []" "settings v = []"
      "v_extras v = []"
    by blast
  have "v = (Variant_named ''v1'')\<lparr>pip_url := PStr ''x''\<rparr>"
    using v by (cases v) (simp add: Variant_named_def dict_get_def)
  moreover have "d = (PluginDefinition_of EXTRACTORS ''tap-x'' ''tap_x'' (variants d))
                       \<lparr>pd_extras := [(''foo'', PStr ''bar'')]\<rparr>"
    using d by (cases d)
      (simp add: PluginDefinition_of_def dict_get_def Variant_params_def presentation_attrs_def)
  ultimately show ?thesis
    using i d(4) by simp
qed

theorem presentation_keyword_counterexample:
  "''label'' \<notin> set Variant_params \<and>
   PluginDefinition_init Inr EXTRACTORS ''tap-x'' ''tap_x'' (PStr ''v1'') []
       [(''label'', PStr ''Tap X''), (''foo'', PStr ''bar'')]
     = Inr ((PluginDefinition_of EXTRACTORS ''tap-x'' ''tap_x'' [Variant_named ''v1''])
            \<lparr>label := PStr ''Tap X'', pd_extras := [(''foo'', PStr ''bar'')]\<rparr>) \<and>
   (''label'', PStr ''Tap X'')
     \<notin> set (pd_extras
         ((PluginDefinition_of EXTRACTORS ''tap-x'' ''tap_x'' [Variant_named ''v1''])
            \<lparr>label := PStr ''Tap X'', pd_extras := [(''foo'', PStr ''bar'')]\<rparr>))"
  by (simp add: PluginDefinition_init_def PluginDefinition_params_def Variant_init_def
      dict_get_def Variant_params_def PluginDefinition_finish_def dict_pop_def
      PluginDefinition_of_def Variant_named_def)

text \<open>
  C7, as amended. \<open>PluginDefinition.__iter__\<close> replaces the pair \<open>variants\<close> of a
  one-element list by the pairs of that variant, in its place and with \<open>name\<close> renamed to
  \<open>variant\<close>, and passes on every other pair, so a list of another length stays nested
  under \<open>variants\<close>. Over the inherited iteration this gives, for a definition with
  exactly one variant, the attributes of the definition, its extras and then the pairs of
  the variant with \<open>name\<close> written \<open>variant\<close>, and for any other definition the
  attributes, the extras and the nested list.

  The flat form is one mapping for the attributes of the definition, those of the
  variant and the extras of both, so the re-parse is not always the original. It
  succeeds, with a definition of the same name and type (equal by \<open>PluginRef.__eq__\<close>),
  of the same namespace and with one variant, when no extra of the definition or of the
  variant is named like one of \<open>fragile_keys\<close>. It raises TypeError whenever one of
  these extras is named \<open>plugin_type\<close>. It returns the original definition itself
  exactly when the variant has no extras of its own and no extra of the definition has
  one of the \<open>reserved_keys\<close>; every definition built from flat fields is of that
  kind. The claim as stated fails for a variant given as the mapping
  \<open>{"name": "v1", "plugin_type": "x"}\<close>: the extra is inlined next to the fields of the
  definition and the constructor refuses it. The statements about a successful re-parse
  are for an inherited iteration that leaves out only attributes holding their default
  and for settings that parse to themselves.
\<close>

theorem single_variant_is_inlined_and_round_trips:
  "PluginDefinition_iter vi (pre @ (''variants'', Variants [v]) # post)
     = PluginDefinition_iter vi pre
       @ map (\<lambda>(k, x). (if k = ''name'' then ''variant'' else k, Val x)) (vi v)
       @ PluginDefinition_iter vi post \<and>
   ((\<forall>vs. (''variants'', Variants vs) \<in> set xs \<longrightarrow> length vs \<noteq> 1) \<longrightarrow>
      PluginDefinition_iter vi xs = xs) \<and>
   (variants d = [v] \<longrightarrow>
      serialize omit d =
        map (\<lambda>(k, x). (k, Val x))
          (filter (\<lambda>(k, x). \<not> omit k x) (PluginDefinition_attrs d) @ pd_extras d
           @ map (\<lambda>(k, x). (if k = ''name'' then ''variant'' else k, x)) (Variant_iter omit v))) \<and>
   (length (variants d) \<noteq> 1 \<longrightarrow>
      serialize omit d =
        map (\<lambda>(k, x). (k, Val x))
          (filter (\<lambda>(k, x). \<not> omit k x) (PluginDefinition_attrs d) @ pd_extras d)
        @ [(''variants'', Variants (variants d))]) \<and>
   (variants d = [v] \<and>
    (\<forall>k \<in> fst ` set (pd_extras d @ v_extras v). k \<notin> set fragile_keys) \<and>
    (\<forall>s \<in> set (settings v). sd_parse s = Inr s) \<and>
    (\<forall>(k, x) \<in> set (PluginDefinition_attrs d). omit k x \<longrightarrow> x = attr_default k) \<and>
    (\<forall>(k, x) \<in> set (Variant_attrs v). omit k x \<longrightarrow> x = attr_default k) \<longrightarrow>
      (\<exists>d'. reparse sd_parse (pd_type d)
               (filter (\<lambda>(k, x). \<not> omit k x) (PluginDefinition_attrs d) @ pd_extras d
                @ map (\<lambda>(k, x). (if k = ''name'' then ''variant'' else k, x)) (Variant_iter omit v))
             = Inr d' \<and>
            PluginRef_eq d' d \<and> namespace d' = namespace d \<and> length (variants d') = 1)) \<and>
   (variants d = [v] \<and> ''plugin_type'' \<in> fst ` set (pd_extras d @ v_extras v) \<longrightarrow>
      reparse sd_parse (pd_type d)
        (filter (\<lambda>(k, x). \<not> omit k x) (PluginDefinition_attrs d) @ pd_extras d
         @ map (\<lambda>(k, x). (if k = ''name'' then ''variant'' else k, x)) (Variant_iter omit v))
      = Inl TypeError) \<and>
   (variants d = [v] \<and>
    distinct (map fst (pd_extras d)) \<and>
    (\<forall>s \<in> set (settings v). sd_parse s = Inr s) \<and>
    (\<forall>(k, x) \<in> set (PluginDefinition_attrs d). omit k x \<longrightarrow> x = attr_default k) \<and>
    (\<forall>(k, x) \<in> set (Variant_attrs v). omit k x \<longrightarrow> x = attr_default k) \<longrightarrow>
      (reparse sd_parse (pd_type d)
         (filter (\<lambda>(k, x). \<not> omit k x) (PluginDefinition_attrs d) @ pd_extras d
          @ map (\<lambda>(k, x). (if k = ''name'' then ''variant'' else k, x)) (Variant_iter omit v))
       = Inr d
       \<longleftrightarrow> v_extras v = [] \<and> (\<forall>k \<in> fst ` set (pd_extras d). k \<notin> set reserved_keys))) \<and>
   (PluginDefinition_init sd_parse t n ns var [] kw = Inr d \<and>
    distinct (map fst kw) \<and>
    (\<forall>x y. sd_parse x = Inr y \<longrightarrow> sd_parse y = Inr y) \<and>
    (\<forall>(k, x) \<in> set (PluginDefinition_attrs d). omit k x \<longrightarrow> x = attr_default k) \<and>
    (\<forall>w \<in> set (variants d). \<forall>(k, x) \<in> set (Variant_attrs w). omit k x \<longrightarrow> x = attr_default k) \<longrightarrow>
      (\<exists>w. variants d = [w] \<and>
           reparse sd_parse t
             (filter (\<lambda>(k, x). \<not> omit k x) (PluginDefinition_attrs d) @ pd_extras d
              @ map (\<lambda>(k, x). (if k = ''name'' then ''variant'' else k, x)) (Variant_iter omit w))
           = Inr d))"
proof -
  let ?pairs = "filter (\<lambda>(k, x). \<not> omit k x) (PluginDefinition_attrs d) @ pd_extras d
                @ map (\<lambda>(k, x). (if k = ''name'' then ''variant'' else k, x)) (Variant_iter omit v)"
  have a: "PluginDefinition_iter vi (pre @ (''variants'', Variants [v]) # post)
     = PluginDefinition_iter vi pre
       @ map (\<lambda>(k, x). (if k = ''name'' then ''variant'' else k, Val x)) (vi v)
       @ PluginDefinition_iter vi post"
    by (rule PluginDefinition_iter_inlined)
  have b: "(\<forall>vs. (''variants'', Variants vs) \<in> set xs \<longrightarrow> length vs \<noteq> 1) \<longrightarrow>
      PluginDefinition_iter vi xs = xs"
    using PluginDefinition_iter_nested by blast
  have c: "variants d = [v] \<longrightarrow> serialize omit d = map (\<lambda>(k, x). (k, Val x)) ?pairs"
    by (simp add: serialize_cases comp_def case_prod_beta)
  have e: "length (variants d) \<noteq> 1 \<longrightarrow>
      serialize omit d =
        map (\<lambda>(k, x). (k, Val x))
          (filter (\<lambda>(k, x). \<not> omit k x) (PluginDefinition_attrs d) @ pd_extras d)
        @ [(''variants'', Variants (variants d))]"
    by (simp add: serialize_cases)
  have f: "\<exists>d'. reparse sd_parse (pd_type d) ?pairs = Inr d' \<and>
            PluginRef_eq d' d \<and> namespace d' = namespace d \<and> length (variants d') = 1"
    if h: "variants d = [v]"
      "\<forall>k \<in> fst ` set (pd_extras d @ v_extras v). k \<notin> set fragile_keys"
      "\<forall>s \<in> set (settings v). sd_parse s = Inr s"
      "\<forall>(k, x) \<in> set (PluginDefinition_attrs d). omit k x \<longrightarrow> x = attr_default k"
      "\<forall>(k, x) \<in> set (Variant_attrs v). omit k x \<longrightarrow> x = attr_default k"
    using reparse_single_variant_succeeds [OF h(2-5)]
    by (auto simp: PluginRef_eq_def)
  have p: "variants d = [v] \<and> ''plugin_type'' \<in> fst ` set (pd_extras d @ v_extras v) \<longrightarrow>
      reparse sd_parse (pd_type d) ?pairs = Inl TypeError"
    using reparse_plugin_type_extra by blast
  have g: "reparse sd_parse (pd_type d) ?pairs = Inr d
       \<longleftrightarrow> v_extras v = [] \<and> (\<forall>k \<in> fst ` set (pd_extras d). k \<notin> set reserved_keys)"
    if h: "variants d = [v]"
      "distinct (map fst (pd_extras d))"
      "\<forall>s \<in> set (settings v). sd_parse s = Inr s"
      "\<forall>(k, x) \<in> set (PluginDefinition_attrs d). omit k x \<longrightarrow> x = attr_default k"
      "\<forall>(k, x) \<in> set (Variant_attrs v). omit k x \<longrightarrow> x = attr_default k"
  proof
    assume "reparse sd_parse (pd_type d) ?pairs = Inr d"
    with h(1) show "v_extras v = [] \<and> (\<forall>k \<in> fst ` set (pd_extras d). k \<notin> set reserved_keys)"
      by (rule reparse_original_only_if)
  next
    assume r: "v_extras v = [] \<and> (\<forall>k \<in> fst ` set (pd_extras d). k \<notin> set reserved_keys)"
    then have ve: "v_extras v = []" by blast
    have dk: "distinct (map fst (pd_extras d @ v_extras v))"
      using h(2) ve by simp
    have rk: "\<forall>k \<in> fst ` set (pd_extras d @ v_extras v). k \<notin> set reserved_keys"
      using r by simp
    have "reparse sd_parse (pd_type d) ?pairs
            = Inr (d\<lparr>pd_extras := pd_extras d @ v_extras v, variants := [v\<lparr>v_extras := []\<rparr>]\<rparr>)"
      using dk rk h(3-5) by (rule reparse_single_variant)
    moreover have "d\<lparr>pd_extras := pd_extras d @ v_extras v, variants := [v\<lparr>v_extras := []\<rparr>]\<rparr> = d"
      using h(1) ve by (cases d, cases v) simp
    ultimately show "reparse sd_parse (pd_type d) ?pairs = Inr d" by simp
  qed
  have i: "\<exists>w. variants d = [w] \<and>
           reparse sd_parse t
             (filter (\<lambda>(k, x). \<not> omit k x) (PluginDefinition_attrs d) @ pd_extras d
              @ map (\<lambda>(k, x). (if k = ''name'' then ''variant'' else k, x)) (Variant_iter omit w))
           = Inr d"
    if "PluginDefinition_init sd_parse t n ns var [] kw = Inr d"
      "distinct (map fst kw)"
      "\<forall>x y. sd_parse x = Inr y \<longrightarrow> sd_parse y = Inr y"
      "\<forall>(k, x) \<in> set (PluginDefinition_attrs d). omit k x \<longrightarrow> x = attr_default k"
      "\<forall>w \<in> set (variants d). \<forall>(k, x) \<in> set (Variant_attrs w). omit k x \<longrightarrow> x = attr_default k"
    using that by (rule flat_built_round_trip)
  from a b c e f p g i show ?thesis by (simp only: simp_thms) blast
qed

theorem single_variant_is_inlined_and_round_trips_witness:
  "serialize (\<lambda>k x. x = PNone \<or> x = PList [])
     ((PluginDefinition_of EXTRACTORS ''tap-x'' ''tap_x''
         [(Variant_named ''v1'')\<lparr>pip_url := PStr ''x''\<rparr>])
      \<lparr>pd_extras := [(''foo'', PStr ''bar'')]\<rparr>)
     = [(''name'', Val (PStr ''tap-x'')), (''namespace'', Val (PStr ''tap_x'')),
        (''foo'', Val (PStr ''bar'')), (''variant'', Val (PStr ''v1'')),
        (''pip_url'', Val (PStr ''x''))] \<and>
   reparse Inr EXTRACTORS
     [(''name'', PStr ''tap-x''), (''namespace'', PStr ''tap_x''), (''foo'', PStr ''bar''),
      (''variant'', PStr ''v1''), (''pip_url'', PStr ''x'')]
     = Inr ((PluginDefinition_of EXTRACTORS ''tap-x'' ''tap_x''
               [(Variant_named ''v1'')\<lparr>pip_url := PStr ''x''\<rparr>])
            \<lparr>pd_extras := [(''foo'', PStr ''bar'')]\<rparr>) \<and>
   serialize (\<lambda>k x. x = PNone \<or> x = PList [])
     (PluginDefinition_of EXTRACTORS ''tap-x'' ''tap_x'' [Variant_named ''a'', Variant_named ''b''])
     = [(''name'', Val (PStr ''tap-x'')), (''namespace'', Val (PStr ''tap_x'')),
        (''variants'', Variants [Variant_named ''a'', Variant_named ''b''])] \<and>
   (\<exists>d'. reparse Inr EXTRACTORS
            [(''name'', PStr ''tap-x''), (''namespace'', PStr ''tap_x''), (''pip_url'', PStr ''x''),
             (''variant'', PStr ''v1''), (''foo'', PStr ''bar'')]
          = Inr d' \<and>
         PluginRef_eq d'
           ((PluginDefinition_of EXTRACTORS ''tap-x'' ''tap_x''
               [(Variant_named ''v1'')\<lparr>v_extras := [(''foo'', PStr ''bar'')]\<rparr>])
            \<lparr>pd_extras := [(''pip_url'', PStr ''x'')]\<rparr>)) \<and>
   reparse Inr EXTRACTORS
     [(''name'', PStr ''tap-x''), (''namespace'', PStr ''tap_x''), (''pip_url'', PStr ''x''),
      (''variant'', PStr ''v1''), (''foo'', PStr ''bar'')]
     \<noteq> Inr ((PluginDefinition_of EXTRACTORS ''tap-x'' ''tap_x''
               [(Variant_named ''v1'')\<lparr>v_extras := [(''foo'', PStr ''bar'')]\<rparr>])
            \<lparr>pd_extras := [(''pip_url'', PStr ''x'')]\<rparr>) \<and>
   reparse Inr EXTRACTORS
     [(''name'', PStr ''tap-x''), (''namespace'', PStr ''tap_x''),
      (''variant'', PStr ''v0''), (''plugin_type'', PStr ''y'')]
     = Inl TypeError"
proof -
  let ?omit = "\<lambda>(k :: string) x. x = PNone \<or> x = PList []"
  let ?v = "(Variant_named ''v1'')\<lparr>pip_url := PStr ''x''\<rparr>"
  let ?d = "(PluginDefinition_of EXTRACTORS ''tap-x'' ''tap_x'' [?v])
              \<lparr>pd_extras := [(''foo'', PStr ''bar'')]\<rparr>"
  let ?e = "PluginDefinition_of EXTRACTORS ''tap-x'' ''tap_x'' [Variant_named ''a'', Variant_named ''b'']"
  let ?pairs = "[(''name'', PStr ''tap-x''), (''namespace'', PStr ''tap_x''), (''foo'', PStr ''bar''),
      (''variant'', PStr ''v1''), (''pip_url'', PStr ''x'')]"
  let ?v2 = "(Variant_named ''v1'')\<lparr>v_extras := [(''foo'', PStr ''bar'')]\<rparr>"
  let ?d2 = "(PluginDefinition_of EXTRACTORS ''tap-x'' ''tap_x'' [?v2])
              \<lparr>pd_extras := [(''pip_url'', PStr ''x'')]\<rparr>"
  let ?pairs2 = "[(''name'', PStr ''tap-x''), (''namespace'', PStr ''tap_x''),
      (''pip_url'', PStr ''x''), (''variant'', PStr ''v1''), (''foo'', PStr ''bar'')]"
  have flat: "filter (\<lambda>(k, x). \<not> ?omit k x) (PluginDefinition_attrs ?d) @ pd_extras ?d
           @ map (\<lambda>(k, x). (if k = ''name'' then ''variant'' else k, x)) (Variant_iter ?omit ?v)
         = ?pairs"
    by (simp add: PluginDefinition_attrs_def Variant_iter_def Variant_attrs_def
        PluginDefinition_of_def Variant_named_def)
  have flat2: "filter (\<lambda>(k, x). \<not> ?omit k x) (PluginDefinition_attrs ?d2) @ pd_extras ?d2
           @ map (\<lambda>(k, x). (if k = ''name'' then ''variant'' else k, x)) (Variant_iter ?omit ?v2)
         = ?pairs2"
    by (simp add: PluginDefinition_attrs_def Variant_iter_def Variant_attrs_def
        PluginDefinition_of_def Variant_named_def)
  have t: "pd_type ?d = EXTRACTORS" "pd_type ?d2 = EXTRACTORS"
    by (simp_all add: PluginDefinition_of_def)
  have h1: "variants ?d = [?v]" by (simp add: PluginDefinition_of_def)
  have h2: "distinct (map fst (pd_extras ?d))" by simp
  have h4: "\<forall>s \<in> set (settings ?v). Inr s = (Inr s :: error + pyval)" by simp
  have h5: "\<forall>(k, x) \<in> set (PluginDefinition_attrs ?d). ?omit k x \<longrightarrow> x = attr_default k"
    by (simp add: PluginDefinition_attrs_def PluginDefinition_of_def attr_default_def)
  have h6: "\<forall>(k, x) \<in> set (Variant_attrs ?v). ?omit k x \<longrightarrow> x = attr_default k"
    by (simp add: Variant_attrs_def Variant_named_def attr_default_def)
  have h7: "v_extras ?v = [] \<and> (\<forall>k \<in> fst ` set (pd_extras ?d). k \<notin> set reserved_keys)"
    by (simp add: Variant_named_def reserved_keys_def)
  have g1: "variants ?d2 = [?v2]" by (simp add: PluginDefinition_of_def)
  have g2: "distinct (map fst (pd_extras ?d2))" by simp
  have g3: "\<forall>k \<in> fst ` set (pd_extras ?d2 @ v_extras ?v2). k \<notin> set fragile_keys"
    by (simp add: fragile_keys_def)
  have g4: "\<forall>s \<in> set (settings ?v2). Inr s = (Inr s :: error + pyval)" by simp
  have g5: "\<forall>(k, x) \<in> set (PluginDefinition_attrs ?d2). ?omit k x \<longrightarrow> x = attr_default k"
    by (simp add: PluginDefinition_attrs_def PluginDefinition_of_def attr_default_def)
  have g6: "\<forall>(k, x) \<in> set (Variant_attrs ?v2). ?omit k x \<longrightarrow> x = attr_default k"
    by (simp add: Variant_attrs_def Variant_named_def attr_default_def)
  have g7: "v_extras ?v2 \<noteq> []" by simp
  note T = single_variant_is_inlined_and_round_trips
    [where d = ?d and v = ?v and omit = ?omit and sd_parse = Inr]
  note T2 = single_variant_is_inlined_and_round_trips
    [where d = ?d2 and v = ?v2 and omit = ?omit and sd_parse = Inr]
  have w1: "serialize ?omit ?d = map (\<lambda>(k, x). (k, Val x)) ?pairs"
    using T [THEN conjunct2, THEN conjunct2, THEN conjunct1] h1 unfolding flat by blast
  have w2: "reparse Inr EXTRACTORS ?pairs = Inr ?d"
    using T [THEN conjunct2, THEN conjunct2, THEN conjunct2, THEN conjunct2, THEN conjunct2,
             THEN conjunct2, THEN conjunct1] h1 h2 h4 h5 h6 h7
    unfolding flat t by blast
  have l: "length (variants ?e) \<noteq> 1" by (simp add: PluginDefinition_of_def)
  have w3: "serialize ?omit ?e
     = [(''name'', Val (PStr ''tap-x'')), (''namespace'', Val (PStr ''tap_x'')),
        (''variants'', Variants [Variant_named ''a'', Variant_named ''b''])]"
    using single_variant_is_inlined_and_round_trips
      [where d = ?e and omit = ?omit, THEN conjunct2, THEN conjunct2, THEN conjunct2, THEN conjunct1] l
    by (simp add: PluginDefinition_attrs_def PluginDefinition_of_def)
  have w4: "\<exists>d'. reparse Inr EXTRACTORS ?pairs2 = Inr d' \<and> PluginRef_eq d' ?d2"
    using T2 [THEN conjunct2, THEN conjunct2, THEN conjunct2, THEN conjunct2, THEN conjunct1]
      g1 g3 g4 g5 g6
    unfolding flat2 t by blast
  have w5: "reparse Inr EXTRACTORS ?pairs2 \<noteq> Inr ?d2"
    using T2 [THEN conjunct2, THEN conjunct2, THEN conjunct2, THEN conjunct2, THEN conjunct2,
              THEN conjunct2, THEN conjunct1] g1 g2 g4 g5 g6 g7
    unfolding flat2 t by blast
  let ?v3 = "(Variant_named ''v0'')\<lparr>v_extras := [(''plugin_type'', PStr ''y'')]\<rparr>"
  let ?d3 = "PluginDefinition_of EXTRACTORS ''tap-x'' ''tap_x'' [?v3]"
  have flat3: "filter (\<lambda>(k, x). \<not> ?omit k x) (PluginDefinition_attrs ?d3) @ pd_extras ?d3
           @ map (\<lambda>(k, x). (if k = ''name'' then ''variant'' else k, x)) (Variant_iter ?omit ?v3)
         = [(''name'', PStr ''tap-x''), (''namespace'', PStr ''tap_x''),
            (''variant'', PStr ''v0''), (''plugin_type'', PStr ''y'')]"
    by (simp add: PluginDefinition_attrs_def Variant_iter_def Variant_attrs_def
        PluginDefinition_of_def Variant_named_def)
  have k1: "variants ?d3 = [?v3]" by (simp add: PluginDefinition_of_def)
  have k2: "''plugin_type'' \<in> fst ` set (pd_extras ?d3 @ v_extras ?v3)"
    by (simp add: PluginDefinition_of_def)
  have t3: "pd_type ?d3 = EXTRACTORS" by (simp add: PluginDefinition_of_def)
  have w6: "reparse Inr EXTRACTORS
     [(''name'', PStr ''tap-x''), (''namespace'', PStr ''tap_x''),
      (''variant'', PStr ''v0''), (''plugin_type'', PStr ''y'')] = Inl TypeError"
    using single_variant_is_inlined_and_round_trips
      [where d = ?d3 and v = ?v3 and omit = ?omit and sd_parse = Inr,
       THEN conjunct2, THEN conjunct2, THEN conjunct2, THEN conjunct2, THEN conjunct2,
       THEN conjunct1] k1 k2
    unfolding flat3 t3 by blast
  from w1 w2 w3 w4 w5 w6 show ?thesis by simp
qed

theorem variant_extra_plugin_type_counterexample:
  "PluginDefinition_init Inr EXTRACTORS ''tap-x'' ''tap_x'' PNone
       [VariantDict [(''name'', PStr ''v1''), (''plugin_type'', PStr ''x'')]] []
     = Inr (PluginDefinition_of EXTRACTORS ''tap-x'' ''tap_x''
              [(Variant_named ''v1'')\<lparr>v_extras := [(''plugin_type'', PStr ''x'')]\<rparr>]) \<and>
   length (variants (PluginDefinition_of EXTRACTORS ''tap-x'' ''tap_x''
              [(Variant_named ''v1'')\<lparr>v_extras := [(''plugin_type'', PStr ''x'')]\<rparr>])) = 1 \<and>
   serialize (\<lambda>k x. x = PNone \<or> x = PList [])
       (PluginDefinition_of EXTRACTORS ''tap-x'' ''tap_x''
              [(Variant_named ''v1'')\<lparr>v_extras := [(''plugin_type'', PStr ''x'')]\<rparr>])
     = [(''name'', Val (PStr ''tap-x'')), (''namespace'', Val (PStr ''tap_x'')),
        (''variant'', Val (PStr ''v1'')), (''plugin_type'', Val (PStr ''x''))] \<and>
   reparse Inr EXTRACTORS
     [(''name'', PStr ''tap-x''), (''namespace'', PStr ''tap_x''),
      (''variant'', PStr ''v1''), (''plugin_type'', PStr ''x'')]
     = Inl TypeError \<and>
   serialize (\<lambda>k x. False)
       (PluginDefinition_of EXTRACTORS ''tap-x'' ''tap_x''
              [(Variant_named ''v1'')\<lparr>v_extras := [(''plugin_type'', PStr ''x'')]\<rparr>])
     = [(''name'', Val (PStr ''tap-x'')), (''namespace'', Val (PStr ''tap_x'')),
        (''hidden'', Val PNone), (''label'', Val PNone), (''logo_url'', Val PNone),
        (''description'', Val PNone),
        (''variant'', Val (PStr ''v1'')), (''original'', Val PNone), (''deprecated'', Val PNone),
        (''docs'', Val PNone), (''repo'', Val PNone), (''pip_url'', Val PNone),
        (''executable'', Val PNone), (''capabilities'', Val (PList [])),
        (''settings_group_validation'', Val (PList [])), (''settings'', Val (PList [])),
        (''plugin_type'', Val (PStr ''x''))] \<and>
   reparse Inr EXTRACTORS
     [(''name'', PStr ''tap-x''), (''namespace'', PStr ''tap_x''),
      (''hidden'', PNone), (''label'', PNone), (''logo_url'', PNone), (''description'', PNone),
      (''variant'', PStr ''v1''), (''original'', PNone), (''deprecated'', PNone),
      (''docs'', PNone), (''repo'', PNone), (''pip_url'', PNone),
      (''executable'', PNone), (''capabilities'', PList []),
      (''settings_group_validation'', PList []), (''settings'', PList []),
      (''plugin_type'', PStr ''x'')]
     = Inl TypeError"
proof -
  let ?d = "PluginDefinition_of EXTRACTORS ''tap-x'' ''tap_x''
              [(Variant_named ''v1'')\<lparr>v_extras := [(''plugin_type'', PStr ''x'')]\<rparr>]"
  have built: "PluginDefinition_init Inr EXTRACTORS ''tap-x'' ''tap_x'' PNone
       [VariantDict [(''name'', PStr ''v1''), (''plugin_type'', PStr ''x'')]] [] = Inr ?d"
    by (simp add: PluginDefinition_init_def PluginDefinition_finish_def dict_pop_def
        Variant_init_def Variant_params_def dict_get_def PluginDefinition_of_def Variant_named_def)
  have one: "length (variants ?d) = 1"
    by (simp add: PluginDefinition_of_def)
  have s1: "serialize (\<lambda>k x. x = PNone \<or> x = PList []) ?d
     = [(''name'', Val (PStr ''tap-x'')), (''namespace'', Val (PStr ''tap_x'')),
        (''variant'', Val (PStr ''v1'')), (''plugin_type'', Val (PStr ''x''))]"
    by (simp add: serialize_def Canonical_iter_def Variant_iter_def PluginDefinition_attrs_def
        Variant_attrs_def PluginDefinition_of_def Variant_named_def)
  have r1: "reparse Inr EXTRACTORS
     [(''name'', PStr ''tap-x''), (''namespace'', PStr ''tap_x''),
      (''variant'', PStr ''v1''), (''plugin_type'', PStr ''x'')] = Inl TypeError"
    by (simp add: reparse_def dict_merge_def dict_set_def dict_get_def
        PluginDefinition_init_def PluginDefinition_params_def)
  have s2: "serialize (\<lambda>k x. False) ?d
     = [(''name'', Val (PStr ''tap-x'')), (''namespace'', Val (PStr ''tap_x'')),
        (''hidden'', Val PNone), (''label'', Val PNone), (''logo_url'', Val PNone),
        (''description'', Val PNone),
        (''variant'', Val (PStr ''v1'')), (''original'', Val PNone), (''deprecated'', Val PNone),
        (''docs'', Val PNone), (''repo'', Val PNone), (''pip_url'', Val PNone),
        (''executable'', Val PNone), (''capabilities'', Val (PList [])),
        (''settings_group_validation'', Val (PList [])), (''settings'', Val (PList [])),
        (''plugin_type'', Val (PStr ''x''))]"
    by (simp add: serialize_def Canonical_iter_def Variant_iter_def PluginDefinition_attrs_def
        Variant_attrs_def PluginDefinition_of_def Variant_named_def)
  have r2: "reparse Inr EXTRACTORS
     [(''name'', PStr ''tap-x''), (''namespace'', PStr ''tap_x''),
      (''hidden'', PNone), (''label'', PNone), (''logo_url'', PNone), (''description'', PNone),
      (''variant'', PStr ''v1''), (''original'', PNone), (''deprecated'', PNone),
      (''docs'', PNone), (''repo'', PNone), (''pip_url'', PNone),
      (''executable'', PNone), (''capabilities'', PList []),
      (''settings_group_validation'', PList []), (''settings'', PList []),
      (''plugin_type'', PStr ''x'')] = Inl TypeError"
    by (simp add: reparse_def dict_merge_def dict_set_def dict_get_def
        PluginDefinition_init_def PluginDefinition_params_def)
  from built one s1 r1 s2 r2 show ?thesis by (intro conjI)
qed

end
